(* ===== verification/HP_Prelude.thy ===== *)
theory HP_Prelude
  imports Main "HOL-Library.Word" "HOL-Library.List_Lexorder"
begin

text \<open>
  Shared vocabulary of the development: the machine types of the Go sources, the byte
  encodings the key functions use, decimal strings of \<open>big.Int\<close> values, and the division of
  \<open>math/big\<close>.  Every lemma here is used by at least two component theories.

  \<^item> \<open>uint64\<close>, \<open>uint32\<close>, \<open>uint16\<close>, \<open>uint8\<close> and their signed counterparts are words of that width;
    \<open>sint\<close> reads a signed one.
  \<^item> \<open>common.Address\<close> is a \<open>160 word\<close>; \<open>addr_Bytes\<close> is its \<open>Bytes()\<close> method and
    \<open>BytesToAddress\<close> the go-ethereum conversion (crop on the left, or pad with zeroes).
  \<^item> \<open>*big.Int\<close> is an \<open>int\<close>; where the source tests a pointer for nil it is an \<open>int option\<close>.
\<close>

named_theorems op_defs \<open>definitions of the modelled operations, unfolded by component proofs\<close>
named_theorems key_simps \<open>facts on store keys: lengths, prefixes, injectivity, disjointness\<close>

type_synonym byte = "8 word"
type_synonym bytes = "byte list"
type_synonym u8 = "8 word"
type_synonym u16 = "16 word"
type_synonym u32 = "32 word"
type_synonym u64 = "64 word"
type_synonym i16 = "16 word"
type_synonym i64 = "64 word"
type_synonym addr = "160 word"
type_synonym ('e, 'a) result = "'e + 'a"

section \<open>Big-endian byte strings\<close>

primrec be_encode :: "nat \<Rightarrow> nat \<Rightarrow> bytes" where
  "be_encode 0 v = []"
| "be_encode (Suc n) v = be_encode n (v div 256) @ [word_of_nat v]"

definition be_decode :: "bytes \<Rightarrow> nat" where
  "be_decode bs = foldl (\<lambda>a b. a * 256 + unat b) 0 bs"

definition u64_be :: "u64 \<Rightarrow> bytes" where
  "u64_be v = be_encode 8 (unat v)"

definition addr_Bytes :: "addr \<Rightarrow> bytes" where
  "addr_Bytes a = be_encode 20 (unat a)"

definition BytesToAddress :: "bytes \<Rightarrow> addr" where
  "BytesToAddress bs = word_of_nat (be_decode bs)"

lemma length_be_encode [simp]: "length (be_encode n v) = n"
  by (induction n arbitrary: v) auto

lemma be_decode_Nil [simp]: "be_decode [] = 0"
  by (simp add: be_decode_def)

lemma be_decode_snoc [simp]: "be_decode (bs @ [b]) = be_decode bs * 256 + unat b"
  by (simp add: be_decode_def)

lemma unat_byte_of_nat: "unat (word_of_nat v :: byte) = v mod 256"
  by (simp add: unat_of_nat)

lemma unat_byte_less: "unat (b :: byte) < 256"
  using unsigned_less [of b, where ?'a = nat] by simp

lemma be_decode_encode: "be_decode (be_encode n v) = v mod 256 ^ n"
proof (induction n arbitrary: v)
  case 0
  then show ?case by simp
next
  case (Suc n)
  have "be_decode (be_encode (Suc n) v) = (v div 256) mod 256 ^ n * 256 + v mod 256"
    by (simp add: Suc.IH unat_byte_of_nat)
  also have "\<dots> = v mod (256 * 256 ^ n)"
    by (simp add: mod_mult2_eq)
  finally show ?case by simp
qed

lemma be_decode_less: "be_decode bs < 256 ^ length bs"
proof (induction bs rule: rev_induct)
  case (snoc b bs)
  have "unat b < 256"
    by (rule unat_byte_less)
  with snoc.IH show ?case by simp
qed simp

lemma be_encode_decode: "be_encode (length bs) (be_decode bs) = bs"
proof (induction bs rule: rev_induct)
  case (snoc b bs)
  have b: "unat b < 256"
    by (rule unat_byte_less)
  have w: "(word_of_nat (be_decode bs * 256 + unat b) :: byte) = b"
    by (rule word_unat_eq_iff [THEN iffD2]) (use b in \<open>simp only: unat_byte_of_nat; simp\<close>)
  from b w snoc.IH show ?case by simp
qed simp

lemma be_encode_inject:
  "v < 256 ^ n \<Longrightarrow> w < 256 ^ n \<Longrightarrow> be_encode n v = be_encode n w \<longleftrightarrow> v = w"
  by (metis be_decode_encode mod_less)

lemma unat_u64_less: "unat (v :: u64) < 256 ^ 8"
  using unsigned_less [of v, where ?'a = nat] by simp

lemma unat_addr_less: "unat (a :: addr) < 256 ^ 20"
  using unsigned_less [of a, where ?'a = nat] by simp

lemma length_u64_be [simp, key_simps]: "length (u64_be v) = 8"
  by (simp add: u64_be_def)

lemma length_addr_Bytes [simp, key_simps]: "length (addr_Bytes a) = 20"
  by (simp add: addr_Bytes_def)

lemma u64_be_inject [simp, key_simps]: "u64_be v = u64_be w \<longleftrightarrow> v = w"
  by (simp add: u64_be_def be_encode_inject [OF unat_u64_less unat_u64_less]
      word_unat_eq_iff [of v w])

lemma u64_be_decode [simp]: "word_of_nat (be_decode (u64_be v)) = v"
  using unat_u64_less [of v] by (simp add: u64_be_def be_decode_encode)

lemma BytesToAddress_Bytes [simp]: "BytesToAddress (addr_Bytes a) = a"
  using unat_addr_less [of a] by (simp add: BytesToAddress_def addr_Bytes_def be_decode_encode)

lemma addr_Bytes_inject [simp, key_simps]: "addr_Bytes a = addr_Bytes b \<longleftrightarrow> a = b"
  by (metis BytesToAddress_Bytes)

lemma addr_Bytes_BytesToAddress: "length bs = 20 \<Longrightarrow> addr_Bytes (BytesToAddress bs) = bs"
proof -
  assume l: "length bs = 20"
  have "be_decode bs < 2 ^ 160"
    using be_decode_less [of bs] by (simp add: l)
  then have "unat (word_of_nat (be_decode bs) :: addr) = be_decode bs"
    by (simp add: unat_of_nat)
  then show ?thesis
    using be_encode_decode [of bs] by (simp add: addr_Bytes_def BytesToAddress_def l)
qed

text \<open>The lexicographic order on keys agrees with the numeric order of the encoded value: the
  order in which an iterator visits the entries of one index.\<close>

lemma append_same_length_less:
  fixes xs ys us vs :: "'a::linorder list"
  assumes "length xs = length ys"
  shows "xs @ us < ys @ vs \<longleftrightarrow> xs < ys \<or> (xs = ys \<and> us < vs)"
  using assms by (induction xs ys rule: list_induct2) auto

lemma be_encode_less_iff:
  "v < 256 ^ n \<Longrightarrow> w < 256 ^ n \<Longrightarrow> be_encode n v < be_encode n w \<longleftrightarrow> v < w"
proof (induction n arbitrary: v w)
  case 0
  then show ?case by simp
next
  case (Suc n)
  have v: "v div 256 < 256 ^ n" and w: "w div 256 < 256 ^ n"
    using Suc.prems by (simp_all add: less_mult_imp_div_less mult.commute)
  have b: "(word_of_nat v :: byte) < word_of_nat w \<longleftrightarrow> v mod 256 < w mod 256"
    by (simp only: word_less_nat_alt unat_byte_of_nat)
  have "be_encode (Suc n) v < be_encode (Suc n) w \<longleftrightarrow>
      v div 256 < w div 256 \<or> (v div 256 = w div 256 \<and> v mod 256 < w mod 256)"
    by (simp add: append_same_length_less Suc.IH [OF v w] be_encode_inject [OF v w] b)
  also have "\<dots> \<longleftrightarrow> v < w"
    by (smt (verit) div_le_mono mod_div_decomp nat_add_left_cancel_less linorder_not_less
        order_le_less div_mult_mod_eq)
  finally show ?case .
qed

lemma u64_be_less_iff [key_simps]: "u64_be v < u64_be w \<longleftrightarrow> v < w"
  by (simp add: u64_be_def be_encode_less_iff [OF unat_u64_less unat_u64_less] word_less_nat_alt)

section \<open>Decimal strings of big integers\<close>

text \<open>\<open>big_String\<close> is \<open>(*big.Int).String()\<close>; \<open>big_SetString\<close> is \<open>SetString(s, 10)\<close>: an optional
  sign and one or more decimal digits, nothing else.\<close>

fun nat_dec :: "nat \<Rightarrow> string" where
  "nat_dec n = (if n < 10 then [char_of (48 + n)] else nat_dec (n div 10) @ [char_of (48 + n mod 10)])"

declare nat_dec.simps [simp del]

definition big_String :: "int \<Rightarrow> string" where
  "big_String z = (if z < 0 then CHR ''-'' # nat_dec (nat (- z)) else nat_dec (nat z))"

definition is_dec :: "char \<Rightarrow> bool" where
  "is_dec c \<longleftrightarrow> 48 \<le> (of_char c :: nat) \<and> (of_char c :: nat) \<le> 57"

definition dec_val :: "string \<Rightarrow> nat" where
  "dec_val s = foldl (\<lambda>a c. a * 10 + (of_char c - 48)) 0 s"

definition nat_SetString :: "string \<Rightarrow> nat option" where
  "nat_SetString s = (if s \<noteq> [] \<and> list_all is_dec s then Some (dec_val s) else None)"

definition big_SetString :: "string \<Rightarrow> int option" where
  "big_SetString s =
     (case s of
        [] \<Rightarrow> None
      | c # cs \<Rightarrow>
          if c = CHR ''-'' then map_option (\<lambda>n. - int n) (nat_SetString cs)
          else if c = CHR ''+'' then map_option int (nat_SetString cs)
          else map_option int (nat_SetString s))"

lemma of_char_digit: "d < 10 \<Longrightarrow> (of_char (char_of (48 + d) :: char) :: nat) = 48 + d"
  by simp

lemma nat_dec_digits: "nat_dec n \<noteq> [] \<and> list_all is_dec (nat_dec n) \<and> dec_val (nat_dec n) = n"
proof (induction n rule: nat_dec.induct)
  case (1 n)
  show ?case
  proof (cases "n < 10")
    case True
    then show ?thesis
      by (simp add: nat_dec.simps [of n] is_dec_def dec_val_def of_char_digit)
  next
    case False
    with "1.IH" show ?thesis
      by (simp add: nat_dec.simps [of n] is_dec_def dec_val_def of_char_digit)
  qed
qed

lemma nat_SetString_dec: "nat_SetString (nat_dec n) = Some n"
  by (simp add: nat_SetString_def nat_dec_digits)

lemma nat_dec_not_sign:
  assumes "nat_dec n = c # cs"
  shows "c \<noteq> CHR ''-'' \<and> c \<noteq> CHR ''+''"
proof -
  have "is_dec c"
    using nat_dec_digits [of n] assms by simp
  then show ?thesis by (auto simp: is_dec_def)
qed

lemma big_SetString_String [simp]: "big_SetString (big_String z) = Some z"
proof (cases "z < 0")
  case True
  then show ?thesis by (simp add: big_String_def big_SetString_def nat_SetString_dec)
next
  case False
  obtain c cs where c: "nat_dec (nat z) = c # cs"
    using nat_dec_digits [of "nat z"] by (cases "nat_dec (nat z)") auto
  have "big_SetString (c # cs) = map_option int (nat_SetString (c # cs))"
    using nat_dec_not_sign [OF c] by (simp add: big_SetString_def)
  with False show ?thesis
    using nat_SetString_dec [of "nat z"] by (simp add: big_String_def c)
qed

lemma big_String_not_Nil [simp]: "big_String z \<noteq> []"
  using nat_dec_digits by (simp add: big_String_def)

section \<open>Division of \<open>math/big\<close>\<close>

text \<open>\<open>(*big.Int).Div\<close> is Euclidean division.  A zero divisor panics; the definitions that divide
  test for it first or carry the panic as an error.\<close>

definition big_Div :: "int \<Rightarrow> int \<Rightarrow> int" where
  "big_Div x y = (if 0 < y then x div y else - (x div (- y)))"

lemma big_Div_pos [simp]: "0 < y \<Longrightarrow> big_Div x y = x div y"
  by (simp add: big_Div_def)

section \<open>Byte comparison\<close>

text \<open>\<open>equalAddress\<close> of \<open>x/scheduler/keeper/schedule.go\<close> and \<open>x/streams/keeper/settle_impl.go\<close>: the
  loop folds the exclusive or of the bytes into \<open>diff\<close>.\<close>

definition equalAddress :: "bytes \<Rightarrow> bytes \<Rightarrow> bool" where
  "equalAddress a b =
     (if length a \<noteq> length b then False
      else foldl (\<lambda>diff (x, y). or diff (xor x y)) 0 (zip a b) = 0)"

lemma or_fold_zero_iff:
  fixes d :: "byte"
  assumes "length a = length b"
  shows "foldl (\<lambda>diff (x, y). or diff (xor x y)) d (zip a b) = 0 \<longleftrightarrow> d = 0 \<and> a = b"
  using assms
proof (induction a b arbitrary: d rule: list_induct2)
  case Nil
  then show ?case by simp
next
  case (Cons x xs y ys)
  have "or d (xor x y) = 0 \<longleftrightarrow> d = 0 \<and> x = y"
    by (metis or.right_neutral or.left_neutral or_eq_0_iff xor_self_eq xor.assoc xor.left_neutral xor.right_neutral)
  with Cons.IH show ?case by auto
qed

lemma equalAddress_iff [simp]: "equalAddress a b \<longleftrightarrow> a = b"
  by (cases "length a = length b") (auto simp: equalAddress_def or_fold_zero_iff)

section \<open>Machine integers\<close>

lemma u64_diff_le:
  assumes "b < (a :: u64)"
  shows "a - b \<le> c \<longleftrightarrow> unat a \<le> unat b + unat c"
  using unat_sub [OF less_imp_le [OF assms]] assms
  by (auto simp: word_le_nat_alt word_less_nat_alt)

text \<open>The value that an \<open>int64\<close> computation leaves of an integer.\<close>

definition wrap64 :: "int \<Rightarrow> int" where
  "wrap64 z = sint (word_of_int z :: 64 word)"

lemma wrap64_id: "- (2 ^ 63) \<le> z \<Longrightarrow> z < 2 ^ 63 \<Longrightarrow> wrap64 z = z"
  by (simp add: wrap64_def sint_sbintrunc' signed_take_bit_int_eq_self)

end
