(* ===== verification/KV_Store.thy ===== *)
theory KV_Store
  imports HP_Prelude
begin

text \<open>
  The key-value store of a module.  A keeper reads and writes it through \<open>ctx.KVStore(k.storeKey)\<close>:
  \<open>Get\<close>, \<open>Has\<close>, \<open>Set\<close>, \<open>Delete\<close> and \<open>KVStorePrefixIterator\<close>, which visits the entries whose key starts
  with a prefix in ascending byte order.  The state is an association list in that order; values
  are kept typed, as the JSON and protobuf encodings of the sources only wrap them.

  The locale \<open>kv_store\<close> states what the modules use of such a store and is interpreted on the
  association list.  The locale \<open>record_index\<close> is the contract of the modules that keep one record
  under several keys (the canonical key and secondary indexes): it is interpreted by every module
  that does so, and gives each of them that its store represents a finite map from identifiers to
  records.
\<close>

type_synonym 'v kv = "(bytes \<times> 'v) list"

definition kv_get :: "'v kv \<Rightarrow> bytes \<Rightarrow> 'v option" where
  "kv_get st k = map_of st k"

definition kv_has :: "'v kv \<Rightarrow> bytes \<Rightarrow> bool" where
  "kv_has st k \<longleftrightarrow> kv_get st k \<noteq> None"

fun kv_set :: "'v kv \<Rightarrow> bytes \<Rightarrow> 'v \<Rightarrow> 'v kv" where
  "kv_set [] k v = [(k, v)]"
| "kv_set ((k', v') # st) k v =
     (if k = k' then (k, v) # st
      else if k < k' then (k, v) # (k', v') # st
      else (k', v') # kv_set st k v)"

definition kv_delete :: "'v kv \<Rightarrow> bytes \<Rightarrow> 'v kv" where
  "kv_delete st k = filter (\<lambda>e. fst e \<noteq> k) st"

definition has_prefix :: "bytes \<Rightarrow> bytes \<Rightarrow> bool" where
  "has_prefix p k \<longleftrightarrow> take (length p) k = p"

definition kv_iter :: "'v kv \<Rightarrow> bytes \<Rightarrow> (bytes \<times> 'v) list" where
  "kv_iter st p = filter (\<lambda>e. has_prefix p (fst e)) st"

definition kv_wf :: "'v kv \<Rightarrow> bool" where
  "kv_wf st \<longleftrightarrow> sorted_wrt (<) (map fst st)"

section \<open>The store interface\<close>

locale kv_store =
  fixes get :: "'s \<Rightarrow> bytes \<Rightarrow> 'v option"
    and set :: "'s \<Rightarrow> bytes \<Rightarrow> 'v \<Rightarrow> 's"
    and delete :: "'s \<Rightarrow> bytes \<Rightarrow> 's"
    and iter :: "'s \<Rightarrow> bytes \<Rightarrow> (bytes \<times> 'v) list"
    and wf :: "'s \<Rightarrow> bool"
  assumes get_set: "get (set st k v) = (get st)(k \<mapsto> v)"
    and get_delete: "get (delete st k) = (get st)(k := None)"
    and wf_set: "wf st \<Longrightarrow> wf (set st k v)"
    and wf_delete: "wf st \<Longrightarrow> wf (delete st k)"
    and iter_iff: "wf st \<Longrightarrow> (k, v) \<in> List.set (iter st p) \<longleftrightarrow> has_prefix p k \<and> get st k = Some v"
    and iter_sorted: "wf st \<Longrightarrow> sorted_wrt (<) (map fst (iter st p))"
begin

lemma iter_distinct: "wf st \<Longrightarrow> distinct (map fst (iter st p))"
  using iter_sorted by (simp add: strict_sorted_iff)

text \<open>Two stores that agree on the keys under a prefix give the same iteration.\<close>

lemma iter_cong:
  assumes "wf st" "wf st'" and eq: "\<And>k. has_prefix p k \<Longrightarrow> get st k = get st' k"
  shows "iter st p = iter st' p"
proof (rule map_sorted_distinct_set_unique [where f = fst])
  have m: "(k, v) \<in> List.set (iter st p) \<longleftrightarrow> (k, v) \<in> List.set (iter st' p)" for k v
    using eq [of k] by (simp add: iter_iff assms(1,2) conj_commute cong: conj_cong)
  then show s: "List.set (iter st p) = List.set (iter st' p)"
    by auto
  show "inj_on fst (List.set (iter st p) \<union> List.set (iter st' p))"
    using iter_distinct [OF assms(1), of p] s by (simp add: distinct_map)
qed (use iter_sorted assms(1,2) in \<open>auto simp: strict_sorted_iff\<close>)

lemma wf_sets: "wf st \<Longrightarrow> wf (fold (\<lambda>(k, v) s. set s k v) es st)"
  by (induction es arbitrary: st) (auto intro: wf_set)

lemma wf_deletes: "wf st \<Longrightarrow> wf (fold (\<lambda>k s. delete s k) ks st)"
  by (induction ks arbitrary: st) (auto intro: wf_delete)

lemma get_sets:
  "distinct (map fst es) \<Longrightarrow>
   get (fold (\<lambda>(k, v) s. set s k v) es st) k =
     (case map_of es k of Some v \<Rightarrow> Some v | None \<Rightarrow> get st k)"
proof (induction es arbitrary: st)
  case (Cons e es)
  obtain k' v' where e: "e = (k', v')" by fastforce
  have "map_of es k' = None"
    using Cons.prems by (simp add: e map_of_eq_None_iff)
  with Cons show ?case
    by (auto simp: e get_set split: option.splits)
qed simp

lemma get_deletes:
  "get (fold (\<lambda>k s. delete s k) ks st) k = (if k \<in> List.set ks then None else get st k)"
  by (induction ks arbitrary: st) (auto simp: get_delete)

end

lemma set_fst_kv_set: "fst ` set (kv_set st k v) = insert k (fst ` set st)"
  by (induction st k v rule: kv_set.induct) auto

lemma kv_get_kv_set: "kv_get (kv_set st k v) = (kv_get st)(k \<mapsto> v)"
  by (induction st k v rule: kv_set.induct) (auto simp: kv_get_def fun_eq_iff)

lemma kv_get_kv_delete: "kv_get (kv_delete st k) = (kv_get st)(k := None)"
  by (induction st) (auto simp: kv_get_def kv_delete_def fun_eq_iff)

lemma kv_wf_kv_set: "kv_wf st \<Longrightarrow> kv_wf (kv_set st k v)"
proof (induction st k v rule: kv_set.induct)
  case (2 k' v' st k v)
  show ?case
  proof (cases "k \<le> k'")
    case True
    with "2.prems" show ?thesis
      by (auto simp: kv_wf_def dest: order.strict_trans)
  next
    case False
    moreover have "kv_wf st" and "\<forall>x \<in> fst ` set st. k' < x"
      using "2.prems" by (auto simp: kv_wf_def)
    ultimately have "kv_wf (kv_set st k v)" and "\<forall>x \<in> fst ` set (kv_set st k v). k' < x"
      using "2.IH" by (auto simp only: set_fst_kv_set)
    moreover have "k \<noteq> k'" "\<not> k < k'"
      using False by auto
    ultimately show ?thesis
      by (simp add: kv_wf_def)
  qed
qed (simp add: kv_wf_def)

lemma kv_wf_kv_delete: "kv_wf st \<Longrightarrow> kv_wf (kv_delete st k)"
  by (simp add: kv_wf_def kv_delete_def sorted_wrt_map sorted_wrt_filter)

lemma kv_wf_Nil [simp]: "kv_wf []"
  by (simp add: kv_wf_def)

lemma kv_wf_distinct: "kv_wf st \<Longrightarrow> distinct (map fst st)"
  by (simp add: kv_wf_def strict_sorted_iff)

interpretation kv: kv_store kv_get kv_set kv_delete kv_iter kv_wf
proof
  fix st :: "'v kv" and k v p
  show "kv_get (kv_set st k v) = (kv_get st)(k \<mapsto> v)" by (rule kv_get_kv_set)
  show "kv_get (kv_delete st k) = (kv_get st)(k := None)" by (rule kv_get_kv_delete)
  show "kv_wf (kv_set st k v)" if "kv_wf st" using that by (rule kv_wf_kv_set)
  show "kv_wf (kv_delete st k)" if "kv_wf st" using that by (rule kv_wf_kv_delete)
  show "(k, v) \<in> set (kv_iter st p) \<longleftrightarrow> has_prefix p k \<and> kv_get st k = Some v" if "kv_wf st"
    using kv_wf_distinct [OF that] by (auto simp: kv_iter_def kv_get_def)
  show "sorted_wrt (<) (map fst (kv_iter st p))" if "kv_wf st"
    using that by (simp add: kv_wf_def kv_iter_def sorted_wrt_map sorted_wrt_filter)
qed

lemmas kv_simps = kv.get_set kv.get_delete kv_has_def

lemma has_prefix_append [simp, key_simps]: "has_prefix p (p @ k)"
  by (simp add: has_prefix_def)

lemma has_prefix_iff: "has_prefix p k \<longleftrightarrow> (\<exists>s. k = p @ s)"
  by (metis append_take_drop_id has_prefix_append has_prefix_def)

lemma has_prefix_same_length [key_simps]:
  "length p = length q \<Longrightarrow> has_prefix p (q @ k) \<longleftrightarrow> p = q"
  by (auto simp: has_prefix_def)

lemma has_prefix_Cons [simp, key_simps]:
  "has_prefix (x # p) (y # k) \<longleftrightarrow> x = y \<and> has_prefix p k"
  by (auto simp: has_prefix_def)

lemma has_prefix_Nil [simp]: "has_prefix [] k"
  by (simp add: has_prefix_def)

lemma option_eqI: "(\<And>v. x = Some v \<longleftrightarrow> y = Some v) \<Longrightarrow> x = y"
  by (metis option.exhaust)

text \<open>The three index prefixes the scheduler and the streams module use.\<close>

definition index_key :: "bytes \<Rightarrow> bool" where
  "index_key k \<longleftrightarrow> k \<noteq> [] \<and> hd k \<in> {1, 2, 3}"

lemma index_key_prefix: "has_prefix (x # p) k \<Longrightarrow> x \<in> {1, 2, 3} \<Longrightarrow> index_key k"
  by (cases k) (auto simp: has_prefix_def index_key_def)

lemma foldl_count: "foldl (\<lambda>n _. n + 1) a xs = a + word_of_nat (length xs)"
  by (induction xs arbitrary: a) (auto simp: algebra_simps)

section \<open>Iterations keyed by an identifier\<close>

text \<open>An iteration whose keys are a prefix followed by a big-endian identifier visits the
  identifiers in ascending order.\<close>

lemma iter_ids:
  assumes wf: "kv_wf st"
    and entries: "set (kv_iter st p) = (\<lambda>i. (q @ u64_be i, f i)) ` I"
  shows "kv_iter st p = map (\<lambda>i. (q @ u64_be i, f i)) (sorted_list_of_set I)"
proof (rule map_sorted_distinct_set_unique [where f = fst])
  let ?R = "map (\<lambda>i. (q @ u64_be i, f i)) (sorted_list_of_set I)"
  show same: "set (kv_iter st p) = set ?R"
    using entries by simp
  show "inj_on fst (set (kv_iter st p) \<union> set ?R)"
    using kv.iter_distinct [OF wf, of p] same by (simp add: distinct_map)
  have "sorted_wrt (<) (sorted_list_of_set I)"
    by simp
  then have "sorted_wrt (<) (map fst ?R)"
    by (auto simp: sorted_wrt_map append_same_length_less u64_be_less_iff elim!: sorted_wrt_mono_rel [rotated])
  then show "sorted (map fst ?R)" "distinct (map fst ?R)"
    by (auto simp: strict_sorted_iff)
qed (use kv.iter_sorted [OF wf] in \<open>auto simp: strict_sorted_iff\<close>)

section \<open>Records kept under several keys\<close>

text \<open>
  \<open>ents r\<close> are the entries a record is written under, \<open>rid r\<close> its identifier, \<open>valid r\<close> the records
  the module stores and \<open>own k\<close> the keys of these indexes.  \<open>represents\<close> says that the store holds,
  on those keys, exactly the entries of the records of a finite map.
\<close>

definition set_record :: "('r \<Rightarrow> (bytes \<times> 'v) list) \<Rightarrow> 'v kv \<Rightarrow> 'r \<Rightarrow> 'v kv" where
  "set_record ents st r = fold (\<lambda>(k, v) s. kv_set s k v) (ents r) st"

definition delete_record :: "('r \<Rightarrow> (bytes \<times> 'v) list) \<Rightarrow> 'v kv \<Rightarrow> 'r \<Rightarrow> 'v kv" where
  "delete_record ents st r = fold (\<lambda>k s. kv_delete s k) (map fst (ents r)) st"

definition represents ::
  "('r \<Rightarrow> (bytes \<times> 'v) list) \<Rightarrow> ('r \<Rightarrow> u64) \<Rightarrow> ('r \<Rightarrow> bool) \<Rightarrow> (bytes \<Rightarrow> bool) \<Rightarrow>
   'v kv \<Rightarrow> (u64 \<rightharpoonup> 'r) \<Rightarrow> bool" where
  "represents ents rid valid own st m \<longleftrightarrow>
     kv_wf st \<and>
     (\<forall>i r. m i = Some r \<longrightarrow> rid r = i \<and> valid r) \<and>
     (\<forall>k v. own k \<longrightarrow> kv_get st k = Some v \<longleftrightarrow> (\<exists>i r. m i = Some r \<and> (k, v) \<in> set (ents r)))"

locale record_index =
  fixes ents :: "'r \<Rightarrow> (bytes \<times> 'v) list"
    and rid :: "'r \<Rightarrow> u64"
    and valid :: "'r \<Rightarrow> bool"
    and own :: "bytes \<Rightarrow> bool"
  assumes ents_own: "valid r \<Longrightarrow> e \<in> set (ents r) \<Longrightarrow> own (fst e)"
    and ents_distinct: "valid r \<Longrightarrow> distinct (map fst (ents r))"
    and ents_disjoint:
      "valid r \<Longrightarrow> valid r' \<Longrightarrow> rid r \<noteq> rid r' \<Longrightarrow> fst ` set (ents r) \<inter> fst ` set (ents r') = {}"
begin

abbreviation rep :: "'v kv \<Rightarrow> (u64 \<rightharpoonup> 'r) \<Rightarrow> bool" where
  "rep \<equiv> represents ents rid valid own"

lemma rep_wf: "rep st m \<Longrightarrow> kv_wf st"
  by (simp add: represents_def)

lemma rep_rid: "rep st m \<Longrightarrow> m i = Some r \<Longrightarrow> rid r = i"
  by (simp add: represents_def)

lemma rep_valid: "rep st m \<Longrightarrow> m i = Some r \<Longrightarrow> valid r"
  by (simp add: represents_def)

lemma rep_get:
  "rep st m \<Longrightarrow> own k \<Longrightarrow>
   kv_get st k = Some v \<longleftrightarrow> (\<exists>i r. m i = Some r \<and> (k, v) \<in> set (ents r))"
  by (simp add: represents_def)

lemma rep_get_entry: "rep st m \<Longrightarrow> m i = Some r \<Longrightarrow> (k, v) \<in> set (ents r) \<Longrightarrow> kv_get st k = Some v"
  using rep_get ents_own rep_valid by (metis fst_conv)

lemma rep_empty: "kv_wf st \<Longrightarrow> (\<And>k. own k \<Longrightarrow> kv_get st k = None) \<Longrightarrow> rep st Map.empty"
  by (simp add: represents_def)

text \<open>An iteration over a prefix of the indexes visits the entries of the records.\<close>

lemma rep_iter:
  assumes "rep st m" and "\<And>k. has_prefix p k \<Longrightarrow> own k"
  shows "set (kv_iter st p) =
     {(k, v). has_prefix p k \<and> (\<exists>i r. m i = Some r \<and> (k, v) \<in> set (ents r))}"
  using assms(2) by (auto simp: kv.iter_iff [OF rep_wf [OF assms(1)]] rep_get [OF assms(1)]) blast

text \<open>The entry under a key made of the identifier alone, and an iteration over keys that end in
  it.\<close>

lemma rep_get_key:
  assumes rep: "rep st m" and own: "own (key i)"
    and key: "\<And>r v. (key i, v) \<in> set (ents r) \<longleftrightarrow> i = rid r \<and> v = f r"
  shows "kv_get st (key i) = map_option f (m i)"
proof (rule option_eqI)
  fix v
  show "kv_get st (key i) = Some v \<longleftrightarrow> map_option f (m i) = Some v"
    using rep_get [OF rep own, of v] rep_rid [OF rep] by (auto simp: key)
qed

lemma rep_iter_ids:
  assumes rep: "rep st m"
    and own: "\<And>k. has_prefix p k \<Longrightarrow> own k"
    and key: "\<And>r k v. valid r \<Longrightarrow> has_prefix p k \<and> (k, v) \<in> set (ents r) \<longleftrightarrow>
       P r \<and> k = q @ u64_be (rid r) \<and> v = f r"
  shows "kv_iter st p =
     map (\<lambda>i. (q @ u64_be i, f (the (m i)))) (sorted_list_of_set {i. \<exists>r. m i = Some r \<and> P r})"
proof (rule iter_ids [OF rep_wf [OF rep]])
  have "(k, v) \<in> set (kv_iter st p) \<longleftrightarrow>
      (k, v) \<in> (\<lambda>i. (q @ u64_be i, f (the (m i)))) ` {i. \<exists>r. m i = Some r \<and> P r}" for k v
  proof -
    have "(k, v) \<in> set (kv_iter st p) \<longleftrightarrow>
        (\<exists>i r. m i = Some r \<and> (has_prefix p k \<and> (k, v) \<in> set (ents r)))"
      by (auto simp only: rep_iter [OF rep own] mem_Collect_eq prod.case)
    also have "\<dots> \<longleftrightarrow> (\<exists>i r. m i = Some r \<and> P r \<and> k = q @ u64_be i \<and> v = f r)"
    proof (intro ex_cong1 conj_cong [OF refl])
      fix i r assume "m i = Some r"
      then have "valid r" and "rid r = i"
        using rep_valid [OF rep] rep_rid [OF rep] by auto
      then show "has_prefix p k \<and> (k, v) \<in> set (ents r) \<longleftrightarrow> P r \<and> k = q @ u64_be i \<and> v = f r"
        by (simp only: key)
    qed
    also have "\<dots> \<longleftrightarrow> (k, v) \<in> (\<lambda>i. (q @ u64_be i, f (the (m i)))) ` {i. \<exists>r. m i = Some r \<and> P r}"
      by (force simp only: image_iff mem_Collect_eq prod.inject option.sel)
    finally show ?thesis .
  qed
  then show "set (kv_iter st p) =
      (\<lambda>i. (q @ u64_be i, f (the (m i)))) ` {i. \<exists>r. m i = Some r \<and> P r}"
    by (simp only: set_eq_iff split_paired_All) blast
qed

text \<open>Writes outside the indexes (parameters, counters) leave the records alone.\<close>

lemma rep_frame: "rep st m \<Longrightarrow> \<not> own k \<Longrightarrow> rep (kv_set st k v) m"
  by (auto simp: represents_def kv.get_set kv.wf_set)

lemma rep_frame_delete: "rep st m \<Longrightarrow> \<not> own k \<Longrightarrow> rep (kv_delete st k) m"
  by (auto simp: represents_def kv.get_delete kv.wf_delete)

lemma get_set_record:
  assumes "valid r"
  shows "kv_get (set_record ents st r) k =
     (case map_of (ents r) k of Some v \<Rightarrow> Some v | None \<Rightarrow> kv_get st k)"
  unfolding set_record_def by (rule kv.get_sets [OF ents_distinct [OF assms]])

lemma get_delete_record:
  "kv_get (delete_record ents st r) k = (if k \<in> fst ` set (ents r) then None else kv_get st k)"
  by (simp add: delete_record_def kv.get_deletes)

lemma other_entry:
  "rep st m \<Longrightarrow> valid r \<Longrightarrow> m i = Some r' \<Longrightarrow> i \<noteq> rid r \<Longrightarrow> (k, v) \<in> set (ents r') \<Longrightarrow>
   k \<notin> fst ` set (ents r)"
  using ents_disjoint [of r r'] rep_rid [of st m i r'] rep_valid [of st m i r'] by force

text \<open>Writing a record whose identifier is new, or whose old version has the same keys.\<close>

lemma rep_set:
  assumes rep: "rep st m" and v: "valid r"
    and old: "\<And>r'. m (rid r) = Some r' \<Longrightarrow> fst ` set (ents r') = fst ` set (ents r)"
  shows "rep (set_record ents st r) (m(rid r \<mapsto> r))"
  unfolding represents_def
proof (intro conjI allI impI)
  show "kv_wf (set_record ents st r)"
    using rep by (simp add: set_record_def kv.wf_sets rep_wf)
next
  fix i s assume "(m(rid r \<mapsto> r)) i = Some s"
  then show "rid s = i" "valid s"
    using rep_rid [OF rep, of i s] rep_valid [OF rep, of i s] v by (auto split: if_splits)
next
  fix k u assume own: "own k"
  show "kv_get (set_record ents st r) k = Some u \<longleftrightarrow>
      (\<exists>i s. (m(rid r \<mapsto> r)) i = Some s \<and> (k, u) \<in> set (ents s))"
  proof (cases "k \<in> fst ` set (ents r)")
    case True
    then obtain w where w: "(k, w) \<in> set (ents r)" by force
    then have "map_of (ents r) k = Some w"
      using ents_distinct [OF v] by simp
    moreover have "(k, u) \<in> set (ents r) \<longleftrightarrow> u = w"
      using w ents_distinct [OF v] eq_key_imp_eq_value by metis
    moreover have "\<And>i s. m i = Some s \<Longrightarrow> (k, u) \<in> set (ents s) \<Longrightarrow> i = rid r"
      using other_entry [OF rep v] True by blast
    ultimately show ?thesis
      by (auto simp: get_set_record [OF v] split: if_splits)
  next
    case False
    then have "map_of (ents r) k = None"
      by (simp add: map_of_eq_None_iff)
    moreover have "\<And>u. (k, u) \<notin> set (ents r)"
      using False by force
    moreover have "\<And>i s. m i = Some s \<Longrightarrow> (k, u) \<in> set (ents s) \<Longrightarrow> i \<noteq> rid r"
      using old False by force
    ultimately show ?thesis
      using rep_get [OF rep own] by (auto simp: get_set_record [OF v] split: if_splits)
  qed
qed

lemma rep_delete:
  assumes rep: "rep st m" and r: "m i = Some r"
  shows "rep (delete_record ents st r) (m(i := None))"
  unfolding represents_def
proof (intro conjI allI impI)
  show "kv_wf (delete_record ents st r)"
    using rep by (simp add: delete_record_def kv.wf_deletes rep_wf)
next
  fix j s assume "(m(i := None)) j = Some s"
  then show "rid s = j" "valid s"
    using rep_rid [OF rep] rep_valid [OF rep] by (auto split: if_splits)
next
  fix k u assume own: "own k"
  have i: "rid r = i" and v: "valid r"
    using rep_rid [OF rep r] rep_valid [OF rep r] by auto
  show "kv_get (delete_record ents st r) k = Some u \<longleftrightarrow>
      (\<exists>j s. (m(i := None)) j = Some s \<and> (k, u) \<in> set (ents s))"
  proof (cases "k \<in> fst ` set (ents r)")
    case True
    moreover have "\<And>j s. m j = Some s \<Longrightarrow> (k, u) \<in> set (ents s) \<Longrightarrow> j = i"
      using other_entry [OF rep v] True i by blast
    ultimately show ?thesis
      by (auto simp: get_delete_record split: if_splits)
  next
    case False
    then have "\<And>j s. m j = Some s \<Longrightarrow> (k, u) \<in> set (ents s) \<Longrightarrow> j \<noteq> i"
      using r by force
    with False show ?thesis
      using rep_get [OF rep own] by (auto simp: get_delete_record split: if_splits)
  qed
qed

text \<open>Loading records with distinct identifiers, as the genesis import of a module does.\<close>

lemma rep_load:
  assumes "rep st m" and "\<And>r. r \<in> set rs \<Longrightarrow> valid r" and "distinct (map rid rs)"
    and "\<And>r. r \<in> set rs \<Longrightarrow> m (rid r) = None"
  shows "rep (fold (\<lambda>r s. set_record ents s r) rs st) (fold (\<lambda>r m. m(rid r \<mapsto> r)) rs m)"
  using assms
proof (induction rs arbitrary: st m)
  case (Cons r rs)
  have "rep (set_record ents st r) (m(rid r \<mapsto> r))"
    using Cons.prems by (intro rep_set) auto
  then have "rep (fold (\<lambda>r s. set_record ents s r) rs (set_record ents st r))
      (fold (\<lambda>r m. m(rid r \<mapsto> r)) rs (m(rid r \<mapsto> r)))"
  proof (rule Cons.IH)
    fix s assume s: "s \<in> set rs"
    then have "rid s \<noteq> rid r"
      using Cons.prems(3) by (auto simp: image_iff)
    with s show "(m(rid r \<mapsto> r)) (rid s) = None"
      using Cons.prems(4) by simp
  qed (use Cons.prems in auto)
  then show ?case by (simp only: fold_simps)
qed simp

end

lemma fold_map_upd:
  "fold (\<lambda>r m. m(f r \<mapsto> r)) rs m = m ++ map_of (rev (map (\<lambda>r. (f r, r)) rs))"
  by (induction rs arbitrary: m) auto

lemma fold_upd_all:
  assumes "\<And>i r. m i = Some r \<Longrightarrow> f r = i"
  shows "fold (\<lambda>r m. m(f r \<mapsto> r)) (map (\<lambda>i. the (m i)) (sorted_list_of_set (dom m))) Map.empty =
     (m :: u64 \<rightharpoonup> 'r)"
proof -
  have "map (\<lambda>r. (f r, r)) (map (\<lambda>i. the (m i)) (sorted_list_of_set (dom m))) =
      map (\<lambda>i. (i, the (m i))) (sorted_list_of_set (dom m))"
    using assms by (auto simp: domIff)
  then have "fold (\<lambda>r m. m(f r \<mapsto> r)) (map (\<lambda>i. the (m i)) (sorted_list_of_set (dom m))) Map.empty =
      map_of (map (\<lambda>i. (i, the (m i))) (rev (sorted_list_of_set (dom m))))"
    by (simp add: fold_map_upd rev_map del: map_map)
  also have "\<dots> = m"
    by (auto simp: fun_eq_iff map_of_map_keys domIff)
  finally show ?thesis .
qed

section \<open>Identifier allocation\<close>

text \<open>
  \<open>NextJobID\<close> and \<open>NextStreamID\<close> are one algorithm on two stores: an absent counter or a stored
  zero counts as one, and the successor is written back.
\<close>

definition next_id :: "u64 option \<Rightarrow> u64" where
  "next_id c = (case c of None \<Rightarrow> 1 | Some n \<Rightarrow> if n = 0 then 1 else n)"

lemma next_id_pos: "0 < next_id c"
  by (auto simp: next_id_def word_neq_0_conv split: option.splits)

section \<open>Rebuilding a store\<close>

text \<open>A well-formed store is determined by its lookups, and writing entries one after another gives the lookups of
  their list read from the end.\<close>

lemma kv_ext:
  assumes "kv_wf a" "kv_wf b" "kv_get a = kv_get b"
  shows "a = b"
proof (rule map_sorted_distinct_set_unique [where f = fst])
  have "(k, v) \<in> set a \<longleftrightarrow> (k, v) \<in> set b" for k v
    using assms(3) kv_wf_distinct [OF assms(1)] kv_wf_distinct [OF assms(2)] by (metis kv_get_def map_of_eq_Some_iff)
  then show "set a = set b"
    by auto
  then show "inj_on fst (set a \<union> set b)"
    using kv_wf_distinct [OF assms(1)] by (simp add: distinct_map)
qed (use assms(1,2) in \<open>auto simp: kv_wf_def strict_sorted_iff\<close>)

lemma kv_get_foldl_set: "kv_get (foldl (\<lambda>s (k, v). kv_set s k v) st es) = kv_get st ++ map_of (rev es)"
proof (induction es arbitrary: st)
  case (Cons e es)
  have "(kv_get st)(fst e \<mapsto> snd e) ++ map_of (rev es) = kv_get st ++ ([fst e \<mapsto> snd e] ++ map_of (rev es))"
    by simp
  then show ?case
    using Cons.IH [of "kv_set st (fst e) (snd e)"] by (simp add: kv.get_set case_prod_beta fun_upd_def del: kv_set.simps)
qed simp

lemma kv_wf_foldl_set: "kv_wf st \<Longrightarrow> kv_wf (foldl (\<lambda>s (k, v). kv_set s k v) st es)"
  by (induction es arbitrary: st) (auto simp: kv.wf_set simp del: kv_set.simps)

lemma map_of_iter: "kv_wf st \<Longrightarrow> map_of (rev (kv_iter st p)) k = (if has_prefix p k then kv_get st k else None)"
proof -
  assume wf: "kv_wf st"
  have d: "distinct (map fst (kv_iter st p))"
    by (rule kv.iter_distinct [OF wf])
  then have "map_of (rev (kv_iter st p)) k = Some v \<longleftrightarrow> (k, v) \<in> set (kv_iter st p)" for v
    by (subst map_of_eq_Some_iff) (simp_all add: rev_map [symmetric])
  then show ?thesis
    by (intro option_eqI) (simp add: kv.iter_iff [OF wf])
qed

lemma map_map_filter_id:
  "(\<And>e. e \<in> set es \<Longrightarrow> \<exists>x. f e = Some x \<and> g x = e) \<Longrightarrow> map g (List.map_filter f es) = es"
  by (induction es) (force simp: map_filter_simps)+

end
