(* ===== verification/Keepers.thy ===== *)
theory Keepers
  imports KV_Store
begin

text \<open>
  The keepers a module receives as interfaces (\<open>types/expected_keepers.go\<close>) and that belong to
  other code: the bank module of the SDK and the EVM.  They are arguments of the definitions
  that call them, fields of the record that stands for the Go \<open>Keeper\<close> struct.  \<open>'e\<close> is the state of
  the rest of the chain (bank balances, EVM accounts and so on).

  \<open>bank_laws\<close> names what the escrow properties use of the bank: a transfer that succeeds
  moves exactly the amount, and the payer had it.  It says nothing of when a transfer fails.

  Arguments and results of precompile methods are values of \<open>abi_val\<close>: the Go types the ABI
  decoder of go-ethereum produces and the handlers assert.
\<close>

definition DefaultEVMDenom :: string where
  "DefaultEVMDenom = ''ahpx''"

type_synonym coin = "string \<times> int"

record 'e BankKeeper =
  SendCoinsFromAccountToModule :: "'e \<Rightarrow> addr \<Rightarrow> string \<Rightarrow> coin \<Rightarrow> (string, 'e) result"
  SendCoinsFromModuleToAccount :: "'e \<Rightarrow> string \<Rightarrow> addr \<Rightarrow> coin \<Rightarrow> (string, 'e) result"

definition moved :: "(addr \<Rightarrow> int) \<Rightarrow> addr \<Rightarrow> addr \<Rightarrow> int \<Rightarrow> addr \<Rightarrow> int" where
  "moved b p q n x = b x - (if x = p then n else 0) + (if x = q then n else 0)"

text \<open>\<open>bal e a\<close> reads the balance of \<open>a\<close> in the EVM denomination, \<open>modaddr\<close> is
  \<open>AccountKeeper.GetModuleAddress\<close>.\<close>

definition bank_laws ::
  "'e BankKeeper \<Rightarrow> (string \<Rightarrow> addr) \<Rightarrow> ('e \<Rightarrow> addr \<Rightarrow> int) \<Rightarrow> bool" where
  "bank_laws B modaddr bal \<longleftrightarrow>
     (\<forall>e a m n e'. SendCoinsFromAccountToModule B e a m (DefaultEVMDenom, n) = Inr e' \<longrightarrow>
        n \<le> bal e a \<and> bal e' = moved (bal e) a (modaddr m) n) \<and>
     (\<forall>e m a n e'. SendCoinsFromModuleToAccount B e m a (DefaultEVMDenom, n) = Inr e' \<longrightarrow>
        n \<le> bal e (modaddr m) \<and> bal e' = moved (bal e) (modaddr m) a n)"

lemma bank_laws_in:
  "bank_laws B modaddr bal \<Longrightarrow> SendCoinsFromAccountToModule B e a m (DefaultEVMDenom, n) = Inr e' \<Longrightarrow>
   n \<le> bal e a \<and> bal e' = moved (bal e) a (modaddr m) n"
  by (auto simp: bank_laws_def)

lemma bank_laws_out:
  "bank_laws B modaddr bal \<Longrightarrow> SendCoinsFromModuleToAccount B e m a (DefaultEVMDenom, n) = Inr e' \<Longrightarrow>
   n \<le> bal e (modaddr m) \<and> bal e' = moved (bal e) (modaddr m) a n"
  by (auto simp: bank_laws_def)

lemma moved_to_ge: "0 \<le> n \<Longrightarrow> q \<noteq> p \<Longrightarrow> moved b p q n q = b q + n"
  by (simp add: moved_def)

lemma moved_from_ge: "0 \<le> n \<Longrightarrow> b p - n \<le> moved b p q n p"
  by (simp add: moved_def)

text \<open>A ledger that satisfies the laws: the instance the witnesses use.\<close>

definition ledger_bank :: "(string \<Rightarrow> addr) \<Rightarrow> (addr \<Rightarrow> int) BankKeeper" where
  "ledger_bank modaddr = \<lparr>
     SendCoinsFromAccountToModule = (\<lambda>b a m (d, n).
       if b a < n then Inl ''insufficient funds'' else Inr (moved b a (modaddr m) n)),
     SendCoinsFromModuleToAccount = (\<lambda>b m a (d, n).
       if b (modaddr m) < n then Inl ''insufficient funds'' else Inr (moved b (modaddr m) a n))\<rparr>"

lemma ledger_bank_laws: "bank_laws (ledger_bank modaddr) modaddr (\<lambda>b. b)"
  by (auto simp: bank_laws_def ledger_bank_def split: if_splits)

text \<open>The outcome of \<open>CallEVMWithData\<close>: a panic, an error, or a response carrying the gas used (the
  response pointer may be nil).\<close>

datatype evm_result = EvmPanic string | EvmErr string | EvmOk "u64 option"

datatype abi_val =
    VAddr addr
  | VBytes bytes
  | VBytes32 bytes
  | VU8 u8
  | VU16 u16
  | VU64 u64
  | VBig int
  | VBool bool
  | VI16 i16
  | VList "abi_val list"

text \<open>\<open>(*big.Int).IsUint64\<close> and \<open>Uint64\<close>.\<close>

definition IsUint64 :: "int \<Rightarrow> bool" where
  "IsUint64 z \<longleftrightarrow> 0 \<le> z \<and> z < 2 ^ 64"

definition Uint64 :: "int \<Rightarrow> u64" where
  "Uint64 z = word_of_int z"

definition big_of_u64 :: "u64 \<Rightarrow> int" where
  "big_of_u64 w = uint w"

lemma big_of_u64_ge: "0 \<le> big_of_u64 w"
  by (simp add: big_of_u64_def)

lemma Uint64_big_of_u64 [simp]: "Uint64 (big_of_u64 w) = w"
  by (simp add: Uint64_def big_of_u64_def)

lemma uint_Uint64: "0 \<le> z \<Longrightarrow> z < 2 ^ 64 \<Longrightarrow> uint (Uint64 z) = z"
  by (simp add: Uint64_def uint_word_of_int_eq take_bit_int_eq_self)

end
