(* ===== verification/Scheduler.thy ===== *)
theory Scheduler
  imports Keepers
begin

text \<open>
  The native scheduler: \<open>x/scheduler\<close> (types, keeper, genesis, end blocker) and the handlers of its
  precompile (\<open>precompiles/scheduler/scheduler.go\<close>).

  \<open>'e sctx\<close> is the part of \<open>sdk.Context\<close> the module touches: the block height, its own store, the
  rest of the chain state and the emitted events.  \<open>'e SchedKeeper\<close> is the Go \<open>Keeper\<close>: its fields are the
  keepers of other modules.  An operation returns the context it leaves together with its result,
  so that writes made before an error are visible; the caller decides whether to roll them back.

  The store keeps each job under three keys.  \<open>job_index\<close> interprets \<open>record_index\<close> on them, so
  every operation is specified on the finite map from identifiers to jobs that the store
  represents (\<open>sched_rep\<close>).
\<close>

section \<open>Data\<close>

record Job =
  JobID :: u64
  Creator :: bytes
  Target :: bytes
  CallData :: bytes
  ExecuteAtBlock :: u64
  GasLimit :: u64
  Deposit :: string
  JobActive :: bool

record SchedParams =
  GasScheduleBase :: u64
  GasSchedulePerByte :: u64
  GasCancel :: u64
  GasReschedule :: u64
  GasView :: u64
  MaxJobsPerCreator :: u32
  MaxScheduleHorizon :: u64
  MinDepositFactor :: u64

definition sched_DefaultParams :: SchedParams where
  "sched_DefaultParams = \<lparr>GasScheduleBase = 5000, GasSchedulePerByte = 50, GasCancel = 3000,
     GasReschedule = 4000, GasView = 200, MaxJobsPerCreator = 1024, MaxScheduleHorizon = 2592000,
     MinDepositFactor = 2\<rparr>"

datatype SchedErr =
    ErrJobNotFound
  | ErrUnauthorized
  | ErrHorizonExceeded
  | ErrPastBlock
  | ErrMaxJobsExceeded
  | ErrDepositTooLow
  | ErrInvalidGasLimit
  | ErrInvalidTarget
  | ErrJobInactive
  | SchedBankErr string
  | SchedArgErr string

definition sched_Params_Validate :: "SchedParams \<Rightarrow> (string, unit) result" where
  "sched_Params_Validate p =
     (if GasScheduleBase p = 0 then Inl ''gas_schedule_base must be > 0''
      else if GasCancel p = 0 then Inl ''gas_cancel must be > 0''
      else if GasReschedule p = 0 then Inl ''gas_reschedule must be > 0''
      else if MaxJobsPerCreator p = 0 then Inl ''max_jobs_per_creator must be > 0''
      else if MaxScheduleHorizon p = 0 then Inl ''max_schedule_horizon must be > 0''
      else if MinDepositFactor p = 0 then Inl ''min_deposit_factor must be >= 1''
      else Inr ())"

text \<open>Stored values: job records, the membership marker, parameters and the identifier counter.\<close>

datatype sched_val = SJob Job | SMark | SParams SchedParams | SNext u64

datatype sched_event =
    JobScheduled u64 addr addr u64 u64 int
  | JobCancelled u64 addr string
  | JobRescheduled u64 u64 u64
  | JobExecuted u64 addr addr u64 int int
  | JobFailed u64 addr addr string int

record 'e sctx =
  BlockHeight :: u64
  sstore :: "sched_val kv"
  env :: 'e
  sevents :: "sched_event list"

record 'e SchedKeeper =
  bankKeeper :: "'e BankKeeper"
  CallEVMWithData :: "'e sctx \<Rightarrow> addr \<Rightarrow> addr \<Rightarrow> bytes \<Rightarrow> bool \<Rightarrow> evm_result \<times> 'e sctx"
  GetBaseFee :: "'e \<Rightarrow> int option"

definition EmitEvent :: "'e sctx \<Rightarrow> sched_event \<Rightarrow> 'e sctx" where
  "EmitEvent ctx ev = ctx\<lparr>sevents := sevents ctx @ [ev]\<rparr>"

section \<open>Store keys\<close>

definition JobByDueBlockKeyPrefix :: bytes where "JobByDueBlockKeyPrefix = [1]"
definition CreatorJobIndexPrefix :: bytes where "CreatorJobIndexPrefix = [2]"
definition JobByIDKeyPrefix :: bytes where "JobByIDKeyPrefix = [3]"
definition sched_ParamsKey :: bytes where "sched_ParamsKey = [4]"
definition NextJobIDKey :: bytes where "NextJobIDKey = [5]"

definition JobByDueBlockKey :: "u64 \<Rightarrow> u64 \<Rightarrow> bytes" where
  "JobByDueBlockKey executeAtBlock jobID =
     JobByDueBlockKeyPrefix @ u64_be executeAtBlock @ u64_be jobID"

definition JobByDueBlockPrefix :: "u64 \<Rightarrow> bytes" where
  "JobByDueBlockPrefix executeAtBlock = JobByDueBlockKeyPrefix @ u64_be executeAtBlock"

definition CreatorJobKey :: "bytes \<Rightarrow> u64 \<Rightarrow> bytes" where
  "CreatorJobKey creator jobID = CreatorJobIndexPrefix @ creator @ u64_be jobID"

definition CreatorJobsPrefix :: "bytes \<Rightarrow> bytes" where
  "CreatorJobsPrefix creator = CreatorJobIndexPrefix @ creator"

definition JobByIDKey :: "u64 \<Rightarrow> bytes" where
  "JobByIDKey jobID = JobByIDKeyPrefix @ u64_be jobID"

lemmas sched_key_defs =
  JobByDueBlockKeyPrefix_def CreatorJobIndexPrefix_def JobByIDKeyPrefix_def sched_ParamsKey_def
  NextJobIDKey_def JobByDueBlockKey_def JobByDueBlockPrefix_def CreatorJobKey_def
  CreatorJobsPrefix_def JobByIDKey_def

section \<open>Job records, iterators, identifier allocation, parameters\<close>

definition SetJob :: "'e sctx \<Rightarrow> Job \<Rightarrow> 'e sctx" where
  "SetJob ctx j =
     (let st = kv_set (sstore ctx) (JobByIDKey (JobID j)) (SJob j);
          st = kv_set st (JobByDueBlockKey (ExecuteAtBlock j) (JobID j)) (SJob j);
          st = kv_set st (CreatorJobKey (Creator j) (JobID j)) SMark
      in ctx\<lparr>sstore := st\<rparr>)"

definition GetJob :: "'e sctx \<Rightarrow> u64 \<Rightarrow> Job option" where
  "GetJob ctx jobID =
     (case kv_get (sstore ctx) (JobByIDKey jobID) of Some (SJob j) \<Rightarrow> Some j | _ \<Rightarrow> None)"

definition DeleteJob :: "'e sctx \<Rightarrow> Job \<Rightarrow> 'e sctx" where
  "DeleteJob ctx j =
     (let st = kv_delete (sstore ctx) (JobByIDKey (JobID j));
          st = kv_delete st (JobByDueBlockKey (ExecuteAtBlock j) (JobID j));
          st = kv_delete st (CreatorJobKey (Creator j) (JobID j))
      in ctx\<lparr>sstore := st\<rparr>)"

text \<open>The callbacks passed to the iterators never stop them, so an iteration is the list of the
  decoded values.\<close>

definition job_of :: "sched_val \<Rightarrow> Job option" where
  "job_of v = (case v of SJob j \<Rightarrow> Some j | _ \<Rightarrow> None)"

definition IterateJobsDueAt :: "'e sctx \<Rightarrow> u64 \<Rightarrow> Job list" where
  "IterateJobsDueAt ctx height =
     List.map_filter (\<lambda>e. job_of (snd e)) (kv_iter (sstore ctx) (JobByDueBlockPrefix height))"

definition PendingJobIDsByCreator :: "'e sctx \<Rightarrow> bytes \<Rightarrow> u64 list" where
  "PendingJobIDsByCreator ctx creator =
     (let prefixLen = length CreatorJobIndexPrefix + length creator
      in map (\<lambda>e. word_of_nat (be_decode (take 8 (drop prefixLen (fst e)))))
           (filter (\<lambda>e. prefixLen + 8 \<le> length (fst e))
              (kv_iter (sstore ctx) (CreatorJobsPrefix creator))))"

definition CountJobsByCreator :: "'e sctx \<Rightarrow> bytes \<Rightarrow> u32" where
  "CountJobsByCreator ctx creator =
     foldl (\<lambda>count _. count + 1) 0 (kv_iter (sstore ctx) (CreatorJobsPrefix creator))"

definition sched_counter :: "'e sctx \<Rightarrow> u64 option" where
  "sched_counter ctx =
     (case kv_get (sstore ctx) NextJobIDKey of Some (SNext n) \<Rightarrow> Some n | _ \<Rightarrow> None)"

definition SetNextJobID :: "'e sctx \<Rightarrow> u64 \<Rightarrow> 'e sctx" where
  "SetNextJobID ctx next = ctx\<lparr>sstore := kv_set (sstore ctx) NextJobIDKey (SNext next)\<rparr>"

definition NextJobID :: "'e sctx \<Rightarrow> u64 \<times> 'e sctx" where
  "NextJobID ctx =
     (let next = next_id (sched_counter ctx) in (next, SetNextJobID ctx (next + 1)))"

definition GetNextJobID :: "'e sctx \<Rightarrow> u64" where
  "GetNextJobID ctx = (case sched_counter ctx of None \<Rightarrow> 1 | Some n \<Rightarrow> n)"

definition GetAllJobs :: "'e sctx \<Rightarrow> Job list" where
  "GetAllJobs ctx =
     List.map_filter (\<lambda>e. job_of (snd e)) (kv_iter (sstore ctx) JobByIDKeyPrefix)"

definition sched_GetParams :: "'e sctx \<Rightarrow> SchedParams" where
  "sched_GetParams ctx =
     (case kv_get (sstore ctx) sched_ParamsKey of Some (SParams p) \<Rightarrow> p | _ \<Rightarrow> sched_DefaultParams)"

definition sched_SetParams :: "'e sctx \<Rightarrow> SchedParams \<Rightarrow> (string, 'e sctx) result" where
  "sched_SetParams ctx params =
     (case sched_Params_Validate params of
        Inl e \<Rightarrow> Inl e
      | Inr _ \<Rightarrow> Inr (ctx\<lparr>sstore := kv_set (sstore ctx) sched_ParamsKey (SParams params)\<rparr>))"

section \<open>Escrow\<close>

definition sched_ModuleAccountName :: string where
  "sched_ModuleAccountName = ''scheduler''"

definition EscrowDeposit ::
  "'e SchedKeeper \<Rightarrow> 'e sctx \<Rightarrow> addr \<Rightarrow> int option \<Rightarrow> (SchedErr, 'e sctx) result" where
  "EscrowDeposit k ctx payer deposit =
     (case deposit of
        None \<Rightarrow> Inr ctx
      | Some d \<Rightarrow>
          if d = 0 then Inr ctx
          else if d < 0 then Inl ErrDepositTooLow
          else
            (case SendCoinsFromAccountToModule (bankKeeper k) (env ctx) payer
                    sched_ModuleAccountName (DefaultEVMDenom, d) of
               Inl e \<Rightarrow> Inl (SchedBankErr e)
             | Inr e \<Rightarrow> Inr (ctx\<lparr>env := e\<rparr>)))"

definition RefundDeposit ::
  "'e SchedKeeper \<Rightarrow> 'e sctx \<Rightarrow> addr \<Rightarrow> int \<Rightarrow> (SchedErr, 'e sctx) result" where
  "RefundDeposit k ctx recipient amount =
     (if amount \<le> 0 then Inr ctx
      else
        (case SendCoinsFromModuleToAccount (bankKeeper k) (env ctx) sched_ModuleAccountName
                recipient (DefaultEVMDenom, amount) of
           Inl e \<Rightarrow> Inl (SchedBankErr e)
         | Inr e \<Rightarrow> Inr (ctx\<lparr>env := e\<rparr>)))"

definition parseDeposit :: "string \<Rightarrow> int" where
  "parseDeposit s =
     (if s = [] then 0
      else (case big_SetString s of None \<Rightarrow> 0 | Some v \<Rightarrow> if v < 0 then 0 else v))"

section \<open>Schedule, Cancel, Reschedule\<close>

definition Schedule ::
  "'e SchedKeeper \<Rightarrow> 'e sctx \<Rightarrow> addr \<Rightarrow> addr \<Rightarrow> bytes \<Rightarrow> u64 \<Rightarrow> u64 \<Rightarrow> int option \<Rightarrow>
   'e sctx \<times> (SchedErr, u64) result" where
  "Schedule k ctx creator target callData executeAtBlock gasLimit deposit =
     (if target = 0 then (ctx, Inl ErrInvalidTarget)
      else if gasLimit = 0 then (ctx, Inl ErrInvalidGasLimit)
      else
        (case deposit of
           None \<Rightarrow> (ctx, Inl ErrDepositTooLow)
         | Some d \<Rightarrow>
             if d < 0 then (ctx, Inl ErrDepositTooLow)
             else
               (let currentHeight = BlockHeight ctx in
                if executeAtBlock \<le> currentHeight then (ctx, Inl ErrPastBlock)
                else
                  (let params = sched_GetParams ctx in
                   if MaxScheduleHorizon params < executeAtBlock - currentHeight
                   then (ctx, Inl ErrHorizonExceeded)
                   else
                     (let creatorBytes = addr_Bytes creator in
                      if MaxJobsPerCreator params \<le> CountJobsByCreator ctx creatorBytes
                      then (ctx, Inl ErrMaxJobsExceeded)
                      else
                        (let baseFee = (case GetBaseFee k (env ctx) of None \<Rightarrow> 0 | Some f \<Rightarrow> f);
                             minDeposit = big_of_u64 gasLimit * baseFee;
                             minDeposit = minDeposit * big_of_u64 (MinDepositFactor params)
                         in
                         if d < minDeposit then (ctx, Inl ErrDepositTooLow)
                         else
                           (let (jobID, ctx) = NextJobID ctx;
                                job = \<lparr>JobID = jobID, Creator = creatorBytes,
                                       Target = addr_Bytes target, CallData = callData,
                                       ExecuteAtBlock = executeAtBlock, GasLimit = gasLimit,
                                       Deposit = big_String d, JobActive = True\<rparr>;
                                ctx = SetJob ctx job;
                                ctx = EmitEvent ctx
                                  (JobScheduled jobID creator target executeAtBlock gasLimit d)
                            in (ctx, Inr jobID))))))))"

definition Cancel ::
  "'e SchedKeeper \<Rightarrow> 'e sctx \<Rightarrow> addr \<Rightarrow> u64 \<Rightarrow> 'e sctx \<times> (SchedErr, unit) result" where
  "Cancel k ctx caller jobID =
     (case GetJob ctx jobID of
        None \<Rightarrow> (ctx, Inl ErrJobNotFound)
      | Some job \<Rightarrow>
          if \<not> JobActive job then (ctx, Inl ErrJobInactive)
          else if \<not> equalAddress (Creator job) (addr_Bytes caller) then (ctx, Inl ErrUnauthorized)
          else
            (let deposit = parseDeposit (Deposit job) in
             case RefundDeposit k ctx caller deposit of
               Inl err \<Rightarrow> (ctx, Inl err)
             | Inr ctx \<Rightarrow>
                 (let ctx = DeleteJob ctx job;
                      ctx = EmitEvent ctx (JobCancelled jobID caller (Deposit job))
                  in (ctx, Inr ()))))"

definition Reschedule ::
  "'e sctx \<Rightarrow> addr \<Rightarrow> u64 \<Rightarrow> u64 \<Rightarrow> 'e sctx \<times> (SchedErr, unit) result" where
  "Reschedule ctx caller jobID newExecuteAtBlock =
     (case GetJob ctx jobID of
        None \<Rightarrow> (ctx, Inl ErrJobNotFound)
      | Some job \<Rightarrow>
          if \<not> JobActive job then (ctx, Inl ErrJobInactive)
          else if \<not> equalAddress (Creator job) (addr_Bytes caller) then (ctx, Inl ErrUnauthorized)
          else
            (let currentHeight = BlockHeight ctx in
             if newExecuteAtBlock \<le> currentHeight then (ctx, Inl ErrPastBlock)
             else
               (let params = sched_GetParams ctx in
                if MaxScheduleHorizon params < newExecuteAtBlock - currentHeight
                then (ctx, Inl ErrHorizonExceeded)
                else
                  (let oldBlock = ExecuteAtBlock job;
                       ctx = DeleteJob ctx job;
                       job = job\<lparr>ExecuteAtBlock := newExecuteAtBlock\<rparr>;
                       ctx = SetJob ctx job;
                       ctx = EmitEvent ctx (JobRescheduled jobID oldBlock newExecuteAtBlock)
                   in (ctx, Inr ())))))"

section \<open>End of block: dispatch of due jobs\<close>

text \<open>
  The call runs on a cached context.  A panic or an error discards it and refunds the whole
  deposit; a response commits it and refunds the deposit less the gas at the base fee.  The
  deferred \<open>DeleteJob\<close> runs last, on the outer context, whatever happened.
\<close>

definition dispatchJob :: "'e SchedKeeper \<Rightarrow> 'e sctx \<Rightarrow> Job \<Rightarrow> 'e sctx" where
  "dispatchJob k ctx j =
     (let jobID = JobID j;
          target = BytesToAddress (Target j);
          creator = BytesToAddress (Creator j);
          deposit = parseDeposit (Deposit j);
          (res, cacheCtx) = CallEVMWithData k ctx creator target (CallData j) True;
          failed = (\<lambda>errStr.
            (case RefundDeposit k ctx creator deposit of
               Inl _ \<Rightarrow> EmitEvent ctx (JobFailed jobID creator target (take 512 errStr) 0)
             | Inr ctx \<Rightarrow> EmitEvent ctx (JobFailed jobID creator target (take 512 errStr) deposit)));
          succeeded = (\<lambda>gasUsed.
            (let ctx = cacheCtx;
                 baseFee = (case GetBaseFee k (env ctx) of None \<Rightarrow> 0 | Some f \<Rightarrow> f);
                 consumed = big_of_u64 gasUsed * baseFee;
                 refund = deposit - consumed;
                 refund = (if refund < 0 then 0 else refund)
             in
             (case RefundDeposit k ctx creator refund of
                Inl _ \<Rightarrow> EmitEvent ctx (JobExecuted jobID creator target gasUsed consumed 0)
              | Inr ctx \<Rightarrow>
                  EmitEvent ctx (JobExecuted jobID creator target gasUsed consumed refund))));
          ctx =
            (case res of
               EvmPanic s \<Rightarrow> failed (''panic: '' @ s)
             | EvmErr e \<Rightarrow> failed e
             | EvmOk resp \<Rightarrow> succeeded (case resp of None \<Rightarrow> 0 | Some g \<Rightarrow> g))
      in DeleteJob ctx j)"

definition EndBlocker :: "'e SchedKeeper \<Rightarrow> 'e sctx \<Rightarrow> 'e sctx" where
  "EndBlocker k ctx =
     (let height = BlockHeight ctx;
          due = filter JobActive (IterateJobsDueAt ctx height)
      in foldl (dispatchJob k) ctx due)"

section \<open>Genesis\<close>

record SchedGenesis =
  sgen_Params :: SchedParams
  sgen_NextJobID :: u64
  sgen_Jobs :: "Job list"

definition sched_DefaultGenesis :: SchedGenesis where
  "sched_DefaultGenesis = \<lparr>sgen_Params = sched_DefaultParams, sgen_NextJobID = 1, sgen_Jobs = []\<rparr>"

primrec sched_validate_jobs :: "u64 \<Rightarrow> u64 set \<Rightarrow> Job list \<Rightarrow> (string, unit) result" where
  "sched_validate_jobs next seen [] = Inr ()"
| "sched_validate_jobs next seen (j # js) =
     (if JobID j = 0 then Inl ''job has zero id''
      else if JobID j \<in> seen then Inl ''duplicate job id in genesis''
      else if next \<le> JobID j then Inl ''job id >= next_job_id''
      else sched_validate_jobs next (insert (JobID j) seen) js)"

definition sched_Genesis_Validate :: "SchedGenesis \<Rightarrow> (string, unit) result" where
  "sched_Genesis_Validate gs =
     (case sched_Params_Validate (sgen_Params gs) of
        Inl e \<Rightarrow> Inl e
      | Inr _ \<Rightarrow> sched_validate_jobs (sgen_NextJobID gs) {} (sgen_Jobs gs))"

definition sched_InitGenesis :: "'e sctx \<Rightarrow> SchedGenesis \<Rightarrow> (string, 'e sctx) result" where
  "sched_InitGenesis ctx gs =
     (case sched_SetParams ctx (sgen_Params gs) of
        Inl e \<Rightarrow> Inl e
      | Inr ctx \<Rightarrow> Inr (foldl SetJob (SetNextJobID ctx (sgen_NextJobID gs)) (sgen_Jobs gs)))"

definition sched_ExportGenesis :: "'e sctx \<Rightarrow> SchedGenesis" where
  "sched_ExportGenesis ctx =
     \<lparr>sgen_Params = sched_GetParams ctx, sgen_NextJobID = GetNextJobID ctx,
      sgen_Jobs = GetAllJobs ctx\<rparr>"

section \<open>The store represents a map of jobs\<close>

definition job_ents :: "Job \<Rightarrow> (bytes \<times> sched_val) list" where
  "job_ents j =
     [(JobByIDKey (JobID j), SJob j),
      (JobByDueBlockKey (ExecuteAtBlock j) (JobID j), SJob j),
      (CreatorJobKey (Creator j) (JobID j), SMark)]"

definition job_valid :: "Job \<Rightarrow> bool" where
  "job_valid j \<longleftrightarrow> length (Creator j) = 20"

interpretation job_index: record_index job_ents JobID job_valid index_key
proof
  fix r r' :: Job and e
  show "index_key (fst e)" if "job_valid r" "e \<in> set (job_ents r)"
    using that by (auto simp: job_ents_def index_key_def sched_key_defs)
  show "distinct (map fst (job_ents r))"
    by (simp add: job_ents_def sched_key_defs)
  show "fst ` set (job_ents r) \<inter> fst ` set (job_ents r') = {}"
    if "job_valid r" "job_valid r'" "JobID r \<noteq> JobID r'"
    using that by (auto simp: job_ents_def job_valid_def sched_key_defs u64_be_inject)
qed

definition sched_rep :: "'e sctx \<Rightarrow> (u64 \<rightharpoonup> Job) \<Rightarrow> bool" where
  "sched_rep ctx m \<longleftrightarrow> represents job_ents JobID job_valid index_key (sstore ctx) m"

lemma SetJob_eq: "SetJob ctx j = ctx\<lparr>sstore := set_record job_ents (sstore ctx) j\<rparr>"
  by (simp add: SetJob_def set_record_def job_ents_def)

lemma DeleteJob_eq: "DeleteJob ctx j = ctx\<lparr>sstore := delete_record job_ents (sstore ctx) j\<rparr>"
  by (simp add: DeleteJob_def delete_record_def job_ents_def)

lemma sched_rep_SetJob:
  "sched_rep ctx m \<Longrightarrow> job_valid j \<Longrightarrow> m (JobID j) = None \<Longrightarrow> sched_rep (SetJob ctx j) (m(JobID j \<mapsto> j))"
  by (auto simp: sched_rep_def SetJob_eq intro: job_index.rep_set)

lemma sched_rep_DeleteJob:
  "sched_rep ctx m \<Longrightarrow> m i = Some j \<Longrightarrow> sched_rep (DeleteJob ctx j) (m(i := None))"
  by (simp add: sched_rep_def DeleteJob_eq job_index.rep_delete)

lemma sched_rep_frame [simp]:
  "sched_rep (ctx\<lparr>env := e\<rparr>) m \<longleftrightarrow> sched_rep ctx m"
  "sched_rep (EmitEvent ctx ev) m \<longleftrightarrow> sched_rep ctx m"
  by (simp_all add: sched_rep_def EmitEvent_def)

lemma sched_rep_SetNextJobID: "sched_rep ctx m \<Longrightarrow> sched_rep (SetNextJobID ctx n) m"
  by (simp add: sched_rep_def SetNextJobID_def job_index.rep_frame index_key_def NextJobIDKey_def)

lemma sched_rep_JobID: "sched_rep ctx m \<Longrightarrow> m i = Some j \<Longrightarrow> JobID j = i"
  unfolding sched_rep_def by (rule job_index.rep_rid)

lemma sched_rep_valid: "sched_rep ctx m \<Longrightarrow> m i = Some j \<Longrightarrow> job_valid j"
  unfolding sched_rep_def by (rule job_index.rep_valid)

text \<open>What each reader returns, on the map.\<close>

lemma GetJob_rep:
  assumes rep: "sched_rep ctx m"
  shows "GetJob ctx i = m i"
proof -
  have "kv_get (sstore ctx) (JobByIDKey i) = map_option SJob (m i)"
    by (rule job_index.rep_get_key [OF rep [unfolded sched_rep_def]])
      (auto simp: job_ents_def index_key_def sched_key_defs u64_be_inject)
  then show ?thesis
    by (simp add: GetJob_def split: option.split)
qed

lemma IterateJobsDueAt_rep:
  assumes rep: "sched_rep ctx m"
  shows "IterateJobsDueAt ctx h =
     map (\<lambda>i. the (m i)) (sorted_list_of_set {i. \<exists>j. m i = Some j \<and> ExecuteAtBlock j = h})"
proof -
  have "kv_iter (sstore ctx) (JobByDueBlockPrefix h) =
     map (\<lambda>i. (JobByDueBlockPrefix h @ u64_be i, SJob (the (m i))))
       (sorted_list_of_set {i. \<exists>j. m i = Some j \<and> ExecuteAtBlock j = h})"
    by (rule job_index.rep_iter_ids [OF rep [unfolded sched_rep_def]])
      (auto simp: job_ents_def sched_key_defs u64_be_inject has_prefix_same_length
        intro: index_key_prefix)
  then show ?thesis
    by (simp add: IterateJobsDueAt_def job_of_def List.map_filter_def)
qed

lemma creator_iter:
  assumes rep: "sched_rep ctx m" and c: "length c = 20"
  shows "kv_iter (sstore ctx) (CreatorJobsPrefix c) =
     map (\<lambda>i. (CreatorJobsPrefix c @ u64_be i, SMark))
       (sorted_list_of_set {i. \<exists>j. m i = Some j \<and> Creator j = c})"
  by (rule job_index.rep_iter_ids [OF rep [unfolded sched_rep_def]])
    (use c in \<open>auto simp: job_ents_def job_valid_def sched_key_defs has_prefix_same_length
       intro: index_key_prefix\<close>)

lemma PendingJobIDsByCreator_rep:
  assumes rep: "sched_rep ctx m" and c: "length c = 20"
  shows "PendingJobIDsByCreator ctx c = sorted_list_of_set {i. \<exists>j. m i = Some j \<and> Creator j = c}"
proof -
  have "PendingJobIDsByCreator ctx c =
      map (\<lambda>i. word_of_nat (be_decode (u64_be i)))
        (sorted_list_of_set {i. \<exists>j. m i = Some j \<and> Creator j = c})"
    using c unfolding PendingJobIDsByCreator_def Let_def creator_iter [OF rep c]
    by (simp add: CreatorJobsPrefix_def CreatorJobIndexPrefix_def filter_map o_def length_u64_be)
  then show ?thesis
    by (simp add: u64_be_decode)
qed

lemma CountJobsByCreator_rep:
  assumes rep: "sched_rep ctx m" and c: "length c = 20"
  shows "CountJobsByCreator ctx c = word_of_nat (card {i. \<exists>j. m i = Some j \<and> Creator j = c})"
  by (simp add: CountJobsByCreator_def foldl_count creator_iter [OF rep c])

lemma GetAllJobs_rep:
  assumes rep: "sched_rep ctx m"
  shows "GetAllJobs ctx = map (\<lambda>i. the (m i)) (sorted_list_of_set (dom m))"
proof -
  have "kv_iter (sstore ctx) JobByIDKeyPrefix =
     map (\<lambda>i. (JobByIDKeyPrefix @ u64_be i, SJob (the (m i))))
       (sorted_list_of_set {i. \<exists>j. m i = Some j \<and> True})"
    by (rule job_index.rep_iter_ids [OF rep [unfolded sched_rep_def]])
      (auto simp: job_ents_def sched_key_defs intro: index_key_prefix)
  then show ?thesis
    by (simp add: GetAllJobs_def job_of_def List.map_filter_def dom_def)
qed

section \<open>The operations on the map\<close>

text \<open>\<open>sched_inv\<close>: the store represents \<open>m\<close>, and every identifier in use is positive and below the
  one allocated next.\<close>

definition sched_inv :: "'e sctx \<Rightarrow> (u64 \<rightharpoonup> Job) \<Rightarrow> bool" where
  "sched_inv ctx m \<longleftrightarrow>
     sched_rep ctx m \<and> (\<forall>i \<in> dom m. 0 < i \<and> i < next_id (sched_counter ctx))"

definition new_job :: "u64 \<Rightarrow> addr \<Rightarrow> addr \<Rightarrow> bytes \<Rightarrow> u64 \<Rightarrow> u64 \<Rightarrow> int \<Rightarrow> Job" where
  "new_job i creator target callData executeAtBlock gasLimit d =
     \<lparr>JobID = i, Creator = addr_Bytes creator, Target = addr_Bytes target, CallData = callData,
      ExecuteAtBlock = executeAtBlock, GasLimit = gasLimit, Deposit = big_String d,
      JobActive = True\<rparr>"

definition min_deposit :: "'e SchedKeeper \<Rightarrow> 'e sctx \<Rightarrow> u64 \<Rightarrow> int" where
  "min_deposit k ctx gasLimit =
     big_of_u64 gasLimit * (case GetBaseFee k (env ctx) of None \<Rightarrow> 0 | Some f \<Rightarrow> f) *
     big_of_u64 (MinDepositFactor (sched_GetParams ctx))"

lemma index_key_other [simp]: "\<not> index_key NextJobIDKey" "\<not> index_key sched_ParamsKey"
  by (simp_all add: index_key_def sched_key_defs)

lemma job_ents_other:
  "NextJobIDKey \<notin> fst ` set (job_ents j)" "sched_ParamsKey \<notin> fst ` set (job_ents j)"
  by (auto simp: job_ents_def sched_key_defs)

lemma kv_get_SetJob_other:
  "kv_get (sstore (SetJob ctx j)) NextJobIDKey = kv_get (sstore ctx) NextJobIDKey"
  "kv_get (sstore (SetJob ctx j)) sched_ParamsKey = kv_get (sstore ctx) sched_ParamsKey"
  by (simp_all add: SetJob_def kv_simps sched_key_defs)

lemma kv_get_DeleteJob_other:
  "kv_get (sstore (DeleteJob ctx j)) NextJobIDKey = kv_get (sstore ctx) NextJobIDKey"
  "kv_get (sstore (DeleteJob ctx j)) sched_ParamsKey = kv_get (sstore ctx) sched_ParamsKey"
  by (simp_all add: DeleteJob_def kv_simps sched_key_defs)

lemma sched_counter_frame [simp]:
  "sched_counter (SetJob ctx j) = sched_counter ctx"
  "sched_counter (DeleteJob ctx j) = sched_counter ctx"
  "sched_counter (EmitEvent ctx ev) = sched_counter ctx"
  "sched_counter (ctx\<lparr>env := e\<rparr>) = sched_counter ctx"
  "sched_counter (SetNextJobID ctx n) = Some n"
  by (simp_all add: sched_counter_def kv_get_SetJob_other kv_get_DeleteJob_other EmitEvent_def
      SetNextJobID_def kv_simps)

lemma sctx_frame [simp]:
  "env (SetJob ctx j) = env ctx" "env (DeleteJob ctx j) = env ctx" "env (EmitEvent ctx ev) = env ctx"
  "env (SetNextJobID ctx n) = env ctx"
  "BlockHeight (SetJob ctx j) = BlockHeight ctx" "BlockHeight (DeleteJob ctx j) = BlockHeight ctx"
  "BlockHeight (EmitEvent ctx ev) = BlockHeight ctx" "BlockHeight (SetNextJobID ctx n) = BlockHeight ctx"
  by (simp_all add: SetJob_def DeleteJob_def EmitEvent_def SetNextJobID_def Let_def)

lemma parseDeposit_ge: "0 \<le> parseDeposit s"
  by (simp add: parseDeposit_def split: option.split)

lemma parseDeposit_String [simp]: "0 \<le> d \<Longrightarrow> parseDeposit (big_String d) = d"
  by (simp add: parseDeposit_def big_String_not_Nil)

text \<open>The conditions under which \<open>Schedule\<close> accepts, and what it then does.\<close>

definition schedule_ok ::
  "'e SchedKeeper \<Rightarrow> 'e sctx \<Rightarrow> addr \<Rightarrow> addr \<Rightarrow> u64 \<Rightarrow> u64 \<Rightarrow> int \<Rightarrow> bool" where
  "schedule_ok k ctx creator target executeAtBlock gasLimit d \<longleftrightarrow>
     target \<noteq> 0 \<and> gasLimit \<noteq> 0 \<and> 0 \<le> d \<and> min_deposit k ctx gasLimit \<le> d \<and>
     BlockHeight ctx < executeAtBlock \<and>
     unat executeAtBlock \<le> unat (BlockHeight ctx) + unat (MaxScheduleHorizon (sched_GetParams ctx)) \<and>
     CountJobsByCreator ctx (addr_Bytes creator) < MaxJobsPerCreator (sched_GetParams ctx)"

lemma Schedule_accept:
  assumes ok: "schedule_ok k ctx creator target executeAtBlock gasLimit d"
  defines "i \<equiv> next_id (sched_counter ctx)"
  shows "Schedule k ctx creator target callData executeAtBlock gasLimit (Some d) =
     (EmitEvent
        (SetJob (SetNextJobID ctx (i + 1))
           (new_job i creator target callData executeAtBlock gasLimit d))
        (JobScheduled i creator target executeAtBlock gasLimit d), Inr i)"
proof -
  have h: "BlockHeight ctx < executeAtBlock"
    using ok by (simp add: schedule_ok_def)
  show ?thesis
    using ok unfolding i_def
    by (simp add: schedule_ok_def Schedule_def NextJobID_def min_deposit_def Let_def new_job_def
        not_le not_less u64_diff_le [OF h, symmetric])
qed

lemma Schedule_reject:
  assumes "\<nexists>d. deposit = Some d \<and> schedule_ok k ctx creator target executeAtBlock gasLimit d"
  shows "\<exists>e. Schedule k ctx creator target callData executeAtBlock gasLimit deposit = (ctx, Inl e)"
  using assms u64_diff_le [of "BlockHeight ctx" executeAtBlock]
  by (auto simp: schedule_ok_def Schedule_def min_deposit_def Let_def not_le not_less
      split: option.split)

lemma Schedule_cases:
  obtains (ok) d where "deposit = Some d"
      "schedule_ok k ctx creator target executeAtBlock gasLimit d"
    | (err) e where "Schedule k ctx creator target callData executeAtBlock gasLimit deposit = (ctx, Inl e)"
  using Schedule_reject by metis

lemma next_id_fresh: "sched_inv ctx m \<Longrightarrow> m (next_id (sched_counter ctx)) = None"
  by (auto simp: sched_inv_def)

lemma sched_inv_add:
  assumes inv: "sched_inv ctx m" and i: "i = next_id (sched_counter ctx)" and "i + 1 \<noteq> 0"
    and j: "job_valid j" "JobID j = i"
  shows "sched_inv (SetJob (SetNextJobID ctx (i + 1)) j) (m(i \<mapsto> j))"
proof -
  have "i < i + 1"
    using \<open>i + 1 \<noteq> 0\<close> unatSuc [of i] by (simp add: word_less_nat_alt add.commute)
  moreover have "0 < i"
    unfolding i by (rule next_id_pos)
  moreover have "sched_rep (SetJob (SetNextJobID ctx (i + 1)) j) (m(i \<mapsto> j))"
    using sched_rep_SetJob [OF sched_rep_SetNextJobID, of ctx m j "i + 1"] inv next_id_fresh [OF inv] i j
    by (simp add: sched_inv_def)
  moreover have "next_id (Some (i + 1)) = i + 1"
    using \<open>i + 1 \<noteq> 0\<close> by (simp add: next_id_def)
  ultimately show ?thesis
    using inv by (auto simp: sched_inv_def i [symmetric] intro: less_trans [of _ i])
qed

lemma sched_inv_delete:
  "sched_inv ctx m \<Longrightarrow> m i = Some j \<Longrightarrow> sched_inv (DeleteJob ctx j) (m(i := None))"
  by (simp add: sched_inv_def sched_rep_DeleteJob)

text \<open>\<open>Cancel\<close> and \<open>Reschedule\<close> on the map.\<close>

lemma RefundDeposit_frame:
  assumes "RefundDeposit k ctx a n = Inr ctx'"
  shows "ctx' = ctx\<lparr>env := env ctx'\<rparr>"
  using assms by (auto simp: RefundDeposit_def split: if_splits sum.splits)

lemma RefundDeposit_balance:
  assumes "RefundDeposit k ctx a n = Inr ctx'" and laws: "bank_laws (bankKeeper k) modaddr bal"
    and "0 \<le> n"
  shows "bal (env ctx') = moved (bal (env ctx)) (modaddr sched_ModuleAccountName) a n"
  using assms bank_laws_out [OF laws]
  by (auto simp: RefundDeposit_def moved_def fun_eq_iff split: if_splits sum.splits)

lemma Cancel_cases:
  assumes rep: "sched_rep ctx m"
  obtains (ok) j ctx' where "m i = Some j" "JobActive j" "Creator j = addr_Bytes caller"
      "RefundDeposit k ctx caller (parseDeposit (Deposit j)) = Inr ctx'"
      "Cancel k ctx caller i =
         (EmitEvent (DeleteJob ctx' j) (JobCancelled i caller (Deposit j)), Inr ())"
    | (err) e where "Cancel k ctx caller i = (ctx, Inl e)"
proof (cases "m i")
  case None
  then show ?thesis
    using err by (simp add: Cancel_def GetJob_rep [OF rep])
next
  case (Some j)
  show ?thesis
  proof (cases "JobActive j \<and> Creator j = addr_Bytes caller")
    case True
    show ?thesis
      by (cases "RefundDeposit k ctx caller (parseDeposit (Deposit j))")
        (use True Some ok err in \<open>auto simp: Cancel_def GetJob_rep [OF rep]\<close>)
  next
    case False
    then show ?thesis
      using Some err by (cases "JobActive j") (auto simp: Cancel_def GetJob_rep [OF rep])
  qed
qed

definition reschedule_ok :: "'e sctx \<Rightarrow> (u64 \<rightharpoonup> Job) \<Rightarrow> addr \<Rightarrow> u64 \<Rightarrow> u64 \<Rightarrow> bool" where
  "reschedule_ok ctx m caller i b \<longleftrightarrow>
     (\<exists>j. m i = Some j \<and> JobActive j \<and> Creator j = addr_Bytes caller) \<and>
     BlockHeight ctx < b \<and>
     unat b \<le> unat (BlockHeight ctx) + unat (MaxScheduleHorizon (sched_GetParams ctx))"

lemma Reschedule_accept:
  assumes rep: "sched_rep ctx m" and ok: "reschedule_ok ctx m caller i b" and j: "m i = Some j"
  shows "Reschedule ctx caller i b =
     (EmitEvent (SetJob (DeleteJob ctx j) (j\<lparr>ExecuteAtBlock := b\<rparr>))
        (JobRescheduled i (ExecuteAtBlock j) b), Inr ())"
  using ok j u64_diff_le [of "BlockHeight ctx" b]
  by (auto simp: reschedule_ok_def Reschedule_def GetJob_rep [OF rep] Let_def not_le [symmetric])

lemma Reschedule_reject:
  assumes rep: "sched_rep ctx m" and "\<not> reschedule_ok ctx m caller i b"
  shows "\<exists>e. Reschedule ctx caller i b = (ctx, Inl e)"
  using assms(2) u64_diff_le [of "BlockHeight ctx" b]
  by (auto simp: reschedule_ok_def Reschedule_def GetJob_rep [OF rep] Let_def not_le not_less
      split: option.split)

lemma sched_rep_move:
  assumes rep: "sched_rep ctx m" and j: "m i = Some j"
  shows "sched_rep (SetJob (DeleteJob ctx j) (j\<lparr>ExecuteAtBlock := b\<rparr>)) (m(i \<mapsto> j\<lparr>ExecuteAtBlock := b\<rparr>))"
  using sched_rep_SetJob [OF sched_rep_DeleteJob [OF rep j], of "j\<lparr>ExecuteAtBlock := b\<rparr>"]
    sched_rep_valid [OF rep j] sched_rep_JobID [OF rep j]
  by (simp add: job_valid_def)

section \<open>Escrow accounting\<close>

text \<open>
  \<open>liabilities m\<close> is what the module owes: the sum of the recorded deposits.  \<open>surplus\<close> is the
  balance of the module account less that sum.
\<close>

definition liabilities :: "(u64 \<rightharpoonup> Job) \<Rightarrow> int" where
  "liabilities m = (\<Sum>i \<in> dom m. parseDeposit (Deposit (the (m i))))"

definition surplus :: "('e \<Rightarrow> addr \<Rightarrow> int) \<Rightarrow> addr \<Rightarrow> 'e \<Rightarrow> (u64 \<rightharpoonup> Job) \<Rightarrow> int" where
  "surplus bal M e m = bal e M - liabilities m"

lemma liabilities_empty [simp]: "liabilities Map.empty = 0"
  by (simp add: liabilities_def)

lemma liabilities_remove:
  assumes "m i = Some j"
  shows "liabilities m = liabilities (m(i := None)) + parseDeposit (Deposit j)"
proof -
  have "i \<in> dom m" using assms by auto
  moreover have "(\<Sum>x \<in> dom m - {i}. parseDeposit (Deposit (the ((m(i := None)) x)))) =
      (\<Sum>x \<in> dom m - {i}. parseDeposit (Deposit (the (m x))))"
    by (intro sum.cong) auto
  ultimately show ?thesis
    using assms by (simp add: liabilities_def sum.remove [of "dom m" i])
qed

lemma liabilities_upd:
  assumes "m i = None"
  shows "liabilities (m(i \<mapsto> j)) = liabilities m + parseDeposit (Deposit j)"
  using liabilities_remove [of "m(i \<mapsto> j)" i j] assms by (simp add: fun_upd_idem)

lemma liabilities_replace:
  assumes "m i = Some j" "Deposit j' = Deposit j"
  shows "liabilities (m(i \<mapsto> j')) = liabilities m"
  using liabilities_remove [of m i j] liabilities_remove [of "m(i \<mapsto> j')" i j'] assms by simp

lemma RefundDeposit_surplus:
  assumes r: "RefundDeposit k ctx a n = Inr ctx'" and laws: "bank_laws (bankKeeper k) modaddr bal"
    and j: "m i = Some j" and n: "0 \<le> n" "n \<le> parseDeposit (Deposit j)"
  shows "surplus bal (modaddr sched_ModuleAccountName) (env ctx) m \<le>
     surplus bal (modaddr sched_ModuleAccountName) (env ctx') (m(i := None))"
  using RefundDeposit_balance [OF r laws n(1)] n
    moved_from_ge [OF n(1), of "bal (env ctx)" "modaddr sched_ModuleAccountName" a]
  by (simp add: surplus_def liabilities_remove [of m i j, OF j])

section \<open>Dispatch\<close>

text \<open>
  What the end blocker relies on from the contracts it calls, stated on the scheduler's own state:
  a call that returns leaves the height, leaves the jobs due in this block as they are, and does
  not lower the surplus of the module account.  It may schedule, cancel and reschedule other jobs.
\<close>

definition evm_keeps ::
  "'e SchedKeeper \<Rightarrow> ('e \<Rightarrow> addr \<Rightarrow> int) \<Rightarrow> addr \<Rightarrow> bool" where
  "evm_keeps k bal M \<longleftrightarrow>
     (\<forall>ctx a t d g ctx' m. CallEVMWithData k ctx a t d True = (EvmOk g, ctx') \<longrightarrow> sched_inv ctx m \<longrightarrow>
        BlockHeight ctx' = BlockHeight ctx \<and>
        (\<exists>m'. sched_inv ctx' m' \<and>
           (\<forall>i j. ExecuteAtBlock j = BlockHeight ctx \<longrightarrow> m' i = Some j \<longleftrightarrow> m i = Some j) \<and>
           surplus bal M (env ctx) m \<le> surplus bal M (env ctx') m'))"

definition base_fee_nonneg :: "'e SchedKeeper \<Rightarrow> bool" where
  "base_fee_nonneg k \<longleftrightarrow> (\<forall>e f. GetBaseFee k e = Some f \<longrightarrow> 0 \<le> f)"

text \<open>A dispatch settles on some context \<open>c\<close> (the outer one, or the committed cache), pays a
  refund of at most the deposit there, logs, and deletes the job.\<close>

definition settles :: "'e SchedKeeper \<Rightarrow> 'e sctx \<Rightarrow> Job \<Rightarrow> 'e sctx \<Rightarrow> bool" where
  "settles k c j c' \<longleftrightarrow>
     (\<exists>n ev r. 0 \<le> n \<and> n \<le> parseDeposit (Deposit j) \<and>
        RefundDeposit k c (BytesToAddress (Creator j)) n = r \<and>
        c' = DeleteJob (EmitEvent (case r of Inl _ \<Rightarrow> c | Inr c \<Rightarrow> c) ev) j)"

lemma dispatch_failed:
  assumes "CallEVMWithData k ctx (BytesToAddress (Creator j)) (BytesToAddress (Target j)) (CallData j) True =
      (res, cc)" and "\<And>g. res \<noteq> EvmOk g"
  shows "\<exists>ev. dispatchJob k ctx j =
     DeleteJob (EmitEvent
       (case RefundDeposit k ctx (BytesToAddress (Creator j)) (parseDeposit (Deposit j)) of
          Inl _ \<Rightarrow> ctx | Inr c \<Rightarrow> c) ev) j"
  using assms by (cases res) (auto simp: dispatchJob_def Let_def split: sum.splits)

lemma dispatch_ok:
  assumes "CallEVMWithData k ctx (BytesToAddress (Creator j)) (BytesToAddress (Target j)) (CallData j) True =
      (EvmOk g, cc)" and fee: "base_fee_nonneg k"
  shows "settles k cc j (dispatchJob k ctx j)"
proof -
  define fee where "fee = (case GetBaseFee k (env cc) of None \<Rightarrow> 0 | Some f \<Rightarrow> f)"
  define consumed where "consumed = big_of_u64 (case g of None \<Rightarrow> 0 | Some g \<Rightarrow> g) * fee"
  define n where "n = (if parseDeposit (Deposit j) - consumed < 0 then 0 else parseDeposit (Deposit j) - consumed)"
  have "0 \<le> fee"
    using assms(2) by (simp add: fee_def base_fee_nonneg_def split: option.split)
  then have "0 \<le> consumed"
    by (simp add: consumed_def big_of_u64_ge)
  then have n: "0 \<le> n" "n \<le> parseDeposit (Deposit j)"
    using parseDeposit_ge [of "Deposit j"] by (auto simp: n_def)
  have "\<exists>ev. dispatchJob k ctx j =
     DeleteJob (EmitEvent (case RefundDeposit k cc (BytesToAddress (Creator j)) n of
          Inl _ \<Rightarrow> cc | Inr c \<Rightarrow> c) ev) j"
    using assms(1)
    by (cases "parseDeposit (Deposit j) - consumed < 0")
      (auto simp: dispatchJob_def Let_def fee_def [symmetric] consumed_def [symmetric] n_def
        split: sum.splits)
  with n show ?thesis
    unfolding settles_def by blast
qed

lemma dispatch_settles:
  assumes fee: "base_fee_nonneg k"
  obtains (kept) "settles k ctx j (dispatchJob k ctx j)"
    | (committed) g cc where
        "CallEVMWithData k ctx (BytesToAddress (Creator j)) (BytesToAddress (Target j)) (CallData j) True =
           (EvmOk g, cc)" "settles k cc j (dispatchJob k ctx j)"
proof -
  obtain res cc where call: "CallEVMWithData k ctx (BytesToAddress (Creator j))
      (BytesToAddress (Target j)) (CallData j) True = (res, cc)" by fastforce
  show ?thesis
  proof (cases "\<exists>g. res = EvmOk g")
    case True
    then show ?thesis
      using call dispatch_ok [OF _ fee] that(2) by blast
  next
    case False
    then have "settles k ctx j (dispatchJob k ctx j)"
      using dispatch_failed [OF call] parseDeposit_ge unfolding settles_def by blast
    then show ?thesis by (rule that(1))
  qed
qed

lemma refund_ctx:
  "\<exists>e. (case RefundDeposit k c a n of Inl _ \<Rightarrow> c | Inr c \<Rightarrow> c) = c\<lparr>env := e\<rparr>"
proof (cases "RefundDeposit k c a n")
  case (Inl x)
  then show ?thesis by (auto intro: exI [of _ "env c"])
next
  case (Inr c')
  then show ?thesis using RefundDeposit_frame [OF Inr] by auto
qed

lemma settles_rep:
  assumes s: "settles k c j c'" and inv: "sched_inv c m" and j: "m i = Some j"
    and laws: "bank_laws (bankKeeper k) modaddr bal"
  shows "sched_inv c' (m(i := None))" and "BlockHeight c' = BlockHeight c"
    and "surplus bal (modaddr sched_ModuleAccountName) (env c) m \<le>
      surplus bal (modaddr sched_ModuleAccountName) (env c') (m(i := None))"
proof -
  obtain n ev where n: "0 \<le> n" "n \<le> parseDeposit (Deposit j)" and
    c': "c' = DeleteJob (EmitEvent
      (case RefundDeposit k c (BytesToAddress (Creator j)) n of Inl _ \<Rightarrow> c | Inr c \<Rightarrow> c) ev) j"
    using s unfolding settles_def by blast
  obtain e where "c' = DeleteJob (EmitEvent (c\<lparr>env := e\<rparr>) ev) j"
    using refund_ctx unfolding c' by metis
  then show "sched_inv c' (m(i := None))" "BlockHeight c' = BlockHeight c"
    using sched_inv_delete [of "EmitEvent (c\<lparr>env := e\<rparr>) ev" m i j] inv j
    by (simp_all add: sched_inv_def)
  show "surplus bal (modaddr sched_ModuleAccountName) (env c) m \<le>
      surplus bal (modaddr sched_ModuleAccountName) (env c') (m(i := None))"
    using RefundDeposit_surplus [of k c _ n _ modaddr bal m i j, OF _ laws j n] parseDeposit_ge [of "Deposit j"]
    by (auto simp: c' surplus_def liabilities_remove [of m i j, OF j] split: sum.split)
qed

text \<open>One dispatch of a stored job: the job is gone, the other jobs due at this height are
  untouched, the surplus does not shrink.\<close>

lemma dispatchJob_rep:
  assumes keeps: "evm_keeps k bal (modaddr sched_ModuleAccountName)"
    and laws: "bank_laws (bankKeeper k) modaddr bal" and fee: "base_fee_nonneg k"
    and rep: "sched_inv ctx m" and j: "m i = Some j" "ExecuteAtBlock j = BlockHeight ctx"
  shows "\<exists>m'. sched_inv (dispatchJob k ctx j) m' \<and>
     BlockHeight (dispatchJob k ctx j) = BlockHeight ctx \<and>
     (\<forall>x y. ExecuteAtBlock y = BlockHeight ctx \<longrightarrow> m' x = Some y \<longleftrightarrow> (x \<noteq> i \<and> m x = Some y)) \<and>
     surplus bal (modaddr sched_ModuleAccountName) (env ctx) m \<le>
     surplus bal (modaddr sched_ModuleAccountName) (env (dispatchJob k ctx j)) m'"
  using fee
proof (cases rule: dispatch_settles [of k ctx j])
  case kept
  show ?thesis
    using settles_rep [OF kept rep j(1) laws] by (intro exI [of _ "m(i := None)"]) auto
next
  case (committed g cc)
  then obtain m' where m': "BlockHeight cc = BlockHeight ctx" "sched_inv cc m'"
    "\<And>x y. ExecuteAtBlock y = BlockHeight ctx \<Longrightarrow> m' x = Some y \<longleftrightarrow> m x = Some y"
    "surplus bal (modaddr sched_ModuleAccountName) (env ctx) m \<le>
     surplus bal (modaddr sched_ModuleAccountName) (env cc) m'"
    using keeps rep unfolding evm_keeps_def by metis
  then have "m' i = Some j"
    using j by simp
  from settles_rep [OF committed(2) m'(2) this laws] show ?thesis
    using m'(1,3,4) by (intro exI [of _ "m'(i := None)"]) auto
qed

lemma dispatch_all_rep:
  assumes keeps: "evm_keeps k bal (modaddr sched_ModuleAccountName)"
    and laws: "bank_laws (bankKeeper k) modaddr bal" and fee: "base_fee_nonneg k"
    and rep: "sched_inv ctx m" and h: "BlockHeight ctx = h"
    and jobs: "\<And>j. j \<in> set js \<Longrightarrow> m (JobID j) = Some j \<and> ExecuteAtBlock j = h"
    and dist: "distinct (map JobID js)"
  shows "\<exists>m'. sched_inv (foldl (dispatchJob k) ctx js) m' \<and>
     BlockHeight (foldl (dispatchJob k) ctx js) = h \<and>
     (\<forall>x y. ExecuteAtBlock y = h \<longrightarrow> m' x = Some y \<longleftrightarrow> (x \<notin> JobID ` set js \<and> m x = Some y)) \<and>
     surplus bal (modaddr sched_ModuleAccountName) (env ctx) m \<le>
     surplus bal (modaddr sched_ModuleAccountName) (env (foldl (dispatchJob k) ctx js)) m'"
  using rep h jobs dist
proof (induction js arbitrary: ctx m)
  case Nil
  then show ?case by (intro exI [of _ m]) simp
next
  case (Cons j js)
  have j: "m (JobID j) = Some j" "ExecuteAtBlock j = BlockHeight ctx"
    using Cons.prems(2) Cons.prems(3) [of j] by simp_all
  obtain m1 where m1: "sched_inv (dispatchJob k ctx j) m1" "BlockHeight (dispatchJob k ctx j) = h"
    "\<And>x y. ExecuteAtBlock y = h \<Longrightarrow> m1 x = Some y \<longleftrightarrow> (x \<noteq> JobID j \<and> m x = Some y)"
    "surplus bal (modaddr sched_ModuleAccountName) (env ctx) m \<le>
     surplus bal (modaddr sched_ModuleAccountName) (env (dispatchJob k ctx j)) m1"
    using dispatchJob_rep [OF keeps laws fee Cons.prems(1) j] unfolding Cons.prems(2) by blast
  have jobs': "m1 (JobID j') = Some j' \<and> ExecuteAtBlock j' = h" if "j' \<in> set js" for j'
  proof -
    have "JobID j' \<noteq> JobID j"
      using that Cons.prems(4) by (metis distinct.simps(2) image_eqI list.map(2) list.set_map)
    then show ?thesis
      using that Cons.prems(3) [of j'] m1(3) [of j'] by simp
  qed
  have d: "distinct (map JobID js)"
    using Cons.prems(4) by simp
  obtain m2 where m2: "sched_inv (foldl (dispatchJob k) ctx (j # js)) m2"
     "BlockHeight (foldl (dispatchJob k) ctx (j # js)) = h"
     "\<And>x y. ExecuteAtBlock y = h \<Longrightarrow> m2 x = Some y \<longleftrightarrow> (x \<notin> JobID ` set js \<and> m1 x = Some y)"
     "surplus bal (modaddr sched_ModuleAccountName) (env (dispatchJob k ctx j)) m1 \<le>
      surplus bal (modaddr sched_ModuleAccountName) (env (foldl (dispatchJob k) ctx (j # js))) m2"
    using Cons.IH [OF m1(1,2) jobs' d] unfolding foldl_Cons by blast
  have "m2 x = Some y \<longleftrightarrow> (x \<notin> JobID ` set (j # js) \<and> m x = Some y)"
    if "ExecuteAtBlock y = h" for x y
    unfolding m2(3) [OF that] m1(3) [OF that] by auto
  then show ?case
    using m2(1,2) order.trans [OF m1(4) m2(4)] by blast
qed

lemma due_jobs:
  assumes rep: "sched_rep ctx m"
  shows "j \<in> set (filter JobActive (IterateJobsDueAt ctx h)) \<longleftrightarrow>
      m (JobID j) = Some j \<and> ExecuteAtBlock j = h \<and> JobActive j"
    and "sorted_wrt (<) (map JobID (filter JobActive (IterateJobsDueAt ctx h)))"
proof -
  let ?I = "{i. \<exists>j. m i = Some j \<and> ExecuteAtBlock j = h}"
  show "j \<in> set (filter JobActive (IterateJobsDueAt ctx h)) \<longleftrightarrow>
      m (JobID j) = Some j \<and> ExecuteAtBlock j = h \<and> JobActive j"
  proof -
    have "j \<in> set (IterateJobsDueAt ctx h) \<longleftrightarrow> (\<exists>i. m i = Some j \<and> ExecuteAtBlock j = h)"
      by (auto simp: IterateJobsDueAt_rep [OF rep] image_iff)
    also have "\<dots> \<longleftrightarrow> m (JobID j) = Some j \<and> ExecuteAtBlock j = h"
      by (metis sched_rep_JobID [OF rep])
    finally show ?thesis by simp
  qed
  have "map JobID (IterateJobsDueAt ctx h) = sorted_list_of_set ?I"
    using sched_rep_JobID [OF rep] unfolding IterateJobsDueAt_rep [OF rep] map_map
    by (intro map_idI) auto
  then have "sorted_wrt (<) (map JobID (IterateJobsDueAt ctx h))"
    by (simp del: map_map)
  then show "sorted_wrt (<) (map JobID (filter JobActive (IterateJobsDueAt ctx h)))"
    by (simp add: sorted_wrt_map sorted_wrt_filter)
qed

text \<open>The whole end of block: every active job due now is gone, every other job due now is
  untouched, and the surplus does not shrink.\<close>

lemma EndBlocker_rep:
  assumes keeps: "evm_keeps k bal (modaddr sched_ModuleAccountName)"
    and laws: "bank_laws (bankKeeper k) modaddr bal" and fee: "base_fee_nonneg k"
    and inv: "sched_inv ctx m"
  shows "\<exists>m'. sched_inv (EndBlocker k ctx) m' \<and>
     BlockHeight (EndBlocker k ctx) = BlockHeight ctx \<and>
     (\<forall>i j. ExecuteAtBlock j = BlockHeight ctx \<longrightarrow> m' i = Some j \<longleftrightarrow> m i = Some j \<and> \<not> JobActive j) \<and>
     surplus bal (modaddr sched_ModuleAccountName) (env ctx) m \<le>
     surplus bal (modaddr sched_ModuleAccountName) (env (EndBlocker k ctx)) m'"
proof -
  have rep: "sched_rep ctx m"
    using inv by (simp add: sched_inv_def)
  let ?due = "filter JobActive (IterateJobsDueAt ctx (BlockHeight ctx))"
  have "distinct (map JobID ?due)"
    using due_jobs(2) [OF rep] by (simp add: strict_sorted_iff)
  then obtain m' where m': "sched_inv (EndBlocker k ctx) m'"
     "BlockHeight (EndBlocker k ctx) = BlockHeight ctx"
     "\<And>x y. ExecuteAtBlock y = BlockHeight ctx \<Longrightarrow>
        m' x = Some y \<longleftrightarrow> (x \<notin> JobID ` set ?due \<and> m x = Some y)"
     "surplus bal (modaddr sched_ModuleAccountName) (env ctx) m \<le>
      surplus bal (modaddr sched_ModuleAccountName) (env (EndBlocker k ctx)) m'"
    using dispatch_all_rep [OF keeps laws fee inv refl, of ?due] due_jobs(1) [OF rep]
    unfolding EndBlocker_def Let_def by blast
  have "x \<notin> JobID ` set ?due \<longleftrightarrow> \<not> JobActive y"
    if "m x = Some y" "ExecuteAtBlock y = BlockHeight ctx" for x y
  proof -
    have "JobID y = x"
      by (rule sched_rep_JobID [OF rep that(1)])
    moreover have "y' = y" if "y' \<in> set ?due" "JobID y' = x" for y'
      using that \<open>m x = Some y\<close> unfolding due_jobs(1) [OF rep] by simp
    moreover have "y \<in> set ?due \<longleftrightarrow> JobActive y"
      using that \<open>JobID y = x\<close> unfolding due_jobs(1) [OF rep] by simp
    ultimately show ?thesis
      by blast
  qed
  then have "\<forall>i j. ExecuteAtBlock j = BlockHeight ctx \<longrightarrow> m' i = Some j \<longleftrightarrow> m i = Some j \<and> \<not> JobActive j"
    using m'(3) by blast
  then show ?thesis
    using m'(1,2,4) by blast
qed

section \<open>Genesis import and export\<close>

lemma sched_validate_jobs_iff:
  "sched_validate_jobs next seen js = Inr () \<longleftrightarrow>
     distinct (map JobID js) \<and> (\<forall>j \<in> set js. JobID j \<noteq> 0 \<and> JobID j \<notin> seen \<and> JobID j < next)"
  by (induction js arbitrary: seen) (auto simp: not_le image_iff)

lemma foldl_SetJob:
  "foldl SetJob ctx js = ctx\<lparr>sstore := fold (\<lambda>r s. set_record job_ents s r) js (sstore ctx)\<rparr>"
  by (induction js arbitrary: ctx) (simp_all add: SetJob_eq)

lemma foldl_SetJob_frame [simp]:
  "sched_counter (foldl SetJob ctx js) = sched_counter ctx"
  "kv_get (sstore (foldl SetJob ctx js)) sched_ParamsKey = kv_get (sstore ctx) sched_ParamsKey"
  by (induction js arbitrary: ctx) (simp_all add: kv_get_SetJob_other)

lemma next_id_GetNextJobID [simp]: "next_id (Some (GetNextJobID ctx)) = next_id (sched_counter ctx)"
  by (auto simp: GetNextJobID_def next_id_def split: option.split)

lemma sched_export_jobs_valid:
  assumes inv: "sched_inv ctx m"
  shows "sched_validate_jobs (GetNextJobID ctx) {} (GetAllJobs ctx) = Inr ()"
proof -
  have rep: "sched_rep ctx m" and ids: "\<And>i. i \<in> dom m \<Longrightarrow> 0 < i \<and> i < next_id (sched_counter ctx)"
    using inv by (auto simp: sched_inv_def)
  have below: "i < GetNextJobID ctx" if "i \<in> dom m" for i
    using ids [OF that] by (auto simp: GetNextJobID_def next_id_def split: option.splits if_splits)
  have "map JobID (GetAllJobs ctx) = sorted_list_of_set (dom m)"
    unfolding GetAllJobs_rep [OF rep] map_map
    by (rule map_idI) (auto intro: sched_rep_JobID [OF rep])
  moreover from this have "JobID j \<in> dom m" if "j \<in> set (GetAllJobs ctx)" for j
    using that by (metis finite image_eqI list.set_map set_sorted_list_of_set)
  ultimately show ?thesis
    using ids below by (fastforce simp: sched_validate_jobs_iff)
qed

lemma sched_import_rep:
  assumes rep: "sched_rep ctx m" and st: "kv_wf (sstore ctx0)"
    "\<And>k. index_key k \<Longrightarrow> kv_get (sstore ctx0) k = None"
  shows "sched_rep (foldl SetJob ctx0 (GetAllJobs ctx)) m"
proof -
  let ?js = "map (\<lambda>i. the (m i)) (sorted_list_of_set (dom m))"
  have js: "\<And>j. j \<in> set ?js \<Longrightarrow> \<exists>i. m i = Some j"
    by auto
  have "map JobID ?js = sorted_list_of_set (dom m)"
    unfolding map_map by (rule map_idI) (auto intro: sched_rep_JobID [OF rep])
  then have "distinct (map JobID ?js)"
    by (simp del: map_map)
  then have "represents job_ents JobID job_valid index_key
      (fold (\<lambda>r s. set_record job_ents s r) ?js (sstore ctx0))
      (fold (\<lambda>r m. m(JobID r \<mapsto> r)) ?js Map.empty)"
    by (intro job_index.rep_load job_index.rep_empty st) (auto dest: sched_rep_valid [OF rep])
  then show ?thesis
    by (simp add: sched_rep_def foldl_SetJob GetAllJobs_rep [OF rep] fold_upd_all
        sched_rep_JobID [OF rep] del: set_map)
qed

end
