(* ===== verification/Precompile_Common.thy ===== *)
theory Precompile_Common
  imports Keepers
begin

text \<open>
  The entry path shared by the stateful precompiles (\<open>precompiles/common/precompile.go\<close>): selection of
  the ABI method from the call data, write protection, and unpacking of the arguments.  The ABI
  itself (method table, argument decoder) belongs to go-ethereum and is the argument \<open>Abi\<close>.  Gas
  metering and the recovery from out-of-gas panics are not modelled.
\<close>

record abi_method =
  Name :: string
  IsFunction :: bool
  Unpack :: "bytes \<Rightarrow> (string, abi_val list) result"

record Abi =
  MethodById :: "bytes \<Rightarrow> (string, abi_method) result"
  Receive :: "abi_method option"
  Fallback :: "abi_method option"

record Contract =
  CallerAddress :: addr
  Value :: "int option"
  Input :: bytes

definition ErrExecutionReverted :: string where
  "ErrExecutionReverted = ''execution reverted''"

definition ErrWriteProtection :: string where
  "ErrWriteProtection = ''write protection''"

definition emptyCallData :: "Abi \<Rightarrow> Contract \<Rightarrow> (string, abi_method) result" where
  "emptyCallData p contract =
     (case Value contract of
        None \<Rightarrow> Inl ''panic: nil pointer dereference''
      | Some v \<Rightarrow>
          if 0 < v \<and> Receive p \<noteq> None then Inr (the (Receive p))
          else (case Fallback p of Some f \<Rightarrow> Inr f | None \<Rightarrow> Inl ErrExecutionReverted))"

definition methodIDCallData :: "Abi \<Rightarrow> (string, abi_method) result" where
  "methodIDCallData p =
     (case Fallback p of None \<Rightarrow> Inl ErrExecutionReverted | Some f \<Rightarrow> Inr f)"

definition standardCallData :: "Abi \<Rightarrow> Contract \<Rightarrow> (string, abi_method) result" where
  "standardCallData p contract =
     (case MethodById p (take 4 (Input contract)) of
        Inl err \<Rightarrow> (case Fallback p of None \<Rightarrow> Inl err | Some f \<Rightarrow> Inr f)
      | Inr method \<Rightarrow> Inr method)"

definition RunSetup ::
  "Abi \<Rightarrow> Contract \<Rightarrow> bool \<Rightarrow> (string \<Rightarrow> bool) \<Rightarrow> (string, string \<times> abi_val list) result" where
  "RunSetup p contract readOnly isTransaction =
     (let isEmptyCallData = (length (Input contract) = 0);
          isShortCallData = (0 < length (Input contract) \<and> length (Input contract) < 4)
      in
      case (if isEmptyCallData then emptyCallData p contract
            else if isShortCallData then methodIDCallData p
            else standardCallData p contract) of
        Inl err \<Rightarrow> Inl err
      | Inr method \<Rightarrow>
          if readOnly \<and> isTransaction (Name method) then Inl ErrWriteProtection
          else if IsFunction method then
            (case Unpack method (drop 4 (Input contract)) of
               Inl err \<Rightarrow> Inl err
             | Inr args \<Rightarrow> Inr (Name method, args))
          else Inr (Name method, []))"

text \<open>A call that passes the setup in read-only mode names a method that does not write.\<close>

lemma RunSetup_readOnly:
  "RunSetup p contract True isTransaction = Inr (method, args) \<Longrightarrow> \<not> isTransaction method"
  by (auto simp: RunSetup_def Let_def split: sum.splits if_splits)

text \<open>Without a receive or fallback function, short call data never reaches a method.\<close>

lemma RunSetup_short:
  "Receive p = None \<Longrightarrow> Fallback p = None \<Longrightarrow> length (Input contract) < 4 \<Longrightarrow>
   \<exists>e. RunSetup p contract readOnly isTransaction = Inl e"
  by (auto simp: RunSetup_def emptyCallData_def methodIDCallData_def Let_def split: option.splits)

text \<open>The contract of a precompile's \<open>Run\<close> towards write protection: a call that fails in the setup, or that names a
  method which is not a transaction, keeps the state \<open>'c\<close> it runs on.\<close>

locale precompile_entry =
  fixes isTransaction :: "string \<Rightarrow> bool"
    and run :: "Abi \<Rightarrow> 'c \<Rightarrow> Contract \<Rightarrow> bool \<Rightarrow> 'c \<times> 'r"
  assumes setup_error: "RunSetup p contract readOnly isTransaction = Inl e \<Longrightarrow> fst (run p c contract readOnly) = c"
    and view_keeps: "RunSetup p contract readOnly isTransaction = Inr (m, args) \<Longrightarrow> \<not> isTransaction m \<Longrightarrow>
      fst (run p c contract readOnly) = c"
begin

lemma static_call: "fst (run p c contract True) = c"
proof (cases "RunSetup p contract True isTransaction")
  case (Inr ma)
  then show ?thesis
    by (cases ma) (auto intro: view_keeps dest: RunSetup_readOnly)
qed (rule setup_error)

end

end
