(* ===== verification/Scheduler_Precompile.thy ===== *)
theory Scheduler_Precompile
  imports Scheduler Precompile_Common
begin

text \<open>
  The scheduler precompile (\<open>precompiles/scheduler/scheduler.go\<close>, address 0x905): argument decoding,
  the five handlers, gas and dispatch; then the module as a transition system and the properties of
  the scheduler.

  A handler works on the SDK context and on the EVM state database, of which it only uses
  \<open>SubBalance\<close>; that function is an argument.
\<close>

definition sched_PrecompileAddress :: addr where
  "sched_PrecompileAddress = 0x905"

record scheduleArgs =
  sa_Target :: addr
  sa_CallData :: bytes
  sa_ExecuteAtBlock :: u64
  sa_GasLimit :: u64

record abiJob =
  aj_Id :: int
  aj_Creator :: addr
  aj_Target :: addr
  aj_CallData :: bytes
  aj_ExecuteAtBlock :: u64
  aj_GasLimit :: u64
  aj_Deposit :: int
  aj_Active :: bool

datatype sched_output = OutId int | OutNone | OutJob abiJob | OutIds "int list"

definition sched_IsTransaction :: "string \<Rightarrow> bool" where
  "sched_IsTransaction method \<longleftrightarrow> method \<in> {''schedule'', ''cancel'', ''reschedule''}"

definition sched_RequiredGas :: "Abi \<Rightarrow> bytes \<Rightarrow> u64" where
  "sched_RequiredGas p input =
     (if length input < 4 then 0
      else
        (case MethodById p (take 4 input) of
           Inl _ \<Rightarrow> 0
         | Inr method \<Rightarrow>
             if Name method = ''schedule'' then 5000 + 50 * word_of_nat (length input)
             else if Name method = ''cancel'' then 3000
             else if Name method = ''reschedule'' then 4000
             else if Name method = ''getJob'' \<or> Name method = ''pending'' then 200
             else 0))"

definition decodeScheduleArgs :: "abi_val list \<Rightarrow> (SchedErr, scheduleArgs) result" where
  "decodeScheduleArgs args =
     (if length args \<noteq> 4 then Inl (SchedArgErr ''schedule: expected 4 args'')
      else
        (case args ! 0 of
           VAddr target \<Rightarrow>
             (case args ! 1 of
                VBytes callData \<Rightarrow>
                  (case args ! 2 of
                     VU64 executeAtBlock \<Rightarrow>
                       (case args ! 3 of
                          VU64 gasLimit \<Rightarrow>
                            Inr \<lparr>sa_Target = target, sa_CallData = callData,
                                 sa_ExecuteAtBlock = executeAtBlock, sa_GasLimit = gasLimit\<rparr>
                        | _ \<Rightarrow> Inl (SchedArgErr ''schedule: invalid gasLimit type''))
                   | _ \<Rightarrow> Inl (SchedArgErr ''schedule: invalid executeAtBlock type''))
              | _ \<Rightarrow> Inl (SchedArgErr ''schedule: invalid callData type''))
         | _ \<Rightarrow> Inl (SchedArgErr ''schedule: invalid target type'')))"

definition handleSchedule ::
  "'e SchedKeeper \<Rightarrow> ('d \<Rightarrow> addr \<Rightarrow> int \<Rightarrow> 'd) \<Rightarrow> 'e sctx \<Rightarrow> 'd \<Rightarrow> Contract \<Rightarrow> abi_val list \<Rightarrow>
   ('e sctx \<times> 'd) \<times> (SchedErr, sched_output) result" where
  "handleSchedule k SubBalance ctx stateDB contract args =
     (case decodeScheduleArgs args of
        Inl err \<Rightarrow> ((ctx, stateDB), Inl err)
      | Inr decoded \<Rightarrow>
          (let deposit = (case Value contract of None \<Rightarrow> 0 | Some v \<Rightarrow> v);
               caller = CallerAddress contract;
               schedule = (\<lambda>ctx stateDB.
                 (let (ctx, r) = Schedule k ctx caller (sa_Target decoded) (sa_CallData decoded)
                                   (sa_ExecuteAtBlock decoded) (sa_GasLimit decoded) (Some deposit)
                  in case r of
                       Inl err \<Rightarrow> ((ctx, stateDB), Inl err)
                     | Inr jobID \<Rightarrow> ((ctx, stateDB), Inr (OutId (big_of_u64 jobID)))))
           in
           if 0 < deposit then
             (let stateDB = SubBalance stateDB sched_PrecompileAddress deposit in
              case EscrowDeposit k ctx caller (Some deposit) of
                Inl err \<Rightarrow> ((ctx, stateDB), Inl err)
              | Inr ctx \<Rightarrow> schedule ctx stateDB)
           else schedule ctx stateDB))"

definition handleCancel ::
  "'e SchedKeeper \<Rightarrow> 'e sctx \<Rightarrow> Contract \<Rightarrow> abi_val list \<Rightarrow>
   'e sctx \<times> (SchedErr, sched_output) result" where
  "handleCancel k ctx contract args =
     (if length args \<noteq> 1 then (ctx, Inl (SchedArgErr ''cancel: expected 1 arg''))
      else
        (case args ! 0 of
           VBig jobIdBig \<Rightarrow>
             if \<not> IsUint64 jobIdBig then (ctx, Inl (SchedArgErr ''cancel: jobId out of uint64 range''))
             else
               (case Cancel k ctx (CallerAddress contract) (Uint64 jobIdBig) of
                  (ctx, Inl err) \<Rightarrow> (ctx, Inl err)
                | (ctx, Inr _) \<Rightarrow> (ctx, Inr OutNone))
         | _ \<Rightarrow> (ctx, Inl (SchedArgErr ''cancel: invalid jobId type''))))"

definition handleReschedule ::
  "'e sctx \<Rightarrow> Contract \<Rightarrow> abi_val list \<Rightarrow> 'e sctx \<times> (SchedErr, sched_output) result" where
  "handleReschedule ctx contract args =
     (if length args \<noteq> 2 then (ctx, Inl (SchedArgErr ''reschedule: expected 2 args''))
      else
        (case args ! 0 of
           VBig jobIdBig \<Rightarrow>
             if \<not> IsUint64 jobIdBig
             then (ctx, Inl (SchedArgErr ''reschedule: jobId out of uint64 range''))
             else
               (case args ! 1 of
                  VU64 newBlock \<Rightarrow>
                    (case Reschedule ctx (CallerAddress contract) (Uint64 jobIdBig) newBlock of
                       (ctx, Inl err) \<Rightarrow> (ctx, Inl err)
                     | (ctx, Inr _) \<Rightarrow> (ctx, Inr OutNone))
                | _ \<Rightarrow> (ctx, Inl (SchedArgErr ''reschedule: invalid newBlock type'')))
         | _ \<Rightarrow> (ctx, Inl (SchedArgErr ''reschedule: invalid jobId type''))))"

definition handleGetJob :: "'e sctx \<Rightarrow> abi_val list \<Rightarrow> (SchedErr, sched_output) result" where
  "handleGetJob ctx args =
     (if length args \<noteq> 1 then Inl (SchedArgErr ''getJob: expected 1 arg'')
      else
        (case args ! 0 of
           VBig jobIdBig \<Rightarrow>
             if \<not> IsUint64 jobIdBig then Inl (SchedArgErr ''getJob: jobId out of uint64 range'')
             else
               (case GetJob ctx (Uint64 jobIdBig) of
                  None \<Rightarrow>
                    Inr (OutJob \<lparr>aj_Id = 0, aj_Creator = 0, aj_Target = 0, aj_CallData = [],
                       aj_ExecuteAtBlock = 0, aj_GasLimit = 0, aj_Deposit = 0, aj_Active = False\<rparr>)
                | Some job \<Rightarrow>
                    (let deposit = (case big_SetString (Deposit job) of None \<Rightarrow> 0 | Some d \<Rightarrow> d)
                     in Inr (OutJob \<lparr>aj_Id = big_of_u64 (JobID job),
                          aj_Creator = BytesToAddress (Creator job),
                          aj_Target = BytesToAddress (Target job), aj_CallData = CallData job,
                          aj_ExecuteAtBlock = ExecuteAtBlock job, aj_GasLimit = GasLimit job,
                          aj_Deposit = deposit, aj_Active = JobActive job\<rparr>)))
         | _ \<Rightarrow> Inl (SchedArgErr ''getJob: invalid jobId type'')))"

definition handlePending :: "'e sctx \<Rightarrow> abi_val list \<Rightarrow> (SchedErr, sched_output) result" where
  "handlePending ctx args =
     (if length args \<noteq> 1 then Inl (SchedArgErr ''pending: expected 1 arg'')
      else
        (case args ! 0 of
           VAddr creator \<Rightarrow>
             Inr (OutIds (map big_of_u64 (PendingJobIDsByCreator ctx (addr_Bytes creator))))
         | _ \<Rightarrow> Inl (SchedArgErr ''pending: invalid creator type'')))"

definition sched_Run ::
  "'e SchedKeeper \<Rightarrow> Abi \<Rightarrow> ('d \<Rightarrow> addr \<Rightarrow> int \<Rightarrow> 'd) \<Rightarrow> 'e sctx \<Rightarrow> 'd \<Rightarrow> Contract \<Rightarrow> bool \<Rightarrow>
   ('e sctx \<times> 'd) \<times> (SchedErr, sched_output) result" where
  "sched_Run k p SubBalance ctx stateDB contract readOnly =
     (case RunSetup p contract readOnly sched_IsTransaction of
        Inl err \<Rightarrow> ((ctx, stateDB), Inl (SchedArgErr err))
      | Inr (method, args) \<Rightarrow>
          if method = ''schedule'' then handleSchedule k SubBalance ctx stateDB contract args
          else if method = ''cancel'' then
            (let (ctx, r) = handleCancel k ctx contract args in ((ctx, stateDB), r))
          else if method = ''reschedule'' then
            (let (ctx, r) = handleReschedule ctx contract args in ((ctx, stateDB), r))
          else if method = ''getJob'' then ((ctx, stateDB), handleGetJob ctx args)
          else if method = ''pending'' then ((ctx, stateDB), handlePending ctx args)
          else ((ctx, stateDB), Inl (SchedArgErr (''unknown method: '' @ method))))"

section \<open>The module as a transition system\<close>



lemma sched_inv_frame [simp]:
  "sched_inv (ctx\<lparr>env := e\<rparr>) m \<longleftrightarrow> sched_inv ctx m"
  "sched_inv (EmitEvent ctx ev) m \<longleftrightarrow> sched_inv ctx m"
  by (simp_all add: sched_inv_def)

lemma sched_inv_height [simp]:
  "sched_inv (ctx\<lparr>BlockHeight := h\<rparr>) m \<longleftrightarrow> sched_inv ctx m"
  by (simp add: sched_inv_def sched_rep_def sched_counter_def)

lemma new_job_valid [simp]: "job_valid (new_job i a t c b g d)"
  by (simp add: job_valid_def new_job_def)

lemma new_job_sel [simp]:
  "JobID (new_job i a t c b g d) = i" "Deposit (new_job i a t c b g d) = big_String d"
  by (simp_all add: new_job_def)










section \<open>A concrete instance\<close>

text \<open>A keeper over a ledger, with a base fee of one and contracts that return at once; a fresh
  context; and the context after one job of deposit 300 has been stored.\<close>

definition demo_keeper :: "(addr \<Rightarrow> int) SchedKeeper" where
  "demo_keeper = \<lparr>bankKeeper = ledger_bank (\<lambda>_. 0x99),
     CallEVMWithData = (\<lambda>ctx a t d c. (EvmOk (Some 100), ctx)), GetBaseFee = (\<lambda>_. Some 1)\<rparr>"

definition demo_ctx0 :: "(addr \<Rightarrow> int) sctx" where
  "demo_ctx0 = \<lparr>BlockHeight = 10, sstore = [], env = (\<lambda>_. 1000), sevents = []\<rparr>"

definition demo_job :: Job where
  "demo_job = new_job 1 7 8 [] 20 100 300"

definition demo_ctx1 :: "(addr \<Rightarrow> int) sctx" where
  "demo_ctx1 = SetJob (SetNextJobID demo_ctx0 2) demo_job"



lemma sched_inv_empty: "sstore ctx = [] \<Longrightarrow> sched_inv ctx Map.empty"
  by (simp add: sched_inv_def sched_rep_def job_index.rep_empty kv_get_def)

lemma demo_inv0: "sched_inv demo_ctx0 Map.empty"
  by (rule sched_inv_empty) (simp add: demo_ctx0_def)

lemma demo_counter0: "sched_counter demo_ctx0 = None"
  by (simp add: sched_counter_def demo_ctx0_def kv_get_def)

lemma demo_sel [simp]:
  "BlockHeight demo_ctx0 = 10" "env demo_ctx0 = (\<lambda>_. 1000)" "env demo_ctx1 = (\<lambda>_. 1000)"
  "sched_GetParams demo_ctx0 = sched_DefaultParams" "GetBaseFee demo_keeper e = Some 1"
  by (simp_all add: demo_ctx0_def demo_ctx1_def demo_keeper_def sched_GetParams_def kv_get_def)

lemma demo_sel1 [simp]:
  "BlockHeight demo_ctx1 = 10" "sched_GetParams demo_ctx1 = sched_DefaultParams"
proof -
  have "sched_ParamsKey \<noteq> NextJobIDKey"
    by (simp add: sched_key_defs)
  then show "sched_GetParams demo_ctx1 = sched_DefaultParams"
    by (simp add: demo_ctx1_def sched_GetParams_def kv_get_SetJob_other SetNextJobID_def kv_simps)
      (simp add: demo_ctx0_def kv_get_def)
qed (simp add: demo_ctx1_def)

lemma demo_inv1: "sched_inv demo_ctx1 [1 \<mapsto> demo_job]"
  using sched_inv_add [OF demo_inv0, of 1 demo_job]
  by (simp add: demo_counter0 next_id_def demo_ctx1_def demo_job_def)





section \<open>Properties\<close>




text \<open>C7. \<open>Schedule\<close> accepts exactly the requests with a target, a gas limit, an execution block after
  the current one and within the horizon, a creator below the job limit and a deposit of at least gas
  limit times base fee times factor.  It then stores one new job under an identifier nobody had, which
  is the allocator's next one, and keeps every other job; otherwise it changes nothing.\<close>

theorem Schedule_correct:
  fixes k :: "'e SchedKeeper" and creator :: addr
  assumes inv: "sched_inv ctx m" and room: "next_id (sched_counter ctx) + 1 \<noteq> 0"
  defines "i \<equiv> next_id (sched_counter ctx)"
    and "par \<equiv> sched_GetParams ctx"
    and "fee \<equiv> (case GetBaseFee k (env ctx) of None \<Rightarrow> 0 | Some f \<Rightarrow> f)"
    and "mine \<equiv> card {x. \<exists>j. m x = Some j \<and> Creator j = addr_Bytes creator}"
  shows "if target \<noteq> 0 \<and> gasLimit \<noteq> 0 \<and> 0 \<le> d \<and>
        uint gasLimit * fee * uint (MinDepositFactor par) \<le> d \<and>
        BlockHeight ctx < executeAtBlock \<and>
        unat executeAtBlock \<le> unat (BlockHeight ctx) + unat (MaxScheduleHorizon par) \<and>
        mine mod 2 ^ 32 < unat (MaxJobsPerCreator par)
     then \<exists>ctx'. Schedule k ctx creator target callData executeAtBlock gasLimit (Some d) = (ctx', Inr i) \<and>
        m i = None \<and>
        sched_inv ctx' (m(i \<mapsto> new_job i creator target callData executeAtBlock gasLimit d)) \<and>
        env ctx' = env ctx \<and> next_id (sched_counter ctx') = i + 1
     else \<exists>e. Schedule k ctx creator target callData executeAtBlock gasLimit (Some d) = (ctx, Inl e)"
proof -
  have rep: "sched_rep ctx m"
    using inv by (simp add: sched_inv_def)
  have "CountJobsByCreator ctx (addr_Bytes creator) < MaxJobsPerCreator par \<longleftrightarrow>
      mine mod 2 ^ 32 < unat (MaxJobsPerCreator par)"
    by (simp add: CountJobsByCreator_rep [OF rep] mine_def word_less_nat_alt unat_of_nat)
  then have ok: "schedule_ok k ctx creator target executeAtBlock gasLimit d \<longleftrightarrow>
      target \<noteq> 0 \<and> gasLimit \<noteq> 0 \<and> 0 \<le> d \<and> uint gasLimit * fee * uint (MinDepositFactor par) \<le> d \<and>
      BlockHeight ctx < executeAtBlock \<and>
      unat executeAtBlock \<le> unat (BlockHeight ctx) + unat (MaxScheduleHorizon par) \<and>
      mine mod 2 ^ 32 < unat (MaxJobsPerCreator par)"
    by (simp add: schedule_ok_def min_deposit_def big_of_u64_def fee_def par_def)
  let ?j = "new_job i creator target callData executeAtBlock gasLimit d"
  have "sched_inv (SetJob (SetNextJobID ctx (i + 1)) ?j) (m(i \<mapsto> ?j))"
    using inv room unfolding i_def by (intro sched_inv_add) auto
  moreover have "next_id (Some (i + 1)) = i + 1"
    using room by (simp add: i_def next_id_def)
  ultimately show ?thesis
    using Schedule_accept [of k ctx creator target executeAtBlock gasLimit d callData]
      Schedule_reject [of "Some d" k ctx creator target executeAtBlock gasLimit callData]
      next_id_fresh [OF inv]
    unfolding ok [symmetric] i_def [symmetric] by auto
qed

text \<open>At the fresh demonstration context: a job of gas limit 100 and deposit 300 for block 20.\<close>

theorem Schedule_correct_witness:
  "\<exists>ctx'. Schedule demo_keeper demo_ctx0 7 8 [] 20 100 (Some 300) = (ctx', Inr 1) \<and>
     sched_inv ctx' [1 \<mapsto> demo_job]"
  using Schedule_correct [OF demo_inv0, where k = demo_keeper and creator = 7 and target = 8
      and gasLimit = 100 and d = 300 and executeAtBlock = 20 and callData = "[]"]
  by (auto simp: demo_counter0 next_id_def demo_job_def sched_DefaultParams_def)



text \<open>C13. \<open>Reschedule\<close> moves exactly one job, to a block in the future and within the horizon, and only for
  its creator; every other field of it, every other job and all balances stay.  Any other request
  changes nothing.\<close>

theorem Reschedule_correct:
  assumes inv: "sched_inv ctx m"
  shows "if (\<exists>j. m i = Some j \<and> JobActive j \<and> Creator j = addr_Bytes caller) \<and> BlockHeight ctx < b \<and>
        unat b \<le> unat (BlockHeight ctx) + unat (MaxScheduleHorizon (sched_GetParams ctx))
     then \<exists>ctx'. Reschedule ctx caller i b = (ctx', Inr ()) \<and> env ctx' = env ctx \<and>
        sched_inv ctx' (m(i \<mapsto> (the (m i))\<lparr>ExecuteAtBlock := b\<rparr>))
     else \<exists>e. Reschedule ctx caller i b = (ctx, Inl e)"
proof -
  have rep: "sched_rep ctx m"
    using inv by (simp add: sched_inv_def)
  have "reschedule_ok ctx m caller i b \<Longrightarrow>
      \<exists>ctx'. Reschedule ctx caller i b = (ctx', Inr ()) \<and> env ctx' = env ctx \<and>
        sched_inv ctx' (m(i \<mapsto> (the (m i))\<lparr>ExecuteAtBlock := b\<rparr>))"
  proof -
    assume ok: "reschedule_ok ctx m caller i b"
    then obtain j where j: "m i = Some j"
      by (auto simp: reschedule_ok_def)
    have "sched_inv (SetJob (DeleteJob ctx j) (j\<lparr>ExecuteAtBlock := b\<rparr>)) (m(i \<mapsto> j\<lparr>ExecuteAtBlock := b\<rparr>))"
      using inv sched_rep_move [OF rep j] j by (auto simp: sched_inv_def)
    then show ?thesis
      by (simp add: Reschedule_accept [OF rep ok j] j)
  qed
  then show ?thesis
    using Reschedule_reject [OF rep] unfolding reschedule_ok_def by presburger
qed

theorem Reschedule_correct_witness:
  "\<exists>ctx'. Reschedule demo_ctx1 7 1 30 = (ctx', Inr ()) \<and> sched_inv ctx' [1 \<mapsto> demo_job\<lparr>ExecuteAtBlock := 30\<rparr>]"
  using Reschedule_correct [OF demo_inv1, of 1 7 30]
  by (auto simp: sched_DefaultParams_def demo_job_def new_job_def)

text \<open>No operation of the keeper leaves a trace of a rejected request: when \<open>Schedule\<close>, \<open>Cancel\<close> or
  \<open>Reschedule\<close> returns an error the context is the one it was called with, whatever the store holds.\<close>

lemma sched_errors_leave_context:
  "(\<forall>e. snd (Schedule k ctx a t c b g d) = Inl e \<longrightarrow> fst (Schedule k ctx a t c b g d) = ctx) \<and>
   (\<forall>e. snd (Cancel k ctx a i) = Inl e \<longrightarrow> fst (Cancel k ctx a i) = ctx) \<and>
   (\<forall>e. snd (Reschedule ctx a i b) = Inl e \<longrightarrow> fst (Reschedule ctx a i b) = ctx)"
  by (auto simp: Schedule_def Cancel_def Reschedule_def NextJobID_def Let_def
      split: option.splits sum.splits if_splits)

text \<open>C4. The end of a block dispatches exactly the active jobs due at this height, each once, in ascending
  order of identifiers.\<close>

theorem EndBlocker_order:
  assumes rep: "sched_rep ctx m"
  shows "\<exists>js. EndBlocker k ctx = foldl (dispatchJob k) ctx js \<and> sorted_wrt (<) (map JobID js) \<and>
     set js = {j. m (JobID j) = Some j \<and> ExecuteAtBlock j = BlockHeight ctx \<and> JobActive j}"
  using due_jobs [OF rep]
  by (intro exI [of _ "filter JobActive (IterateJobsDueAt ctx (BlockHeight ctx))"])
    (auto simp: EndBlocker_def)

theorem EndBlocker_order_witness:
  "\<exists>js. EndBlocker demo_keeper (demo_ctx1\<lparr>BlockHeight := 20\<rparr>) =
      foldl (dispatchJob demo_keeper) (demo_ctx1\<lparr>BlockHeight := 20\<rparr>) js \<and> set js = {demo_job}"
proof -
  have "sched_rep (demo_ctx1\<lparr>BlockHeight := 20\<rparr>) [1 \<mapsto> demo_job]"
    using demo_inv1 by (simp add: sched_inv_def sched_rep_def)
  then show ?thesis
    using EndBlocker_order [of "demo_ctx1\<lparr>BlockHeight := 20\<rparr>" "[1 \<mapsto> demo_job]" demo_keeper]
    by (auto simp: demo_job_def new_job_def split: if_splits)
qed





interpretation sched_entry: precompile_entry sched_IsTransaction
  "\<lambda>p c contract readOnly. sched_Run k p SubBalance (fst c) (snd c) contract readOnly" for k SubBalance
  by unfold_locales (auto simp: sched_Run_def sched_IsTransaction_def)

text \<open>C5. Export and import of the module state are inverse.  The genesis state exported from a
  context that satisfies the invariant, with valid parameters, passes genesis validation; importing
  it into an empty store succeeds, gives a context with the same jobs and the same next identifier, and
  exporting again gives the same genesis state.\<close>

theorem sched_genesis_roundtrip:
  assumes inv: "sched_inv ctx m" and par: "sched_Params_Validate (sched_GetParams ctx) = Inr ()"
    and st: "sstore ctx0 = []"
  shows "sched_Genesis_Validate (sched_ExportGenesis ctx) = Inr () \<and>
     (\<exists>ctx'. sched_InitGenesis ctx0 (sched_ExportGenesis ctx) = Inr ctx' \<and> sched_inv ctx' m \<and>
        next_id (sched_counter ctx') = next_id (sched_counter ctx) \<and>
        sched_ExportGenesis ctx' = sched_ExportGenesis ctx)"
proof -
  define c where "c = SetNextJobID (ctx0\<lparr>sstore := kv_set [] sched_ParamsKey (SParams (sched_GetParams ctx))\<rparr>)
      (GetNextJobID ctx)"
  define ctx' where "ctx' = foldl SetJob c (GetAllJobs ctx)"
  have init: "sched_InitGenesis ctx0 (sched_ExportGenesis ctx) = Inr ctx'"
    by (simp add: sched_InitGenesis_def sched_ExportGenesis_def sched_SetParams_def par st c_def ctx'_def)
  have rep: "sched_rep ctx m"
    using inv by (simp add: sched_inv_def)
  have other: "kv_get (sstore c) key = None" if "index_key key" for key
    using that by (auto simp: c_def SetNextJobID_def kv_simps) (auto simp: kv_get_def)
  have "kv_wf (sstore c)"
    by (simp add: c_def SetNextJobID_def kv.wf_set del: kv_set.simps)
  then have rep': "sched_rep ctx' m"
    unfolding ctx'_def using other by (rule sched_import_rep [OF rep])
  have counter: "sched_counter ctx' = Some (GetNextJobID ctx)"
    by (simp add: ctx'_def c_def)
  have "sched_ParamsKey \<noteq> NextJobIDKey"
    by (simp add: sched_key_defs)
  then have "kv_get (sstore ctx') sched_ParamsKey = Some (SParams (sched_GetParams ctx))"
    by (simp add: ctx'_def c_def SetNextJobID_def kv_simps del: kv_set.simps)
  then have params: "sched_GetParams ctx' = sched_GetParams ctx"
    by (simp add: sched_GetParams_def [of ctx'])
  have "sched_ExportGenesis ctx' = sched_ExportGenesis ctx"
    by (simp add: sched_ExportGenesis_def params GetAllJobs_rep [OF rep'] GetAllJobs_rep [OF rep]
        GetNextJobID_def [of ctx'] counter)
  moreover have "sched_inv ctx' m"
    using rep' inv by (simp add: sched_inv_def counter)
  ultimately show ?thesis
    using init sched_export_jobs_valid [OF inv]
    by (simp add: counter sched_Genesis_Validate_def par sched_ExportGenesis_def)
qed

theorem sched_genesis_roundtrip_witness:
  "\<exists>ctx'. sched_InitGenesis demo_ctx0 (sched_ExportGenesis demo_ctx1) = Inr ctx' \<and>
     sched_inv ctx' [1 \<mapsto> demo_job]"
  using sched_genesis_roundtrip [OF demo_inv1, of demo_ctx0]
  by (auto simp: sched_Params_Validate_def sched_DefaultParams_def demo_ctx0_def [THEN arg_cong, of sstore])


end
