(* ===== verification/Streams.thy ===== *)
theory Streams
  imports Keepers
begin

text \<open>
  Payment streams: \<open>x/streams\<close> (types, keeper, genesis).  A stream commits a payer to pay a payee a
  rate per second up to a cap; the cap is escrowed when the stream opens, accrual is paid out by
  settlements, and closing returns the rest.

  \<open>'e stctx\<close> is the part of \<open>sdk.Context\<close> the module touches.  Native coins move through the bank
  keeper, other tokens through \<open>erc20Keeper.CallEVM\<close>, which runs token code and therefore maps the whole
  context to a context: the model does not assume that a token leaves the module alone.  The result of
  the call beyond its error is ignored, as in the source.
\<close>

section \<open>Data\<close>

record Stream =
  StreamID :: u64
  Payer :: bytes
  Payee :: bytes
  Token :: bytes
  RatePerSecond :: string
  Cap :: string
  StartTime :: u64
  StopTime :: u64
  Settled :: string
  StreamActive :: bool

record StrmParams =
  GasOpen :: u64
  GasSettle :: u64
  GasClose :: u64
  GasUpdateRate :: u64
  strm_GasView :: u64
  MinDuration :: u64
  MaxStreamsPerPayer :: u32

definition strm_DefaultParams :: StrmParams where
  "strm_DefaultParams = \<lparr>GasOpen = 8000, GasSettle = 4000, GasClose = 5000, GasUpdateRate = 4000,
     strm_GasView = 200, MinDuration = 60, MaxStreamsPerPayer = 4096\<rparr>"

definition strm_Params_Validate :: "StrmParams \<Rightarrow> (string, unit) result" where
  "strm_Params_Validate p =
     (if GasOpen p = 0 then Inl ''gas_open must be > 0''
      else if GasSettle p = 0 then Inl ''gas_settle must be > 0''
      else if GasClose p = 0 then Inl ''gas_close must be > 0''
      else if GasUpdateRate p = 0 then Inl ''gas_update_rate must be > 0''
      else if MinDuration p = 0 then Inl ''min_duration must be > 0''
      else if MaxStreamsPerPayer p = 0 then Inl ''max_streams_per_payer must be > 0''
      else Inr ())"

datatype StrmErr =
    ErrStreamNotFound
  | ErrStrmUnauthorized
  | ErrInvalidPayee
  | ErrInvalidRate
  | ErrInvalidCap
  | ErrInvalidTime
  | ErrStreamInactive
  | ErrMaxStreamsExceeded
  | ErrSelfPayment
  | StrmTransferErr string
  | StrmArgErr string

datatype strm_val = TStream Stream | TMark | TParams StrmParams | TNext u64

datatype strm_event =
    StreamOpened u64 addr addr addr int u64 u64 int
  | StreamSettled u64 addr int int
  | StreamClosed u64 int int
  | StreamRateUpdated u64 string int

record 'e stctx =
  BlockTime :: u64
  tstore :: "strm_val kv"
  tenv :: 'e
  tevents :: "strm_event list"

record 'e StrmKeeper =
  strm_bankKeeper :: "'e BankKeeper"
  CallEVM :: "'e stctx \<Rightarrow> addr \<Rightarrow> addr \<Rightarrow> string \<Rightarrow> abi_val list \<Rightarrow> 'e stctx \<times> (string, unit) result"
  strm_GetModuleAddress :: "string \<Rightarrow> addr"

definition strm_Emit :: "'e stctx \<Rightarrow> strm_event \<Rightarrow> 'e stctx" where
  "strm_Emit ctx ev = ctx\<lparr>tevents := tevents ctx @ [ev]\<rparr>"

section \<open>Store keys\<close>

definition StreamByIDKeyPrefix :: bytes where "StreamByIDKeyPrefix = [1]"
definition PayerStreamPrefix :: bytes where "PayerStreamPrefix = [2]"
definition PayeeStreamPrefix :: bytes where "PayeeStreamPrefix = [3]"
definition strm_ParamsKey :: bytes where "strm_ParamsKey = [4]"
definition NextStreamIDKey :: bytes where "NextStreamIDKey = [5]"

definition StreamByIDKey :: "u64 \<Rightarrow> bytes" where
  "StreamByIDKey streamID = StreamByIDKeyPrefix @ u64_be streamID"

definition PayerStreamKey :: "bytes \<Rightarrow> u64 \<Rightarrow> bytes" where
  "PayerStreamKey payer streamID = PayerStreamPrefix @ payer @ u64_be streamID"

definition PayerStreamsPrefix :: "bytes \<Rightarrow> bytes" where
  "PayerStreamsPrefix payer = PayerStreamPrefix @ payer"

definition PayeeStreamKey :: "bytes \<Rightarrow> u64 \<Rightarrow> bytes" where
  "PayeeStreamKey payee streamID = PayeeStreamPrefix @ payee @ u64_be streamID"

definition PayeeStreamsPrefix :: "bytes \<Rightarrow> bytes" where
  "PayeeStreamsPrefix payee = PayeeStreamPrefix @ payee"

lemmas strm_key_defs =
  StreamByIDKeyPrefix_def PayerStreamPrefix_def PayeeStreamPrefix_def strm_ParamsKey_def
  NextStreamIDKey_def StreamByIDKey_def PayerStreamKey_def PayerStreamsPrefix_def
  PayeeStreamKey_def PayeeStreamsPrefix_def

section \<open>Stream records, iterators, identifier allocation, parameters\<close>

definition SetStream :: "'e stctx \<Rightarrow> Stream \<Rightarrow> 'e stctx" where
  "SetStream ctx s =
     (let st = kv_set (tstore ctx) (StreamByIDKey (StreamID s)) (TStream s);
          st = kv_set st (PayerStreamKey (Payer s) (StreamID s)) TMark;
          st = kv_set st (PayeeStreamKey (Payee s) (StreamID s)) TMark
      in ctx\<lparr>tstore := st\<rparr>)"

definition GetStream :: "'e stctx \<Rightarrow> u64 \<Rightarrow> Stream option" where
  "GetStream ctx streamID =
     (case kv_get (tstore ctx) (StreamByIDKey streamID) of Some (TStream s) \<Rightarrow> Some s | _ \<Rightarrow> None)"

definition DeleteStream :: "'e stctx \<Rightarrow> Stream \<Rightarrow> 'e stctx" where
  "DeleteStream ctx s =
     (let st = kv_delete (tstore ctx) (StreamByIDKey (StreamID s));
          st = kv_delete st (PayerStreamKey (Payer s) (StreamID s));
          st = kv_delete st (PayeeStreamKey (Payee s) (StreamID s))
      in ctx\<lparr>tstore := st\<rparr>)"

definition streamIDsByPrefix :: "'e stctx \<Rightarrow> bytes \<Rightarrow> nat \<Rightarrow> u64 list" where
  "streamIDsByPrefix ctx prefix prefixLen =
     map (\<lambda>e. word_of_nat (be_decode (take 8 (drop prefixLen (fst e)))))
       (filter (\<lambda>e. prefixLen + 8 \<le> length (fst e)) (kv_iter (tstore ctx) prefix))"

definition PayerStreamIDs :: "'e stctx \<Rightarrow> bytes \<Rightarrow> u64 list" where
  "PayerStreamIDs ctx payer = streamIDsByPrefix ctx (PayerStreamsPrefix payer) (1 + length payer)"

definition PayeeStreamIDs :: "'e stctx \<Rightarrow> bytes \<Rightarrow> u64 list" where
  "PayeeStreamIDs ctx payee = streamIDsByPrefix ctx (PayeeStreamsPrefix payee) (1 + length payee)"

definition CountStreamsByPayer :: "'e stctx \<Rightarrow> bytes \<Rightarrow> u32" where
  "CountStreamsByPayer ctx payer =
     foldl (\<lambda>count _. count + 1) 0 (kv_iter (tstore ctx) (PayerStreamsPrefix payer))"

definition strm_counter :: "'e stctx \<Rightarrow> u64 option" where
  "strm_counter ctx =
     (case kv_get (tstore ctx) NextStreamIDKey of Some (TNext n) \<Rightarrow> Some n | _ \<Rightarrow> None)"

definition SetNextStreamID :: "'e stctx \<Rightarrow> u64 \<Rightarrow> 'e stctx" where
  "SetNextStreamID ctx next = ctx\<lparr>tstore := kv_set (tstore ctx) NextStreamIDKey (TNext next)\<rparr>"

definition NextStreamID :: "'e stctx \<Rightarrow> u64 \<times> 'e stctx" where
  "NextStreamID ctx =
     (let next = next_id (strm_counter ctx) in (next, SetNextStreamID ctx (next + 1)))"

definition GetNextStreamID :: "'e stctx \<Rightarrow> u64" where
  "GetNextStreamID ctx = (case strm_counter ctx of None \<Rightarrow> 1 | Some n \<Rightarrow> n)"

definition GetAllStreams :: "'e stctx \<Rightarrow> Stream list" where
  "GetAllStreams ctx =
     List.map_filter (\<lambda>e. case snd e of TStream s \<Rightarrow> Some s | _ \<Rightarrow> None)
       (kv_iter (tstore ctx) StreamByIDKeyPrefix)"

definition strm_GetParams :: "'e stctx \<Rightarrow> StrmParams" where
  "strm_GetParams ctx =
     (case kv_get (tstore ctx) strm_ParamsKey of Some (TParams p) \<Rightarrow> p | _ \<Rightarrow> strm_DefaultParams)"

definition strm_SetParams :: "'e stctx \<Rightarrow> StrmParams \<Rightarrow> (string, 'e stctx) result" where
  "strm_SetParams ctx params =
     (case strm_Params_Validate params of
        Inl e \<Rightarrow> Inl e
      | Inr _ \<Rightarrow> Inr (ctx\<lparr>tstore := kv_set (tstore ctx) strm_ParamsKey (TParams params)\<rparr>))"

section \<open>Escrow and payouts\<close>

definition strm_ModuleAccountName :: string where
  "strm_ModuleAccountName = ''streams''"

definition isNativeToken :: "bytes \<Rightarrow> bool" where
  "isNativeToken token = list_all (\<lambda>b. b = 0) token"

definition escrowFromPayer ::
  "'e StrmKeeper \<Rightarrow> 'e stctx \<Rightarrow> addr \<Rightarrow> bytes \<Rightarrow> int \<Rightarrow> 'e stctx \<times> (StrmErr, unit) result" where
  "escrowFromPayer k ctx payer token amount =
     (if amount \<le> 0 then (ctx, Inr ())
      else if isNativeToken token then
        (case SendCoinsFromAccountToModule (strm_bankKeeper k) (tenv ctx) payer
                strm_ModuleAccountName (DefaultEVMDenom, amount) of
           Inl e \<Rightarrow> (ctx, Inl (StrmTransferErr e))
         | Inr e \<Rightarrow> (ctx\<lparr>tenv := e\<rparr>, Inr ()))
      else
        (let moduleAddr = strm_GetModuleAddress k strm_ModuleAccountName;
             tokenAddr = BytesToAddress token
         in case CallEVM k ctx moduleAddr tokenAddr ''transferFrom''
                   [VAddr payer, VAddr moduleAddr, VBig amount] of
              (ctx, Inl e) \<Rightarrow> (ctx, Inl (StrmTransferErr e))
            | (ctx, Inr _) \<Rightarrow> (ctx, Inr ())))"

definition payOutToPayee ::
  "'e StrmKeeper \<Rightarrow> 'e stctx \<Rightarrow> addr \<Rightarrow> bytes \<Rightarrow> int \<Rightarrow> 'e stctx \<times> (StrmErr, unit) result" where
  "payOutToPayee k ctx payee token amount =
     (if amount \<le> 0 then (ctx, Inr ())
      else if isNativeToken token then
        (case SendCoinsFromModuleToAccount (strm_bankKeeper k) (tenv ctx) strm_ModuleAccountName
                payee (DefaultEVMDenom, amount) of
           Inl e \<Rightarrow> (ctx, Inl (StrmTransferErr e))
         | Inr e \<Rightarrow> (ctx\<lparr>tenv := e\<rparr>, Inr ()))
      else
        (let moduleAddr = strm_GetModuleAddress k strm_ModuleAccountName;
             tokenAddr = BytesToAddress token
         in case CallEVM k ctx moduleAddr tokenAddr ''transfer'' [VAddr payee, VBig amount] of
              (ctx, Inl e) \<Rightarrow> (ctx, Inl (StrmTransferErr e))
            | (ctx, Inr _) \<Rightarrow> (ctx, Inr ())))"

definition refundToPayer ::
  "'e StrmKeeper \<Rightarrow> 'e stctx \<Rightarrow> addr \<Rightarrow> bytes \<Rightarrow> int \<Rightarrow> 'e stctx \<times> (StrmErr, unit) result" where
  "refundToPayer k ctx payer token amount = payOutToPayee k ctx payer token amount"

definition parseAmount :: "string \<Rightarrow> int" where
  "parseAmount s =
     (if s = [] then 0
      else (case big_SetString s of None \<Rightarrow> 0 | Some v \<Rightarrow> if v < 0 then 0 else v))"

section \<open>Open, accrual, Settle, Close, UpdateRate\<close>

definition strm_Open ::
  "'e StrmKeeper \<Rightarrow> 'e stctx \<Rightarrow> addr \<Rightarrow> addr \<Rightarrow> addr \<Rightarrow> int option \<Rightarrow> u64 \<Rightarrow> u64 \<Rightarrow> int option \<Rightarrow>
   'e stctx \<times> (StrmErr, u64) result" where
  "strm_Open k ctx payer payee token ratePerSecond startTime stopTime cap =
     (if payee = 0 then (ctx, Inl ErrInvalidPayee)
      else if payer = payee then (ctx, Inl ErrSelfPayment)
      else
        (case ratePerSecond of
           None \<Rightarrow> (ctx, Inl ErrInvalidRate)
         | Some rate \<Rightarrow>
             if rate \<le> 0 then (ctx, Inl ErrInvalidRate)
             else
               (case cap of
                  None \<Rightarrow> (ctx, Inl ErrInvalidCap)
                | Some cap \<Rightarrow>
                    if cap \<le> 0 then (ctx, Inl ErrInvalidCap)
                    else
                      (let now = BlockTime ctx;
                           startTime = (if startTime = 0 then now else startTime);
                           params = strm_GetParams ctx
                       in
                       if stopTime \<noteq> 0 \<and> stopTime < startTime + MinDuration params
                       then (ctx, Inl ErrInvalidTime)
                       else
                         (let payerBytes = addr_Bytes payer in
                          if MaxStreamsPerPayer params \<le> CountStreamsByPayer ctx payerBytes
                          then (ctx, Inl ErrMaxStreamsExceeded)
                          else
                            (case escrowFromPayer k ctx payer (addr_Bytes token) cap of
                               (ctx, Inl err) \<Rightarrow> (ctx, Inl err)
                             | (ctx, Inr _) \<Rightarrow>
                                 (let (streamID, ctx) = NextStreamID ctx;
                                      stream = \<lparr>StreamID = streamID, Payer = payerBytes,
                                        Payee = addr_Bytes payee, Token = addr_Bytes token,
                                        RatePerSecond = big_String rate, Cap = big_String cap,
                                        StartTime = startTime, StopTime = stopTime,
                                        Settled = ''0'', StreamActive = True\<rparr>;
                                      ctx = SetStream ctx stream;
                                      ctx = strm_Emit ctx (StreamOpened streamID payer payee token
                                        rate startTime stopTime cap)
                                  in (ctx, Inr streamID))))))))"

definition streamAccrued :: "Stream \<Rightarrow> u64 \<Rightarrow> int" where
  "streamAccrued s now =
     (let rate = parseAmount (RatePerSecond s);
          cap = parseAmount (Cap s);
          settled = parseAmount (Settled s);
          eff = (if StopTime s \<noteq> 0 \<and> StopTime s < now then StopTime s else now)
      in
      if eff \<le> StartTime s then 0
      else
        (let elapsed = eff - StartTime s;
             earned = rate * big_of_u64 elapsed;
             earned = (if cap < earned then cap else earned);
             out = earned - settled
         in if out < 0 then 0 else out))"

definition Accrued :: "'e stctx \<Rightarrow> Stream \<Rightarrow> u64 \<Rightarrow> int" where
  "Accrued ctx s now = streamAccrued s now"

definition Settle ::
  "'e StrmKeeper \<Rightarrow> 'e stctx \<Rightarrow> u64 \<Rightarrow> 'e stctx \<times> (StrmErr, int) result" where
  "Settle k ctx streamID =
     (case GetStream ctx streamID of
        None \<Rightarrow> (ctx, Inl ErrStreamNotFound)
      | Some s \<Rightarrow>
          if \<not> StreamActive s then (ctx, Inl ErrStreamInactive)
          else
            (let now = BlockTime ctx;
                 payout = streamAccrued s now
             in
             if payout = 0 then (ctx, Inr 0)
             else
               (let payee = BytesToAddress (Payee s) in
                case payOutToPayee k ctx payee (Token s) payout of
                  (ctx, Inl err) \<Rightarrow> (ctx, Inl err)
                | (ctx, Inr _) \<Rightarrow>
                    (let settled = parseAmount (Settled s) + payout;
                         s = s\<lparr>Settled := big_String settled\<rparr>;
                         ctx = SetStream ctx s;
                         committed = payout;
                         ctx = strm_Emit ctx (StreamSettled streamID payee payout committed)
                     in (ctx, Inr payout)))))"

definition strm_Close ::
  "'e StrmKeeper \<Rightarrow> 'e stctx \<Rightarrow> u64 \<Rightarrow> bytes \<Rightarrow> 'e stctx \<times> (StrmErr, int) result" where
  "strm_Close k ctx streamID caller =
     (case GetStream ctx streamID of
        None \<Rightarrow> (ctx, Inl ErrStreamNotFound)
      | Some s \<Rightarrow>
          if \<not> StreamActive s then (ctx, Inl ErrStreamInactive)
          else if \<not> equalAddress caller (Payer s) \<and> \<not> equalAddress caller (Payee s)
          then (ctx, Inl ErrStrmUnauthorized)
          else
            (let now = BlockTime ctx;
                 payout = streamAccrued s now;
                 payer = BytesToAddress (Payer s);
                 payee = BytesToAddress (Payee s);
                 settle =
                   (if 0 < payout then
                      (case payOutToPayee k ctx payee (Token s) payout of
                         (ctx, Inl err) \<Rightarrow> (ctx, Inl err)
                       | (ctx, Inr _) \<Rightarrow>
                           (ctx, Inr (s\<lparr>Settled := big_String (parseAmount (Settled s) + payout)\<rparr>)))
                    else (ctx, Inr s))
             in
             case settle of
               (ctx, Inl err) \<Rightarrow> (ctx, Inl err)
             | (ctx, Inr s) \<Rightarrow>
                 (let cap = parseAmount (Cap s);
                      settled = parseAmount (Settled s);
                      refund = cap - settled;
                      refund = (if refund < 0 then 0 else refund)
                  in
                  case (if 0 < refund then refundToPayer k ctx payer (Token s) refund
                        else (ctx, Inr ())) of
                    (ctx, Inl err) \<Rightarrow> (ctx, Inl err)
                  | (ctx, Inr _) \<Rightarrow>
                      (let ctx = DeleteStream ctx s;
                           ctx = strm_Emit ctx (StreamClosed streamID payout refund)
                       in (ctx, Inr payout)))))"

definition UpdateRate ::
  "'e StrmKeeper \<Rightarrow> 'e stctx \<Rightarrow> u64 \<Rightarrow> bytes \<Rightarrow> int option \<Rightarrow> 'e stctx \<times> (StrmErr, unit) result" where
  "UpdateRate k ctx streamID caller newRate =
     (case GetStream ctx streamID of
        None \<Rightarrow> (ctx, Inl ErrStreamNotFound)
      | Some s \<Rightarrow>
          if \<not> StreamActive s then (ctx, Inl ErrStreamInactive)
          else if \<not> equalAddress caller (Payer s) then (ctx, Inl ErrStrmUnauthorized)
          else
            (case newRate of
               None \<Rightarrow> (ctx, Inl ErrInvalidRate)
             | Some rate \<Rightarrow>
                 if rate \<le> 0 then (ctx, Inl ErrInvalidRate)
                 else
                   (let now = BlockTime ctx;
                        payout = streamAccrued s now;
                        settle =
                          (if 0 < payout then
                             (case payOutToPayee k ctx (BytesToAddress (Payee s)) (Token s) payout of
                                (ctx, Inl err) \<Rightarrow> (ctx, Inl err)
                              | (ctx, Inr _) \<Rightarrow>
                                  (ctx, Inr (s\<lparr>Settled := big_String (parseAmount (Settled s) + payout)\<rparr>)))
                           else (ctx, Inr s))
                    in
                    case settle of
                      (ctx, Inl err) \<Rightarrow> (ctx, Inl err)
                    | (ctx, Inr s) \<Rightarrow>
                        (let oldRate = RatePerSecond s;
                             s = s\<lparr>RatePerSecond := big_String rate, StartTime := now\<rparr>;
                             ctx = SetStream ctx s;
                             ctx = strm_Emit ctx (StreamRateUpdated streamID oldRate rate)
                         in (ctx, Inr ())))))"

section \<open>Genesis\<close>

record StrmGenesis =
  tgen_Params :: StrmParams
  tgen_NextStreamID :: u64
  tgen_Streams :: "Stream list"

definition strm_DefaultGenesis :: StrmGenesis where
  "strm_DefaultGenesis = \<lparr>tgen_Params = strm_DefaultParams, tgen_NextStreamID = 1, tgen_Streams = []\<rparr>"

primrec strm_validate_streams :: "u64 \<Rightarrow> u64 set \<Rightarrow> Stream list \<Rightarrow> (string, unit) result" where
  "strm_validate_streams next seen [] = Inr ()"
| "strm_validate_streams next seen (s # ss) =
     (if StreamID s = 0 then Inl ''stream has zero id''
      else if StreamID s \<in> seen then Inl ''duplicate stream id in genesis''
      else if next \<le> StreamID s then Inl ''stream id >= next_stream_id''
      else strm_validate_streams next (insert (StreamID s) seen) ss)"

definition strm_Genesis_Validate :: "StrmGenesis \<Rightarrow> (string, unit) result" where
  "strm_Genesis_Validate gs =
     (case strm_Params_Validate (tgen_Params gs) of
        Inl e \<Rightarrow> Inl e
      | Inr _ \<Rightarrow> strm_validate_streams (tgen_NextStreamID gs) {} (tgen_Streams gs))"

definition strm_InitGenesis :: "'e stctx \<Rightarrow> StrmGenesis \<Rightarrow> (string, 'e stctx) result" where
  "strm_InitGenesis ctx gs =
     (case strm_SetParams ctx (tgen_Params gs) of
        Inl e \<Rightarrow> Inl e
      | Inr ctx \<Rightarrow> Inr (foldl SetStream (SetNextStreamID ctx (tgen_NextStreamID gs)) (tgen_Streams gs)))"

definition strm_ExportGenesis :: "'e stctx \<Rightarrow> StrmGenesis" where
  "strm_ExportGenesis ctx =
     \<lparr>tgen_Params = strm_GetParams ctx, tgen_NextStreamID = GetNextStreamID ctx,
      tgen_Streams = GetAllStreams ctx\<rparr>"

section \<open>The store represents a map of streams\<close>

definition strm_ents :: "Stream \<Rightarrow> (bytes \<times> strm_val) list" where
  "strm_ents s =
     [(StreamByIDKey (StreamID s), TStream s),
      (PayerStreamKey (Payer s) (StreamID s), TMark),
      (PayeeStreamKey (Payee s) (StreamID s), TMark)]"

definition strm_valid :: "Stream \<Rightarrow> bool" where
  "strm_valid s \<longleftrightarrow> length (Payer s) = 20 \<and> length (Payee s) = 20"

interpretation strm_index: record_index strm_ents StreamID strm_valid index_key
proof
  fix r r' :: Stream and e
  show "index_key (fst e)" if "strm_valid r" "e \<in> set (strm_ents r)"
    using that by (auto simp: strm_ents_def index_key_def strm_key_defs)
  show "distinct (map fst (strm_ents r))"
    by (simp add: strm_ents_def strm_key_defs)
  show "fst ` set (strm_ents r) \<inter> fst ` set (strm_ents r') = {}"
    if "strm_valid r" "strm_valid r'" "StreamID r \<noteq> StreamID r'"
    using that by (auto simp: strm_ents_def strm_valid_def strm_key_defs u64_be_inject)
qed

definition strm_rep :: "'e stctx \<Rightarrow> (u64 \<rightharpoonup> Stream) \<Rightarrow> bool" where
  "strm_rep ctx m \<longleftrightarrow> represents strm_ents StreamID strm_valid index_key (tstore ctx) m"

lemma SetStream_eq: "SetStream ctx s = ctx\<lparr>tstore := set_record strm_ents (tstore ctx) s\<rparr>"
  by (simp add: SetStream_def set_record_def strm_ents_def)

lemma DeleteStream_eq: "DeleteStream ctx s = ctx\<lparr>tstore := delete_record strm_ents (tstore ctx) s\<rparr>"
  by (simp add: DeleteStream_def delete_record_def strm_ents_def)

text \<open>A stream is written under a new identifier, or over its own earlier version.\<close>

lemma strm_rep_SetStream:
  assumes "strm_rep ctx m" "strm_valid s"
    and "\<And>s'. m (StreamID s) = Some s' \<Longrightarrow> Payer s' = Payer s \<and> Payee s' = Payee s"
  shows "strm_rep (SetStream ctx s) (m(StreamID s \<mapsto> s))"
proof -
  have "fst ` set (strm_ents s') = fst ` set (strm_ents s)" if "m (StreamID s) = Some s'" for s'
    using assms(3) [OF that] strm_index.rep_rid [OF assms(1) [unfolded strm_rep_def] that]
    by (simp add: strm_ents_def)
  then show ?thesis
    using assms(1,2) by (simp add: strm_rep_def SetStream_eq strm_index.rep_set)
qed

lemma strm_rep_DeleteStream:
  assumes "strm_rep ctx m" "m i = Some s" and "StreamID s' = i" "Payer s' = Payer s" "Payee s' = Payee s"
  shows "strm_rep (DeleteStream ctx s') (m(i := None))"
proof -
  have "DeleteStream ctx s' = DeleteStream ctx s"
    using assms strm_index.rep_rid [OF assms(1) [unfolded strm_rep_def] assms(2)]
    by (simp add: DeleteStream_def)
  then show ?thesis
    using assms(1,2) by (simp add: strm_rep_def DeleteStream_eq strm_index.rep_delete)
qed

lemma strm_rep_cong: "tstore ctx' = tstore ctx \<Longrightarrow> strm_rep ctx' m \<longleftrightarrow> strm_rep ctx m"
  by (simp add: strm_rep_def)

lemma strm_rep_StreamID: "strm_rep ctx m \<Longrightarrow> m i = Some s \<Longrightarrow> StreamID s = i"
  unfolding strm_rep_def by (rule strm_index.rep_rid)

lemma strm_rep_valid: "strm_rep ctx m \<Longrightarrow> m i = Some s \<Longrightarrow> strm_valid s"
  unfolding strm_rep_def by (rule strm_index.rep_valid)

lemma GetStream_rep:
  assumes rep: "strm_rep ctx m"
  shows "GetStream ctx i = m i"
proof -
  have "kv_get (tstore ctx) (StreamByIDKey i) = map_option TStream (m i)"
    by (rule strm_index.rep_get_key [OF rep [unfolded strm_rep_def]])
      (auto simp: strm_ents_def index_key_def strm_key_defs u64_be_inject)
  then show ?thesis
    by (simp add: GetStream_def split: option.split)
qed

lemma payer_iter:
  assumes rep: "strm_rep ctx m" and c: "length c = 20"
  shows "kv_iter (tstore ctx) (PayerStreamsPrefix c) =
     map (\<lambda>i. (PayerStreamsPrefix c @ u64_be i, TMark))
       (sorted_list_of_set {i. \<exists>s. m i = Some s \<and> Payer s = c})"
  by (rule strm_index.rep_iter_ids [OF rep [unfolded strm_rep_def]])
    (use c in \<open>auto simp: strm_ents_def strm_valid_def strm_key_defs has_prefix_same_length
       intro: index_key_prefix\<close>)

lemma payee_iter:
  assumes rep: "strm_rep ctx m" and c: "length c = 20"
  shows "kv_iter (tstore ctx) (PayeeStreamsPrefix c) =
     map (\<lambda>i. (PayeeStreamsPrefix c @ u64_be i, TMark))
       (sorted_list_of_set {i. \<exists>s. m i = Some s \<and> Payee s = c})"
  by (rule strm_index.rep_iter_ids [OF rep [unfolded strm_rep_def]])
    (use c in \<open>auto simp: strm_ents_def strm_valid_def strm_key_defs has_prefix_same_length
       intro: index_key_prefix\<close>)

lemma streamIDsByPrefix_map:
  assumes "kv_iter (tstore ctx) p = map (\<lambda>i. (p @ u64_be i, v)) is" and "length p = n"
  shows "streamIDsByPrefix ctx p n = is"
  using assms(2) by (simp add: streamIDsByPrefix_def assms(1) filter_map o_def length_u64_be u64_be_decode)

lemma PayerStreamIDs_rep:
  assumes "strm_rep ctx m" "length c = 20"
  shows "PayerStreamIDs ctx c = sorted_list_of_set {i. \<exists>s. m i = Some s \<and> Payer s = c}"
  unfolding PayerStreamIDs_def
  by (rule streamIDsByPrefix_map [OF payer_iter [OF assms]])
    (simp add: PayerStreamsPrefix_def PayerStreamPrefix_def)

lemma PayeeStreamIDs_rep:
  assumes "strm_rep ctx m" "length c = 20"
  shows "PayeeStreamIDs ctx c = sorted_list_of_set {i. \<exists>s. m i = Some s \<and> Payee s = c}"
  unfolding PayeeStreamIDs_def
  by (rule streamIDsByPrefix_map [OF payee_iter [OF assms]])
    (simp add: PayeeStreamsPrefix_def PayeeStreamPrefix_def)

lemma CountStreamsByPayer_rep:
  assumes "strm_rep ctx m" "length c = 20"
  shows "CountStreamsByPayer ctx c = word_of_nat (card {i. \<exists>s. m i = Some s \<and> Payer s = c})"
  by (simp add: CountStreamsByPayer_def foldl_count payer_iter [OF assms])

lemma GetAllStreams_rep:
  assumes rep: "strm_rep ctx m"
  shows "GetAllStreams ctx = map (\<lambda>i. the (m i)) (sorted_list_of_set (dom m))"
proof -
  have "kv_iter (tstore ctx) StreamByIDKeyPrefix =
     map (\<lambda>i. (StreamByIDKeyPrefix @ u64_be i, TStream (the (m i))))
       (sorted_list_of_set {i. \<exists>s. m i = Some s \<and> True})"
    by (rule strm_index.rep_iter_ids [OF rep [unfolded strm_rep_def]])
      (auto simp: strm_ents_def strm_key_defs intro: index_key_prefix)
  then show ?thesis
    by (simp add: GetAllStreams_def List.map_filter_def dom_def)
qed

section \<open>Accrual\<close>

text \<open>
  \<open>entitled\<close> is the reference for what a stream has earned at a time, on natural numbers: rate times the
  seconds since the start, counted up to the stop time, capped.  The word arithmetic of
  \<open>streamAccrued\<close> computes what of it has not been settled yet.
\<close>

definition entitled :: "Stream \<Rightarrow> u64 \<Rightarrow> int" where
  "entitled s t =
     (let until = (if StopTime s = 0 then unat t else min (unat t) (unat (StopTime s)))
      in min (parseAmount (RatePerSecond s) * int (until - unat (StartTime s))) (parseAmount (Cap s)))"

lemma parseAmount_ge: "0 \<le> parseAmount s"
  by (simp add: parseAmount_def split: option.split)

lemma parseAmount_String [simp]: "0 \<le> d \<Longrightarrow> parseAmount (big_String d) = d"
  by (simp add: parseAmount_def big_String_not_Nil)

lemma entitled_ge: "0 \<le> entitled s t"
  by (simp add: entitled_def Let_def parseAmount_ge)

lemma entitled_le_cap: "entitled s t \<le> parseAmount (Cap s)"
  by (simp add: entitled_def Let_def)

lemma entitled_mono:
  assumes "t \<le> t'"
  shows "entitled s t \<le> entitled s t'"
proof -
  have u: "unat t \<le> unat t'"
    using assms by (simp add: word_le_nat_alt)
  have "parseAmount (RatePerSecond s) * int a \<le> parseAmount (RatePerSecond s) * int b" if "a \<le> b" for a b
    using that by (intro mult_left_mono) (auto simp: parseAmount_ge)
  then show ?thesis
    unfolding entitled_def Let_def using u by (intro min.mono) (auto simp: min_def)
qed

lemma int_unat_diff:
  assumes "b \<le> (a :: u64)"
  shows "big_of_u64 (a - b) = int (unat a - unat b)"
  using assms unat_sub [OF assms] by (metis big_of_u64_def uint_nat)

lemma accrued_entitled: "streamAccrued s t = max 0 (entitled s t - parseAmount (Settled s))"
proof -
  define eff where "eff = (if StopTime s \<noteq> 0 \<and> StopTime s < t then StopTime s else t)"
  have eff: "unat eff = (if StopTime s = 0 then unat t else min (unat t) (unat (StopTime s)))"
    by (auto simp: eff_def word_less_nat_alt)
  show ?thesis
  proof (cases "eff \<le> StartTime s")
    case True
    then have "entitled s t \<le> 0"
      by (simp add: entitled_def Let_def eff [symmetric] word_le_nat_alt)
    then show ?thesis
      using True parseAmount_ge [of "Settled s"]
      by (simp add: streamAccrued_def eff_def [symmetric] Let_def)
  next
    case False
    then have "big_of_u64 (eff - StartTime s) = int (unat eff - unat (StartTime s))"
      by (intro int_unat_diff) simp
    then show ?thesis
      using False by (auto simp: streamAccrued_def eff_def [symmetric] Let_def entitled_def eff [symmetric])
  qed
qed

lemma accrued_ge: "0 \<le> streamAccrued s t"
  by (simp add: accrued_entitled)

lemma settled_accrued:
  "parseAmount (Settled s) + streamAccrued s t = max (parseAmount (Settled s)) (entitled s t)"
  by (simp add: accrued_entitled)

lemma settled_accrued_le_cap:
  "parseAmount (Settled s) \<le> parseAmount (Cap s) \<Longrightarrow>
   parseAmount (Settled s) + streamAccrued s t \<le> parseAmount (Cap s)"
  by (simp add: settled_accrued entitled_le_cap)

text \<open>The stream after a settlement at \<open>t\<close>.\<close>

definition settled_at :: "Stream \<Rightarrow> u64 \<Rightarrow> Stream" where
  "settled_at s t =
     (if streamAccrued s t = 0 then s
      else s\<lparr>Settled := big_String (parseAmount (Settled s) + streamAccrued s t)\<rparr>)"

lemma settled_at_fields [simp]:
  "StreamID (settled_at s t) = StreamID s" "Payer (settled_at s t) = Payer s"
  "Payee (settled_at s t) = Payee s" "Token (settled_at s t) = Token s" "Cap (settled_at s t) = Cap s"
  "RatePerSecond (settled_at s t) = RatePerSecond s" "StartTime (settled_at s t) = StartTime s"
  "StopTime (settled_at s t) = StopTime s" "StreamActive (settled_at s t) = StreamActive s"
  by (simp_all add: settled_at_def)

lemma settled_at_Settled:
  "parseAmount (Settled (settled_at s t)) = parseAmount (Settled s) + streamAccrued s t"
  using parseAmount_ge [of "Settled s"] accrued_ge [of s t] by (simp add: settled_at_def)

lemma entitled_settled_at [simp]: "entitled (settled_at s t) t' = entitled s t'"
  by (simp add: entitled_def)

lemma entitled_cong:
  "RatePerSecond s' = RatePerSecond s \<Longrightarrow> Cap s' = Cap s \<Longrightarrow> StartTime s' = StartTime s \<Longrightarrow>
   StopTime s' = StopTime s \<Longrightarrow> entitled s' t = entitled s t"
  by (simp add: entitled_def)

section \<open>Invariant and escrow accounting\<close>

text \<open>
  \<open>strm_inv\<close>: the store represents \<open>m\<close>, identifiers in use are positive and below the next one, and
  no stream has been paid more than its cap.  \<open>owed\<close> is the part of the caps of the native streams
  not yet paid: what the module account must hold.
\<close>

definition strm_inv :: "'e stctx \<Rightarrow> (u64 \<rightharpoonup> Stream) \<Rightarrow> bool" where
  "strm_inv ctx m \<longleftrightarrow>
     strm_rep ctx m \<and> (\<forall>i \<in> dom m. 0 < i \<and> i < next_id (strm_counter ctx)) \<and>
     (\<forall>i s. m i = Some s \<longrightarrow> parseAmount (Settled s) \<le> parseAmount (Cap s))"

definition stream_owed :: "Stream \<Rightarrow> int" where
  "stream_owed s = (if isNativeToken (Token s) then parseAmount (Cap s) - parseAmount (Settled s) else 0)"

definition owed :: "(u64 \<rightharpoonup> Stream) \<Rightarrow> int" where
  "owed m = (\<Sum>i \<in> dom m. stream_owed (the (m i)))"

lemma owed_empty [simp]: "owed Map.empty = 0"
  by (simp add: owed_def)

lemma owed_remove:
  assumes "m i = Some s"
  shows "owed m = owed (m(i := None)) + stream_owed s"
proof -
  have "i \<in> dom m" using assms by auto
  moreover have "(\<Sum>x \<in> dom m - {i}. stream_owed (the ((m(i := None)) x))) =
      (\<Sum>x \<in> dom m - {i}. stream_owed (the (m x)))"
    by (intro sum.cong) auto
  ultimately show ?thesis
    using assms by (simp add: owed_def sum.remove [of "dom m" i])
qed

lemma owed_upd: "m i = None \<Longrightarrow> owed (m(i \<mapsto> s)) = owed m + stream_owed s"
  using owed_remove [of "m(i \<mapsto> s)" i s] by (simp add: fun_upd_idem)

lemma owed_replace: "m i = Some s \<Longrightarrow> owed (m(i \<mapsto> s')) = owed m - stream_owed s + stream_owed s'"
  using owed_remove [of m i s] owed_remove [of "m(i \<mapsto> s')" i s'] by simp

lemma kv_get_SetStream_other:
  "kv_get (tstore (SetStream ctx s)) NextStreamIDKey = kv_get (tstore ctx) NextStreamIDKey"
  "kv_get (tstore (SetStream ctx s)) strm_ParamsKey = kv_get (tstore ctx) strm_ParamsKey"
  by (simp_all add: SetStream_def kv_simps strm_key_defs)

lemma kv_get_DeleteStream_other:
  "kv_get (tstore (DeleteStream ctx s)) NextStreamIDKey = kv_get (tstore ctx) NextStreamIDKey"
  by (simp add: DeleteStream_def kv_simps strm_key_defs)

lemma strm_counter_frame [simp]:
  "strm_counter (SetStream ctx s) = strm_counter ctx"
  "strm_counter (DeleteStream ctx s) = strm_counter ctx"
  "strm_counter (strm_Emit ctx ev) = strm_counter ctx"
  "strm_counter (SetNextStreamID ctx n) = Some n"
  by (simp_all add: strm_counter_def kv_get_SetStream_other kv_get_DeleteStream_other strm_Emit_def
      SetNextStreamID_def kv_simps)

lemma stctx_frame [simp]:
  "tenv (SetStream ctx s) = tenv ctx" "tenv (DeleteStream ctx s) = tenv ctx"
  "tenv (strm_Emit ctx ev) = tenv ctx" "tenv (SetNextStreamID ctx n) = tenv ctx"
  "BlockTime (SetStream ctx s) = BlockTime ctx" "BlockTime (DeleteStream ctx s) = BlockTime ctx"
  "BlockTime (strm_Emit ctx ev) = BlockTime ctx" "BlockTime (SetNextStreamID ctx n) = BlockTime ctx"
  "tstore (strm_Emit ctx ev) = tstore ctx"
  by (simp_all add: SetStream_def DeleteStream_def strm_Emit_def SetNextStreamID_def Let_def)

lemma strm_inv_cong: "tstore ctx' = tstore ctx \<Longrightarrow> strm_inv ctx' m \<longleftrightarrow> strm_inv ctx m"
  by (simp add: strm_inv_def strm_rep_def strm_counter_def)

lemma strm_inv_Emit [simp]: "strm_inv (strm_Emit ctx ev) m \<longleftrightarrow> strm_inv ctx m"
  by (rule strm_inv_cong) simp

lemma strm_inv_rep: "strm_inv ctx m \<Longrightarrow> strm_rep ctx m"
  by (simp add: strm_inv_def)

lemma strm_inv_replace:
  assumes inv: "strm_inv ctx m" and s: "m i = Some s"
    and s': "StreamID s' = StreamID s" "Payer s' = Payer s" "Payee s' = Payee s"
      "parseAmount (Settled s') \<le> parseAmount (Cap s')"
  shows "strm_inv (SetStream ctx s') (m(i \<mapsto> s'))"
proof -
  have rep: "strm_rep ctx m" and i: "StreamID s = i" and v: "strm_valid s"
    using inv s strm_rep_StreamID strm_rep_valid by (auto simp: strm_inv_def)
  have "strm_rep (SetStream ctx s') (m(StreamID s' \<mapsto> s'))"
    by (rule strm_rep_SetStream [OF rep]) (use s s' i v in \<open>auto simp: strm_valid_def\<close>)
  then show ?thesis
    using inv s s' i by (auto simp: strm_inv_def)
qed

lemma strm_inv_delete:
  assumes inv: "strm_inv ctx m" and s: "m i = Some s"
    and s': "StreamID s' = StreamID s" "Payer s' = Payer s" "Payee s' = Payee s"
  shows "strm_inv (DeleteStream ctx s') (m(i := None))"
proof -
  have rep: "strm_rep ctx m"
    using inv by (rule strm_inv_rep)
  have "strm_rep (DeleteStream ctx s') (m(i := None))"
    by (rule strm_rep_DeleteStream [OF rep s]) (use s' strm_rep_StreamID [OF rep s] in auto)
  then show ?thesis
    using inv by (auto simp: strm_inv_def)
qed

lemma strm_inv_add:
  assumes inv: "strm_inv ctx m" and i: "i = next_id (strm_counter ctx)" and room: "i + 1 \<noteq> 0"
    and s: "strm_valid s" "StreamID s = i" "parseAmount (Settled s) \<le> parseAmount (Cap s)"
  shows "strm_inv (SetStream (SetNextStreamID ctx (i + 1)) s) (m(i \<mapsto> s))"
proof -
  have "m i = None"
    using inv by (auto simp: strm_inv_def i)
  moreover have "strm_rep (SetNextStreamID ctx (i + 1)) m"
    using inv by (simp add: strm_inv_def strm_rep_def SetNextStreamID_def strm_index.rep_frame
        index_key_def NextStreamIDKey_def)
  ultimately have "strm_rep (SetStream (SetNextStreamID ctx (i + 1)) s) (m(i \<mapsto> s))"
    using strm_rep_SetStream [of "SetNextStreamID ctx (i + 1)" m s] s by simp
  moreover have "i < i + 1"
    using room unatSuc [of i] by (simp add: word_less_nat_alt add.commute)
  moreover have "0 < i"
    unfolding i by (rule next_id_pos)
  moreover have "next_id (Some (i + 1)) = i + 1"
    using room by (simp add: next_id_def)
  ultimately show ?thesis
    using inv s(3) by (auto simp: strm_inv_def i [symmetric] intro: less_trans [of _ i])
qed

section \<open>Transfers\<close>

text \<open>
  Hypotheses on other code.  \<open>token_inert\<close>: a call of a token contract leaves the store of this module,
  the block time and at least the native balance of the module account.  \<open>bank_pays\<close>: the bank does
  not refuse a payment the module account has the funds for.
\<close>

definition token_inert :: "'e StrmKeeper \<Rightarrow> ('e \<Rightarrow> addr \<Rightarrow> int) \<Rightarrow> addr \<Rightarrow> bool" where
  "token_inert k bal M \<longleftrightarrow>
     (\<forall>ctx f t meth args. tstore (fst (CallEVM k ctx f t meth args)) = tstore ctx \<and>
        BlockTime (fst (CallEVM k ctx f t meth args)) = BlockTime ctx \<and>
        bal (tenv ctx) M \<le> bal (tenv (fst (CallEVM k ctx f t meth args))) M)"

definition bank_pays :: "'e StrmKeeper \<Rightarrow> (string \<Rightarrow> addr) \<Rightarrow> ('e \<Rightarrow> addr \<Rightarrow> int) \<Rightarrow> bool" where
  "bank_pays k modaddr bal \<longleftrightarrow>
     (\<forall>e a n. 0 < n \<longrightarrow> n \<le> bal e (modaddr strm_ModuleAccountName) \<longrightarrow>
        (\<exists>e'. SendCoinsFromModuleToAccount (strm_bankKeeper k) e strm_ModuleAccountName a
                (DefaultEVMDenom, n) = Inr e'))"

lemma payOut_frame:
  assumes "token_inert k bal M" and "payOutToPayee k ctx a tok n = (c, r)"
  shows "tstore c = tstore ctx" "BlockTime c = BlockTime ctx"
proof -
  have "tstore (fst (payOutToPayee k ctx a tok n)) = tstore ctx \<and>
      BlockTime (fst (payOutToPayee k ctx a tok n)) = BlockTime ctx"
    using assms(1)
    by (simp add: payOutToPayee_def token_inert_def Let_def case_prod_beta split: sum.split)
  then show "tstore c = tstore ctx" "BlockTime c = BlockTime ctx"
    by (simp_all add: assms(2))
qed

lemma payOut_balance:
  assumes inert: "token_inert k bal (modaddr strm_ModuleAccountName)"
    and laws: "bank_laws (strm_bankKeeper k) modaddr bal"
    and pay: "payOutToPayee k ctx a tok n = (c, r)"
  shows "bal (tenv ctx) (modaddr strm_ModuleAccountName) -
      (if r = Inr () \<and> isNativeToken tok then max 0 n else 0) \<le>
     bal (tenv c) (modaddr strm_ModuleAccountName)"
proof (cases "0 < n \<and> isNativeToken tok")
  case True
  then show ?thesis
    using pay bank_laws_out [OF laws]
    by (auto simp: payOutToPayee_def moved_def split: sum.splits)
next
  case False
  then have "bal (tenv ctx) (modaddr strm_ModuleAccountName) \<le>
      bal (tenv (fst (payOutToPayee k ctx a tok n))) (modaddr strm_ModuleAccountName)"
    using inert by (auto simp: payOutToPayee_def token_inert_def Let_def case_prod_beta split: sum.split)
  then show ?thesis
    using False pay by auto
qed

lemma payOut_native_ok:
  assumes "bank_pays k modaddr bal" and "isNativeToken tok"
    and "n \<le> bal (tenv ctx) (modaddr strm_ModuleAccountName)"
  shows "snd (payOutToPayee k ctx a tok n) = Inr ()"
  using assms unfolding bank_pays_def
  by (auto simp: payOutToPayee_def not_le split: sum.split) (metis sum.distinct(1))

lemma be_decode_zeros: "list_all (\<lambda>b. b = 0) bs \<Longrightarrow> be_decode bs = 0"
  by (induction bs rule: rev_induct) auto

lemma be_encode_zero: "list_all (\<lambda>b. b = 0) (be_encode n 0)"
  by (induction n) auto

lemma isNativeToken_addr: "isNativeToken (addr_Bytes a) \<longleftrightarrow> a = 0"
proof
  assume "isNativeToken (addr_Bytes a)"
  then have "BytesToAddress (addr_Bytes a) = 0"
    by (simp add: isNativeToken_def BytesToAddress_def be_decode_zeros)
  then show "a = 0"
    by simp
qed (simp add: isNativeToken_def addr_Bytes_def be_encode_zero)

section \<open>The operations on the map\<close>

definition strm_solvent :: "('e \<Rightarrow> addr \<Rightarrow> int) \<Rightarrow> addr \<Rightarrow> 'e stctx \<Rightarrow> (u64 \<rightharpoonup> Stream) \<Rightarrow> bool" where
  "strm_solvent bal M ctx m \<longleftrightarrow> strm_inv ctx m \<and> owed m \<le> bal (tenv ctx) M"

lemma Settle_eq:
  assumes rep: "strm_rep ctx m" and s: "m i = Some s" "StreamActive s"
  defines "p \<equiv> streamAccrued s (BlockTime ctx)"
  shows "Settle k ctx i =
     (if p = 0 then (ctx, Inr 0)
      else case payOutToPayee k ctx (BytesToAddress (Payee s)) (Token s) p of
        (c, Inl e) \<Rightarrow> (c, Inl e)
      | (c, Inr _) \<Rightarrow> (strm_Emit (SetStream c (settled_at s (BlockTime ctx)))
            (StreamSettled i (BytesToAddress (Payee s)) p p), Inr p))"
  unfolding p_def using s
  by (auto simp: Settle_def GetStream_rep [OF rep] settled_at_def Let_def split: prod.split sum.split)

lemma owed_settled:
  "m i = Some s \<Longrightarrow> owed (m(i \<mapsto> settled_at s t)) =
     owed m - (if isNativeToken (Token s) then streamAccrued s t else 0)"
  by (simp add: owed_replace stream_owed_def settled_at_Settled)

lemma strm_inv_settled:
  assumes inv: "strm_inv ctx m" and s: "m i = Some s" and c: "tstore c = tstore ctx"
  shows "strm_inv (SetStream c (settled_at s t)) (m(i \<mapsto> settled_at s t))"
proof (rule strm_inv_replace [of _ _ i s])
  show "strm_inv c m"
    using inv strm_inv_cong [OF c] by blast
  have "parseAmount (Settled s) \<le> parseAmount (Cap s)"
    using inv s by (simp add: strm_inv_def)
  then show "parseAmount (Settled (settled_at s t)) \<le> parseAmount (Cap (settled_at s t))"
    by (simp add: settled_at_Settled settled_accrued_le_cap)
qed (use s in auto)

lemma Settle_solvent:
  assumes inert: "token_inert k bal (modaddr strm_ModuleAccountName)"
    and laws: "bank_laws (strm_bankKeeper k) modaddr bal"
    and sol: "strm_solvent bal (modaddr strm_ModuleAccountName) ctx m"
  shows "\<exists>m'. strm_solvent bal (modaddr strm_ModuleAccountName) (fst (Settle k ctx i)) m'"
proof -
  let ?M = "modaddr strm_ModuleAccountName"
  have inv: "strm_inv ctx m" and ow: "owed m \<le> bal (tenv ctx) ?M"
    using sol by (auto simp: strm_solvent_def)
  note rep = strm_inv_rep [OF inv]
  show ?thesis
  proof (cases "\<exists>s. m i = Some s \<and> StreamActive s \<and> streamAccrued s (BlockTime ctx) \<noteq> 0")
    case False
    then have "fst (Settle k ctx i) = ctx"
      by (auto simp: Settle_def GetStream_rep [OF rep] split: option.split)
    then show ?thesis using sol by auto
  next
    case True
    then obtain s where s: "m i = Some s" "StreamActive s" and p: "streamAccrued s (BlockTime ctx) \<noteq> 0"
      by blast
    let ?p = "streamAccrued s (BlockTime ctx)"
    obtain c r where pay: "payOutToPayee k ctx (BytesToAddress (Payee s)) (Token s) ?p = (c, r)"
      by fastforce
    note fr = payOut_frame [OF inert pay] and bl = payOut_balance [OF inert laws pay]
    show ?thesis
    proof (cases r)
      case (Inl e)
      then have "strm_solvent bal ?M c m"
        using inv ow bl by (simp add: strm_solvent_def strm_inv_cong [OF fr(1)])
      then show ?thesis
        using p Inl by (auto simp: Settle_eq [OF rep s] pay)
    next
      case (Inr u)
      then have "strm_solvent bal ?M (SetStream c (settled_at s (BlockTime ctx))) (m(i \<mapsto> settled_at s (BlockTime ctx)))"
        using strm_inv_settled [OF inv s(1) fr(1)] ow bl accrued_ge [of s "BlockTime ctx"]
        by (auto simp: strm_solvent_def owed_settled s(1) split: if_splits)
      then show ?thesis
        using p Inr by (auto simp: Settle_eq [OF rep s] pay strm_solvent_def)
    qed
  qed
qed

text \<open>The settlement that \<open>Close\<close> and \<open>UpdateRate\<close> perform before they go on.\<close>

definition final_settle ::
  "'e StrmKeeper \<Rightarrow> 'e stctx \<Rightarrow> Stream \<Rightarrow> 'e stctx \<times> (StrmErr, Stream) result" where
  "final_settle k ctx s =
     (if 0 < streamAccrued s (BlockTime ctx) then
        (case payOutToPayee k ctx (BytesToAddress (Payee s)) (Token s) (streamAccrued s (BlockTime ctx)) of
           (c, Inl e) \<Rightarrow> (c, Inl e)
         | (c, Inr _) \<Rightarrow> (c, Inr (settled_at s (BlockTime ctx))))
      else (ctx, Inr s))"

lemma final_settle_fold:
  "(if 0 < streamAccrued s (BlockTime ctx) then
      (case payOutToPayee k ctx (BytesToAddress (Payee s)) (Token s) (streamAccrued s (BlockTime ctx)) of
         (c, Inl e) \<Rightarrow> (c, Inl e)
       | (c, Inr _) \<Rightarrow>
           (c, Inr (s\<lparr>Settled := big_String (parseAmount (Settled s) + streamAccrued s (BlockTime ctx))\<rparr>)))
    else (ctx, Inr s)) = final_settle k ctx s"
  by (auto simp: final_settle_def settled_at_def split: prod.split sum.split)

lemma final_settle_result:
  assumes inert: "token_inert k bal (modaddr strm_ModuleAccountName)"
    and laws: "bank_laws (strm_bankKeeper k) modaddr bal"
    and fin: "final_settle k ctx s = (c, r)"
  shows "tstore c = tstore ctx" "BlockTime c = BlockTime ctx"
    and "r = Inr s' \<Longrightarrow> s' = settled_at s (BlockTime ctx)"
    and "bal (tenv ctx) (modaddr strm_ModuleAccountName) -
        (if (\<exists>s'. r = Inr s') \<and> isNativeToken (Token s) then streamAccrued s (BlockTime ctx) else 0) \<le>
       bal (tenv c) (modaddr strm_ModuleAccountName)"
proof -
  let ?p = "streamAccrued s (BlockTime ctx)"
  obtain c' r' where pay: "payOutToPayee k ctx (BytesToAddress (Payee s)) (Token s) ?p = (c', r')"
    by fastforce
  note fr = payOut_frame [OF inert pay] and bl = payOut_balance [OF inert laws pay]
  have p: "0 \<le> ?p" by (rule accrued_ge)
  show "tstore c = tstore ctx" "BlockTime c = BlockTime ctx"
    using fin fr by (auto simp: final_settle_def pay split: if_splits sum.splits)
  show "s' = settled_at s (BlockTime ctx)" if "r = Inr s'"
    using that fin p by (auto simp: final_settle_def pay settled_at_def split: if_splits sum.splits)
  show "bal (tenv ctx) (modaddr strm_ModuleAccountName) -
      (if (\<exists>s'. r = Inr s') \<and> isNativeToken (Token s) then ?p else 0) \<le>
     bal (tenv c) (modaddr strm_ModuleAccountName)"
    using fin bl p by (cases r') (auto simp: final_settle_def pay split: if_splits)
qed

lemma stream_owed_ge: "strm_inv ctx m \<Longrightarrow> m i = Some s \<Longrightarrow> 0 \<le> stream_owed s"
  by (auto simp: strm_inv_def stream_owed_def)

lemma stream_owed_le:
  assumes "strm_inv ctx m" and s: "m i = Some s"
  shows "stream_owed s \<le> owed m"
proof -
  have "0 \<le> owed (m(i := None))"
    unfolding owed_def by (intro sum_nonneg) (auto intro: stream_owed_ge [OF assms(1)] split: if_splits)
  then show ?thesis
    using owed_remove [of m i s, OF s] by simp
qed

text \<open>What a successful close leaves, and what it paid.\<close>

definition close_refund :: "Stream \<Rightarrow> u64 \<Rightarrow> int" where
  "close_refund s t = parseAmount (Cap s) - parseAmount (Settled s) - streamAccrued s t"

lemma close_refund_ge:
  "parseAmount (Settled s) \<le> parseAmount (Cap s) \<Longrightarrow> 0 \<le> close_refund s t"
  using settled_accrued_le_cap [of s t] by (simp add: close_refund_def)

definition may_close :: "Stream \<Rightarrow> bytes \<Rightarrow> bool" where
  "may_close s caller \<longleftrightarrow> StreamActive s \<and> (caller = Payer s \<or> caller = Payee s)"

lemma Close_eq:
  assumes inv: "strm_inv ctx m" and s: "m i = Some s" and ok: "may_close s caller"
  shows "strm_Close k ctx i caller =
     (case final_settle k ctx s of
        (c, Inl e) \<Rightarrow> (c, Inl e)
      | (c, Inr s') \<Rightarrow>
          let refund = max 0 (parseAmount (Cap s') - parseAmount (Settled s')) in
          case (if 0 < refund then payOutToPayee k c (BytesToAddress (Payer s)) (Token s') refund
                else (c, Inr ())) of
            (c', Inl e) \<Rightarrow> (c', Inl e)
          | (c', Inr _) \<Rightarrow> (strm_Emit (DeleteStream c' s')
              (StreamClosed i (streamAccrued s (BlockTime ctx)) refund),
              Inr (streamAccrued s (BlockTime ctx))))"
proof -
  have mx: "\<And>x :: int. (if x < 0 then 0 else x) = max 0 x"
    by auto
  show ?thesis
    using s ok unfolding strm_Close_def GetStream_rep [OF strm_inv_rep [OF inv]] refundToPayer_def Let_def
      final_settle_fold may_close_def equalAddress_iff mx
    by auto
qed

lemma Close_reject:
  assumes inv: "strm_inv ctx m" and "\<nexists>s. m i = Some s \<and> may_close s caller"
  shows "\<exists>e. strm_Close k ctx i caller = (ctx, Inl e)"
  using assms(2)
  by (auto simp: strm_Close_def GetStream_rep [OF strm_inv_rep [OF inv]] may_close_def split: option.split)

lemma Close_solvent:
  assumes inert: "token_inert k bal (modaddr strm_ModuleAccountName)"
    and laws: "bank_laws (strm_bankKeeper k) modaddr bal" and pays: "bank_pays k modaddr bal"
    and sol: "strm_solvent bal (modaddr strm_ModuleAccountName) ctx m"
  shows "\<exists>m'. strm_solvent bal (modaddr strm_ModuleAccountName) (fst (strm_Close k ctx i caller)) m'"
proof -
  let ?M = "modaddr strm_ModuleAccountName"
  have inv: "strm_inv ctx m" and ow: "owed m \<le> bal (tenv ctx) ?M"
    using sol by (auto simp: strm_solvent_def)
  show ?thesis
  proof (cases "\<exists>s. m i = Some s \<and> may_close s caller")
    case False
    then show ?thesis
      using Close_reject [OF inv False, of k] sol by auto
  next
    case True
    then obtain s where s: "m i = Some s" and may: "may_close s caller" by blast
    let ?p = "streamAccrued s (BlockTime ctx)" and ?s = "settled_at s (BlockTime ctx)"
    obtain c r where fin: "final_settle k ctx s = (c, r)" by fastforce
    note fr = final_settle_result [OF inert laws fin]
    have invc: "strm_inv c m"
      using inv strm_inv_cong [OF fr(1)] by blast
    have cap: "parseAmount (Settled s) + ?p \<le> parseAmount (Cap s)"
      using inv s by (intro settled_accrued_le_cap) (auto simp: strm_inv_def)
    show ?thesis
    proof (cases r)
      case (Inl e)
      then have "strm_solvent bal ?M c m"
        using invc ow fr(4) by (simp add: strm_solvent_def)
      then show ?thesis
        using Inl by (auto simp: Close_eq [OF inv s may] fin)
    next
      case (Inr s')
      then have s': "s' = ?s" by (rule fr(3))
      let ?ref = "close_refund s (BlockTime ctx)"
      have ref: "max 0 (parseAmount (Cap s') - parseAmount (Settled s')) = ?ref"
        using cap by (simp add: s' settled_at_Settled close_refund_def)
      obtain c2 r2 where pay: "payOutToPayee k c (BytesToAddress (Payer s)) (Token s) ?ref = (c2, r2)"
        by fastforce
      note fr2 = payOut_frame [OF inert pay] and bl2 = payOut_balance [OF inert laws pay]
      have native: "r2 = Inr ()" if "isNativeToken (Token s)"
      proof -
        have "?ref \<le> bal (tenv c) ?M"
          using that fr(4) Inr ow stream_owed_le [OF inv s]
          by (simp add: stream_owed_def close_refund_def)
        then show ?thesis
          using payOut_native_ok [OF pays that, where n = ?ref and ctx = c
              and a = "BytesToAddress (Payer s)"] by (simp add: pay)
      qed
      have zero: "(c2, r2) = (c, Inr ())" if "\<not> 0 < ?ref"
        using that pay by (simp add: payOutToPayee_def)
      have close: "strm_Close k ctx i caller =
          (case r2 of Inl e \<Rightarrow> (c2, Inl e)
           | Inr _ \<Rightarrow> (strm_Emit (DeleteStream c2 ?s) (StreamClosed i ?p ?ref), Inr ?p))"
        unfolding Close_eq [OF inv s may] fin prod.case Inr sum.case ref Let_def
        using zero by (cases "0 < ?ref") (auto simp: s' pay split: sum.splits)
      have inv2: "strm_inv c2 m"
        using invc strm_inv_cong [OF fr2(1)] by blast
      show ?thesis
      proof (cases r2)
        case (Inl e)
        then have "\<not> isNativeToken (Token s)"
          using native by auto
        then have "strm_solvent bal ?M c2 m"
          using inv2 ow fr(4) bl2 Inl by (simp add: strm_solvent_def)
        then show ?thesis
          by (auto simp: close Inl)
      next
        case r2: (Inr u)
        have "strm_inv (DeleteStream c2 ?s) (m(i := None))"
          by (rule strm_inv_delete [OF inv2 s]) auto
        moreover have "owed (m(i := None)) \<le> bal (tenv c2) ?M"
          using ow fr(4) bl2 Inr r2 cap owed_remove [of m i s, OF s]
          by (auto simp: stream_owed_def close_refund_def split: if_splits)
        ultimately show ?thesis
          by (intro exI [of _ "m(i := None)"]) (simp add: close r2 strm_solvent_def)
      qed
    qed
  qed
qed

lemma UpdateRate_solvent:
  assumes inert: "token_inert k bal (modaddr strm_ModuleAccountName)"
    and laws: "bank_laws (strm_bankKeeper k) modaddr bal"
    and sol: "strm_solvent bal (modaddr strm_ModuleAccountName) ctx m"
  shows "\<exists>m'. strm_solvent bal (modaddr strm_ModuleAccountName) (fst (UpdateRate k ctx i caller newRate)) m'"
proof -
  let ?M = "modaddr strm_ModuleAccountName"
  have inv: "strm_inv ctx m" and ow: "owed m \<le> bal (tenv ctx) ?M"
    using sol by (auto simp: strm_solvent_def)
  show ?thesis
  proof (cases "\<exists>s rate. m i = Some s \<and> StreamActive s \<and> caller = Payer s \<and> newRate = Some rate \<and> 0 < rate")
    case False
    then have "fst (UpdateRate k ctx i caller newRate) = ctx"
      by (auto simp: UpdateRate_def GetStream_rep [OF strm_inv_rep [OF inv]] split: option.split)
    then show ?thesis using sol by auto
  next
    case True
    then obtain s rate where s: "m i = Some s" "StreamActive s" "caller = Payer s" "newRate = Some rate" "0 < rate"
      by blast
    obtain c r where fin: "final_settle k ctx s = (c, r)" by fastforce
    note fr = final_settle_result [OF inert laws fin]
    have invc: "strm_inv c m"
      using inv strm_inv_cong [OF fr(1)] by blast
    define s'' where "s'' = (settled_at s (BlockTime ctx))\<lparr>RatePerSecond := big_String rate, StartTime := BlockTime ctx\<rparr>"
    have upd: "UpdateRate k ctx i caller newRate =
        (case r of Inl e \<Rightarrow> (c, Inl e)
         | Inr s' \<Rightarrow> (strm_Emit (SetStream c (s'\<lparr>RatePerSecond := big_String rate, StartTime := BlockTime ctx\<rparr>))
             (StreamRateUpdated i (RatePerSecond s') rate), Inr ()))"
      using s unfolding UpdateRate_def GetStream_rep [OF strm_inv_rep [OF inv]] Let_def final_settle_fold
        equalAddress_iff by (simp add: fin split: sum.split)
    show ?thesis
    proof (cases r)
      case (Inl e)
      then have "strm_solvent bal ?M c m"
        using invc ow fr(4) by (simp add: strm_solvent_def)
      then show ?thesis
        by (auto simp: upd Inl)
    next
      case (Inr s')
      then have s': "s' = settled_at s (BlockTime ctx)" by (rule fr(3))
      have "parseAmount (Settled s) + streamAccrued s (BlockTime ctx) \<le> parseAmount (Cap s)"
        using inv s(1) by (intro settled_accrued_le_cap) (auto simp: strm_inv_def)
      then have "strm_inv (SetStream c s'') (m(i \<mapsto> s''))"
        by (intro strm_inv_replace [OF invc s(1)]) (auto simp: s''_def settled_at_Settled)
      moreover have "owed (m(i \<mapsto> s'')) = owed (m(i \<mapsto> settled_at s (BlockTime ctx)))"
        using s(1) by (simp add: owed_replace s''_def stream_owed_def)
      ultimately have "strm_solvent bal ?M (SetStream c s'') (m(i \<mapsto> s''))"
        using ow fr(4) Inr by (auto simp: strm_solvent_def owed_settled [of m i s, OF s(1)] split: if_splits)
      then show ?thesis
        by (intro exI [of _ "m(i \<mapsto> s'')"]) (simp add: upd Inr s' s''_def [symmetric] strm_solvent_def)
    qed
  qed
qed

text \<open>The conditions under which \<open>Open\<close> goes on to the escrow, and the stream it then stores.\<close>

definition open_ok :: "'e stctx \<Rightarrow> addr \<Rightarrow> addr \<Rightarrow> int \<Rightarrow> u64 \<Rightarrow> u64 \<Rightarrow> int \<Rightarrow> bool" where
  "open_ok ctx payer payee rate startTime stopTime cap \<longleftrightarrow>
     payee \<noteq> 0 \<and> payer \<noteq> payee \<and> 0 < rate \<and> 0 < cap \<and>
     (stopTime = 0 \<or>
      (if startTime = 0 then BlockTime ctx else startTime) + MinDuration (strm_GetParams ctx) \<le> stopTime) \<and>
     CountStreamsByPayer ctx (addr_Bytes payer) < MaxStreamsPerPayer (strm_GetParams ctx)"

definition new_stream :: "u64 \<Rightarrow> addr \<Rightarrow> addr \<Rightarrow> addr \<Rightarrow> int \<Rightarrow> u64 \<Rightarrow> u64 \<Rightarrow> int \<Rightarrow> Stream" where
  "new_stream i payer payee token rate startTime stopTime cap =
     \<lparr>StreamID = i, Payer = addr_Bytes payer, Payee = addr_Bytes payee, Token = addr_Bytes token,
      RatePerSecond = big_String rate, Cap = big_String cap, StartTime = startTime,
      StopTime = stopTime, Settled = ''0'', StreamActive = True\<rparr>"

lemma parseAmount_0 [simp]: "parseAmount ''0'' = 0"
  by code_simp

lemma new_stream_facts:
  "strm_valid (new_stream i payer payee token rate st sp cap)"
  "StreamID (new_stream i payer payee token rate st sp cap) = i"
  "0 \<le> cap \<Longrightarrow> parseAmount (Settled (new_stream i payer payee token rate st sp cap)) \<le>
     parseAmount (Cap (new_stream i payer payee token rate st sp cap))"
  "0 \<le> cap \<Longrightarrow> stream_owed (new_stream i payer payee token rate st sp cap) = (if token = 0 then cap else 0)"
  by (simp_all add: new_stream_def strm_valid_def stream_owed_def isNativeToken_addr)

lemma Open_eq:
  assumes "open_ok ctx payer payee rate startTime stopTime cap"
  defines "st \<equiv> (if startTime = 0 then BlockTime ctx else startTime)"
  shows "strm_Open k ctx payer payee token (Some rate) startTime stopTime (Some cap) =
     (case escrowFromPayer k ctx payer (addr_Bytes token) cap of
        (c, Inl e) \<Rightarrow> (c, Inl e)
      | (c, Inr _) \<Rightarrow>
          let i = next_id (strm_counter c) in
          (strm_Emit (SetStream (SetNextStreamID c (i + 1)) (new_stream i payer payee token rate st stopTime cap))
             (StreamOpened i payer payee token rate st stopTime cap), Inr i))"
  using assms(1) unfolding st_def
  by (auto simp: open_ok_def strm_Open_def NextStreamID_def new_stream_def Let_def not_le not_less
      split: prod.split sum.split)

lemma Open_reject:
  assumes "\<nexists>rate cap. ratePerSecond = Some rate \<and> capOpt = Some cap \<and>
      open_ok ctx payer payee rate startTime stopTime cap"
  shows "\<exists>e. strm_Open k ctx payer payee token ratePerSecond startTime stopTime capOpt = (ctx, Inl e)"
  using assms
  by (auto simp: open_ok_def strm_Open_def Let_def not_le not_less split: option.split)

lemma escrow_result:
  assumes inert: "token_inert k bal (modaddr strm_ModuleAccountName)"
    and laws: "bank_laws (strm_bankKeeper k) modaddr bal"
    and payer: "payer \<noteq> modaddr strm_ModuleAccountName" and cap: "0 < cap"
    and esc: "escrowFromPayer k ctx payer tok cap = (c, r)"
  shows "tstore c = tstore ctx"
    and "bal (tenv ctx) (modaddr strm_ModuleAccountName) +
        (if r = Inr () \<and> isNativeToken tok then cap else 0) \<le> bal (tenv c) (modaddr strm_ModuleAccountName)"
proof -
  let ?x = "escrowFromPayer k ctx payer tok cap"
  have "tstore (fst ?x) = tstore ctx \<and>
      bal (tenv ctx) (modaddr strm_ModuleAccountName) +
        (if snd ?x = Inr () \<and> isNativeToken tok then cap else 0) \<le>
      bal (tenv (fst ?x)) (modaddr strm_ModuleAccountName)"
    using inert payer cap bank_laws_in [OF laws]
    by (auto simp: escrowFromPayer_def token_inert_def Let_def case_prod_beta moved_def split: sum.split)
  then show "tstore c = tstore ctx" and "bal (tenv ctx) (modaddr strm_ModuleAccountName) +
        (if r = Inr () \<and> isNativeToken tok then cap else 0) \<le> bal (tenv c) (modaddr strm_ModuleAccountName)"
    by (simp_all add: esc)
qed

lemma Open_solvent:
  assumes inert: "token_inert k bal (modaddr strm_ModuleAccountName)"
    and laws: "bank_laws (strm_bankKeeper k) modaddr bal"
    and sol: "strm_solvent bal (modaddr strm_ModuleAccountName) ctx m"
    and payer: "payer \<noteq> modaddr strm_ModuleAccountName"
    and room: "next_id (strm_counter ctx) + 1 \<noteq> 0"
  shows "\<exists>m'. strm_solvent bal (modaddr strm_ModuleAccountName)
     (fst (strm_Open k ctx payer payee token ratePerSecond startTime stopTime capOpt)) m'"
proof (cases "\<exists>rate cap. ratePerSecond = Some rate \<and> capOpt = Some cap \<and>
      open_ok ctx payer payee rate startTime stopTime cap")
  case False
  then show ?thesis
    using Open_reject [OF False, of k token] sol by auto
next
  case True
  let ?M = "modaddr strm_ModuleAccountName"
  have inv: "strm_inv ctx m" and ow: "owed m \<le> bal (tenv ctx) ?M"
    using sol by (auto simp: strm_solvent_def)
  from True obtain rate cap where o: "ratePerSecond = Some rate" "capOpt = Some cap"
      "open_ok ctx payer payee rate startTime stopTime cap" by blast
  then have cap: "0 < cap" by (simp add: open_ok_def)
  define st where "st = (if startTime = 0 then BlockTime ctx else startTime)"
  obtain c r where esc: "escrowFromPayer k ctx payer (addr_Bytes token) cap = (c, r)" by fastforce
  note er = escrow_result [OF inert laws payer cap esc]
  have invc: "strm_inv c m" and cnt: "strm_counter c = strm_counter ctx"
    using inv strm_inv_cong [OF er(1)] er(1) by (auto simp: strm_counter_def)
  let ?i = "next_id (strm_counter ctx)"
  let ?s = "new_stream ?i payer payee token rate st stopTime cap"
  show ?thesis
  proof (cases r)
    case (Inl e)
    then have "strm_solvent bal ?M c m"
      using invc ow er(2) by (simp add: strm_solvent_def)
    then show ?thesis
      by (auto simp: o Open_eq [OF o(3)] esc Inl)
  next
    case (Inr u)
    have "strm_inv (SetStream (SetNextStreamID c (?i + 1)) ?s) (m(?i \<mapsto> ?s))"
      using cap room by (intro strm_inv_add [OF invc]) (auto simp: cnt new_stream_facts)
    moreover have "m ?i = None"
      using inv by (auto simp: strm_inv_def)
    then have "owed (m(?i \<mapsto> ?s)) = owed m + (if token = 0 then cap else 0)"
      using cap by (simp add: owed_upd new_stream_facts)
    ultimately show ?thesis
      using ow er(2) Inr
      by (intro exI [of _ "m(?i \<mapsto> ?s)"])
        (auto simp: o Open_eq [OF o(3)] esc Let_def cnt st_def strm_solvent_def isNativeToken_addr split: if_splits)
  qed
qed

end
