(* ===== verification/Streams_Precompile.thy ===== *)
theory Streams_Precompile
  imports Streams Precompile_Common
begin

text \<open>
  The payment streams precompile (\<open>precompiles/streams/streams.go\<close> and \<open>streams_handlers.go\<close>, address
  0x906): argument decoding, the six handlers, gas and dispatch; then the module as a transition
  system and the properties of the streams.
\<close>

record abiStream =
  as_Id :: int
  as_Payer :: addr
  as_Payee :: addr
  as_Token :: addr
  as_RatePerSecond :: int
  as_Cap :: int
  as_StartTime :: u64
  as_StopTime :: u64
  as_Settled :: int
  as_Active :: bool

datatype strm_output = TOutAmount int | TOutNone | TOutStream abiStream

definition strm_IsTransaction :: "string \<Rightarrow> bool" where
  "strm_IsTransaction method \<longleftrightarrow> method \<in> {''open'', ''settle'', ''close'', ''updateRate''}"

definition strm_RequiredGas :: "Abi \<Rightarrow> bytes \<Rightarrow> u64" where
  "strm_RequiredGas p input =
     (if length input < 4 then 0
      else
        (case MethodById p (take 4 input) of
           Inl _ \<Rightarrow> 0
         | Inr method \<Rightarrow>
             if Name method = ''open'' then 8000
             else if Name method = ''settle'' then 4000
             else if Name method = ''close'' then 5000
             else if Name method = ''updateRate'' then 4000
             else if Name method = ''accrued'' \<or> Name method = ''getStream'' then 200
             else 0))"

definition decodeStreamID :: "string \<Rightarrow> abi_val list \<Rightarrow> (StrmErr, u64) result" where
  "decodeStreamID method args =
     (if length args \<noteq> 1 then Inl (StrmArgErr (method @ '': expected 1 arg''))
      else
        (case args ! 0 of
           VBig streamIDBig \<Rightarrow>
             if \<not> IsUint64 streamIDBig then Inl (StrmArgErr (method @ '': streamId out of uint64 range''))
             else Inr (Uint64 streamIDBig)
         | _ \<Rightarrow> Inl (StrmArgErr (method @ '': invalid streamId type''))))"

definition handleOpen ::
  "'e StrmKeeper \<Rightarrow> 'e stctx \<Rightarrow> Contract \<Rightarrow> abi_val list \<Rightarrow> 'e stctx \<times> (StrmErr, strm_output) result" where
  "handleOpen k ctx contract args =
     (if length args \<noteq> 6 then (ctx, Inl (StrmArgErr ''open: expected 6 args''))
      else
        (case args ! 0 of
           VAddr payee \<Rightarrow>
             (case args ! 1 of
                VAddr token \<Rightarrow>
                  (case args ! 2 of
                     VBig rate \<Rightarrow>
                       (case args ! 3 of
                          VU64 startTime \<Rightarrow>
                            (case args ! 4 of
                               VU64 stopTime \<Rightarrow>
                                 (case args ! 5 of
                                    VBig cap \<Rightarrow>
                                      (case strm_Open k ctx (CallerAddress contract) payee token
                                              (Some rate) startTime stopTime (Some cap) of
                                         (ctx, Inl err) \<Rightarrow> (ctx, Inl err)
                                       | (ctx, Inr streamID) \<Rightarrow>
                                           (ctx, Inr (TOutAmount (big_of_u64 streamID))))
                                  | _ \<Rightarrow> (ctx, Inl (StrmArgErr ''open: invalid cap type'')))
                             | _ \<Rightarrow> (ctx, Inl (StrmArgErr ''open: invalid stopTime type'')))
                        | _ \<Rightarrow> (ctx, Inl (StrmArgErr ''open: invalid startTime type'')))
                   | _ \<Rightarrow> (ctx, Inl (StrmArgErr ''open: invalid ratePerSecond type'')))
              | _ \<Rightarrow> (ctx, Inl (StrmArgErr ''open: invalid token type'')))
         | _ \<Rightarrow> (ctx, Inl (StrmArgErr ''open: invalid payee type''))))"

definition handleSettle ::
  "'e StrmKeeper \<Rightarrow> 'e stctx \<Rightarrow> abi_val list \<Rightarrow> 'e stctx \<times> (StrmErr, strm_output) result" where
  "handleSettle k ctx args =
     (case decodeStreamID ''settle'' args of
        Inl err \<Rightarrow> (ctx, Inl err)
      | Inr streamID \<Rightarrow>
          (case Settle k ctx streamID of
             (ctx, Inl err) \<Rightarrow> (ctx, Inl err)
           | (ctx, Inr paid) \<Rightarrow> (ctx, Inr (TOutAmount paid))))"

definition handleClose ::
  "'e StrmKeeper \<Rightarrow> 'e stctx \<Rightarrow> Contract \<Rightarrow> abi_val list \<Rightarrow> 'e stctx \<times> (StrmErr, strm_output) result" where
  "handleClose k ctx contract args =
     (case decodeStreamID ''close'' args of
        Inl err \<Rightarrow> (ctx, Inl err)
      | Inr streamID \<Rightarrow>
          (case strm_Close k ctx streamID (addr_Bytes (CallerAddress contract)) of
             (ctx, Inl err) \<Rightarrow> (ctx, Inl err)
           | (ctx, Inr finalPaid) \<Rightarrow> (ctx, Inr (TOutAmount finalPaid))))"

definition handleUpdateRate ::
  "'e StrmKeeper \<Rightarrow> 'e stctx \<Rightarrow> Contract \<Rightarrow> abi_val list \<Rightarrow> 'e stctx \<times> (StrmErr, strm_output) result" where
  "handleUpdateRate k ctx contract args =
     (if length args \<noteq> 2 then (ctx, Inl (StrmArgErr ''updateRate: expected 2 args''))
      else
        (case args ! 0 of
           VBig streamIDBig \<Rightarrow>
             if \<not> IsUint64 streamIDBig then (ctx, Inl (StrmArgErr ''updateRate: invalid streamId type''))
             else
               (case args ! 1 of
                  VBig newRate \<Rightarrow>
                    (case UpdateRate k ctx (Uint64 streamIDBig) (addr_Bytes (CallerAddress contract))
                            (Some newRate) of
                       (ctx, Inl err) \<Rightarrow> (ctx, Inl err)
                     | (ctx, Inr _) \<Rightarrow> (ctx, Inr TOutNone))
                | _ \<Rightarrow> (ctx, Inl (StrmArgErr ''updateRate: invalid newRate type'')))
         | _ \<Rightarrow> (ctx, Inl (StrmArgErr ''updateRate: invalid streamId type''))))"

definition handleAccrued :: "'e stctx \<Rightarrow> abi_val list \<Rightarrow> (StrmErr, strm_output) result" where
  "handleAccrued ctx args =
     (case decodeStreamID ''accrued'' args of
        Inl err \<Rightarrow> Inl err
      | Inr streamID \<Rightarrow>
          (case GetStream ctx streamID of
             None \<Rightarrow> Inr (TOutAmount 0)
           | Some s \<Rightarrow> Inr (TOutAmount (Accrued ctx s (BlockTime ctx)))))"

definition handleGetStream :: "'e stctx \<Rightarrow> abi_val list \<Rightarrow> (StrmErr, strm_output) result" where
  "handleGetStream ctx args =
     (case decodeStreamID ''getStream'' args of
        Inl err \<Rightarrow> Inl err
      | Inr streamID \<Rightarrow>
          (case GetStream ctx streamID of
             None \<Rightarrow>
               Inr (TOutStream \<lparr>as_Id = 0, as_Payer = 0, as_Payee = 0, as_Token = 0,
                  as_RatePerSecond = 0, as_Cap = 0, as_StartTime = 0, as_StopTime = 0,
                  as_Settled = 0, as_Active = False\<rparr>)
           | Some s \<Rightarrow>
               (let rate = (case big_SetString (RatePerSecond s) of None \<Rightarrow> 0 | Some v \<Rightarrow> v);
                    cap = (case big_SetString (Cap s) of None \<Rightarrow> 0 | Some v \<Rightarrow> v);
                    settled = (case big_SetString (Settled s) of None \<Rightarrow> 0 | Some v \<Rightarrow> v)
                in Inr (TOutStream \<lparr>as_Id = big_of_u64 (StreamID s),
                     as_Payer = BytesToAddress (Payer s), as_Payee = BytesToAddress (Payee s),
                     as_Token = BytesToAddress (Token s), as_RatePerSecond = rate, as_Cap = cap,
                     as_StartTime = StartTime s, as_StopTime = StopTime s, as_Settled = settled,
                     as_Active = StreamActive s\<rparr>))))"

definition strm_Run ::
  "'e StrmKeeper \<Rightarrow> Abi \<Rightarrow> 'e stctx \<Rightarrow> Contract \<Rightarrow> bool \<Rightarrow> 'e stctx \<times> (StrmErr, strm_output) result" where
  "strm_Run k p ctx contract readOnly =
     (case RunSetup p contract readOnly strm_IsTransaction of
        Inl err \<Rightarrow> (ctx, Inl (StrmArgErr err))
      | Inr (method, args) \<Rightarrow>
          if method = ''open'' then handleOpen k ctx contract args
          else if method = ''settle'' then handleSettle k ctx args
          else if method = ''close'' then handleClose k ctx contract args
          else if method = ''updateRate'' then handleUpdateRate k ctx contract args
          else if method = ''accrued'' then (ctx, handleAccrued ctx args)
          else if method = ''getStream'' then (ctx, handleGetStream ctx args)
          else (ctx, Inl (StrmArgErr (''unknown method: '' @ method))))"

section \<open>The module as a transition system\<close>





section \<open>Native streams\<close>




lemma strm_solvent_time [simp]:
  "strm_solvent bal M (ctx\<lparr>BlockTime := t\<rparr>) m \<longleftrightarrow> strm_solvent bal M ctx m"
  using strm_inv_cong [of "ctx\<lparr>BlockTime := t\<rparr>" ctx] by (simp add: strm_solvent_def)



section \<open>A concrete instance\<close>

text \<open>A keeper over a ledger whose token contracts do nothing, and a stream of 5 coins per second with a
  cap of 1000, from address 7 to address 8, opened at time 100.\<close>

definition sdemo_keeper :: "(addr \<Rightarrow> int) StrmKeeper" where
  "sdemo_keeper = \<lparr>strm_bankKeeper = ledger_bank (\<lambda>_. 0x99),
     CallEVM = (\<lambda>ctx f t meth args. (ctx, Inr ())), strm_GetModuleAddress = (\<lambda>_. 0x99)\<rparr>"

definition sdemo_ctx0 :: "(addr \<Rightarrow> int) stctx" where
  "sdemo_ctx0 = \<lparr>BlockTime = 100, tstore = [], tenv = (\<lambda>_. 5000), tevents = []\<rparr>"

definition sdemo_stream :: Stream where
  "sdemo_stream = new_stream 1 7 8 0 5 100 0 1000"

definition sdemo_ctx1 :: "(addr \<Rightarrow> int) stctx" where
  "sdemo_ctx1 = SetStream (SetNextStreamID sdemo_ctx0 2) sdemo_stream"

text \<open>A bank that refuses to pay address 7, and a token that settles stream 1 again while it is being
  transferred.\<close>

definition refusing_keeper :: "(addr \<Rightarrow> int) StrmKeeper" where
  "refusing_keeper = sdemo_keeper\<lparr>strm_bankKeeper := (ledger_bank (\<lambda>_. 0x99))
     \<lparr>SendCoinsFromModuleToAccount := (\<lambda>b m a (d, n).
        if a = 7 then Inl ''blocked address'' else Inr (moved b 0x99 a n))\<rparr>\<rparr>"

definition token_stream :: Stream where
  "token_stream = new_stream 1 7 8 0x77 5 100 0 1000"

definition token_move :: "(addr \<Rightarrow> int) stctx \<Rightarrow> abi_val list \<Rightarrow> (addr \<Rightarrow> int) stctx" where
  "token_move ctx args =
     (case args of [VAddr a, VBig n] \<Rightarrow> ctx\<lparr>tenv := moved (tenv ctx) 0x99 a n\<rparr> | _ \<Rightarrow> ctx)"

definition hook_keeper :: "(addr \<Rightarrow> int) StrmKeeper" where
  "hook_keeper = sdemo_keeper\<lparr>CallEVM := (\<lambda>ctx f t meth args.
     (if tevents ctx = [] then
        fst (Settle (sdemo_keeper\<lparr>CallEVM := (\<lambda>ctx f t meth args. (token_move ctx args, Inr ()))\<rparr>)
               (token_move ctx args) 1)
      else token_move ctx args, Inr ()))\<rparr>"

lemma strm_inv_empty: "tstore ctx = [] \<Longrightarrow> strm_inv ctx Map.empty"
  by (simp add: strm_inv_def strm_rep_def strm_index.rep_empty kv_get_def)

lemma sdemo_inv0: "strm_inv sdemo_ctx0 Map.empty"
  by (rule strm_inv_empty) (simp add: sdemo_ctx0_def)

lemma sdemo_sel [simp]:
  "strm_counter sdemo_ctx0 = None" "BlockTime sdemo_ctx0 = 100" "BlockTime sdemo_ctx1 = 100"
  "tenv sdemo_ctx0 = (\<lambda>_. 5000)" "tenv sdemo_ctx1 = (\<lambda>_. 5000)"
  "strm_GetParams sdemo_ctx0 = strm_DefaultParams"
  by (simp_all add: strm_counter_def sdemo_ctx1_def strm_GetParams_def sdemo_ctx0_def kv_get_def)

lemma sdemo_inv1: "strm_inv sdemo_ctx1 [1 \<mapsto> sdemo_stream]"
  using strm_inv_add [OF sdemo_inv0, of 1 sdemo_stream]
  by (simp add: next_id_def sdemo_ctx1_def sdemo_stream_def new_stream_facts)





lemma sdemo_stream_sel [simp]:
  "StreamActive sdemo_stream" "isNativeToken (Token sdemo_stream)" "Payer sdemo_stream = addr_Bytes 7"
  "Payee sdemo_stream = addr_Bytes 8" "parseAmount (Settled sdemo_stream) = 0"
  "parseAmount (Cap sdemo_stream) = 1000" "parseAmount (RatePerSecond sdemo_stream) = 5"
  "StartTime sdemo_stream = 100" "StopTime sdemo_stream = 0"
  by (simp_all add: sdemo_stream_def new_stream_def isNativeToken_addr)


section \<open>Properties\<close>



text \<open>C8. Accrual is exact.  The 64-bit computation of \<open>streamAccrued\<close> equals, without any overflow, what
  the stream has earned (rate times elapsed seconds up to the stop time, at most the cap) less what
  was settled, or zero; it never grows beyond the cap and never falls as time passes.\<close>

theorem streamAccrued_exact:
  "streamAccrued s t = max 0 (entitled s t - parseAmount (Settled s)) \<and>
   (parseAmount (Settled s) \<le> parseAmount (Cap s) \<longrightarrow>
      parseAmount (Settled s) + streamAccrued s t \<le> parseAmount (Cap s)) \<and>
   (t \<le> t' \<longrightarrow> streamAccrued s t \<le> streamAccrued s t')"
  using settled_accrued_le_cap [of s t] entitled_mono [of t t' s] by (auto simp: accrued_entitled)

theorem streamAccrued_exact_witness:
  "streamAccrued sdemo_stream 130 = 150 \<and> streamAccrued sdemo_stream 130 \<le> streamAccrued sdemo_stream 1000"
  using streamAccrued_exact [of sdemo_stream 130 1000] by (simp add: entitled_def)





text \<open>C14. Only the payer can change the rate of a stream and only payer or payee can close it: for any other
  caller, and for an unknown or inactive stream, both operations change nothing and return an error.\<close>

theorem strm_unauthorised:
  assumes inv: "strm_inv ctx m"
  shows "((\<nexists>s. m i = Some s \<and> StreamActive s \<and> (caller = Payer s \<or> caller = Payee s)) \<longrightarrow>
      (\<exists>e. strm_Close k ctx i caller = (ctx, Inl e))) \<and>
     ((\<nexists>s. m i = Some s \<and> StreamActive s \<and> caller = Payer s) \<longrightarrow>
      (\<exists>e. UpdateRate k ctx i caller newRate = (ctx, Inl e)))"
  using Close_reject [OF inv, of i caller k]
  by (auto simp: may_close_def UpdateRate_def GetStream_rep [OF strm_inv_rep [OF inv]] split: option.split)

theorem strm_unauthorised_witness:
  "\<exists>e. UpdateRate sdemo_keeper sdemo_ctx1 1 (addr_Bytes 8) (Some 9) = (sdemo_ctx1, Inl e)"
  using strm_unauthorised [OF sdemo_inv1, of 1 "addr_Bytes 8" sdemo_keeper "Some 9"]
  by (auto simp: addr_Bytes_inject)



text \<open>C15. The payer and payee indexes list exactly the streams of an address, in ascending order of
  identifiers, for every address and every state that satisfies the invariant.\<close>

theorem stream_views_correct:
  assumes "strm_inv ctx m"
  shows "PayerStreamIDs ctx (addr_Bytes a) = sorted_list_of_set {i. \<exists>s. m i = Some s \<and> Payer s = addr_Bytes a} \<and>
     PayeeStreamIDs ctx (addr_Bytes a) = sorted_list_of_set {i. \<exists>s. m i = Some s \<and> Payee s = addr_Bytes a} \<and>
     (\<forall>i. GetStream ctx i = m i) \<and> GetAllStreams ctx = map (\<lambda>i. the (m i)) (sorted_list_of_set (dom m))"
  using strm_inv_rep [OF assms]
  by (simp add: PayerStreamIDs_rep PayeeStreamIDs_rep GetStream_rep GetAllStreams_rep)

theorem stream_views_correct_witness:
  "PayerStreamIDs sdemo_ctx1 (addr_Bytes 7) = [1] \<and> PayeeStreamIDs sdemo_ctx1 (addr_Bytes 7) = [] \<and>
   GetStream sdemo_ctx1 1 = Some sdemo_stream"
proof -
  have "{i. \<exists>s. [1 \<mapsto> sdemo_stream] i = Some s \<and> Payer s = addr_Bytes 7} = {1}"
    "{i. \<exists>s. [1 \<mapsto> sdemo_stream] i = Some s \<and> Payee s = addr_Bytes 7} = {}"
    by (auto simp: addr_Bytes_inject split: if_splits)
  then show ?thesis
    using stream_views_correct [OF sdemo_inv1, of 7] by simp
qed

interpretation strm_entry: precompile_entry strm_IsTransaction "\<lambda>p ctx contract readOnly. strm_Run k p ctx contract readOnly" for k
  by unfold_locales (auto simp: strm_Run_def strm_IsTransaction_def)

text \<open>A rate update discards accrual.  \<open>UpdateRate\<close> moves the start of the stream to the present but keeps
  the settled amount, which accrual at the new rate then has to exceed first.  In the demonstration, 500
  of 1000 have been earned at time 200; setting the rate to the 5 per second it already had makes the payee's
  claim 100 seconds later zero, where the unchanged stream would have accrued the documented 500.\<close>

lemma UpdateRate_discards_accrual:
  "map_option (\<lambda>s. streamAccrued s 300)
     (GetStream (fst (UpdateRate sdemo_keeper (sdemo_ctx1\<lparr>BlockTime := 200\<rparr>) 1 (addr_Bytes 7) (Some 5))) 1) = Some 0 \<and>
   map_option (\<lambda>s. streamAccrued s 300)
     (GetStream (fst (Settle sdemo_keeper (sdemo_ctx1\<lparr>BlockTime := 200\<rparr>) 1)) 1) = Some 500"
  by code_simp

text \<open>\<open>Close\<close> pays before it records.  When the refund to the payer is refused after the payee has been
  paid, \<open>Close\<close> returns an error, but the payment stays and the stream is stored as it was: on a context that is
  not rolled back the payee is paid the same accrual by the next call.\<close>

lemma Close_pays_twice_on_refund_failure:
  "(let ctx = sdemo_ctx1\<lparr>BlockTime := 200\<rparr>;
        (ctx1, r1) = strm_Close refusing_keeper ctx 1 (addr_Bytes 8);
        (ctx2, r2) = strm_Close refusing_keeper ctx1 1 (addr_Bytes 8)
    in r1 = Inl (StrmTransferErr ''blocked address'') \<and> r2 = r1 \<and>
       GetStream ctx2 1 = Some sdemo_stream \<and> tenv ctx2 8 = tenv ctx 8 + 500 + 500)"
  by code_simp

text \<open>\<open>Settle\<close> transfers before it updates the record.  A token whose transfer gives control to the payee
  lets the payee settle again inside the transfer: the stream records 500 settled, 1000 have been paid.\<close>

lemma Settle_reentrant_double_payout:
  "(let ctx = SetStream (SetNextStreamID sdemo_ctx0 2) token_stream\<lparr>BlockTime := 200\<rparr>;
        (ctx1, r1) = Settle hook_keeper ctx 1
    in r1 = Inr 500 \<and> tenv ctx1 8 = tenv ctx 8 + 1000 \<and>
       map_option (\<lambda>s. parseAmount (Settled s)) (GetStream ctx1 1) = Some 500)"
  by code_simp

end
