(* ===== verification/Weighted_Median.thy ===== *)
theory Weighted_Median
  imports HP_Prelude "HOL-Library.Multiset"
begin

text \<open>
  The confidence-weighted median that the oracle keeper (\<open>x/paxoracle/keeper/price.go\<close>, \<open>GetMedianPrice\<close>)
  and the oracle precompile (\<open>precompiles/paxspot/oracle/oracle.go\<close>, \<open>aggregate\<close>) both compute: the entries
  are sorted by price with \<open>sort.Slice\<close>, half of the total weight is rounded down, and a walk over the
  sorted entries returns the first price at which the accumulated weight reaches that half.

  \<open>weighted_median_spec\<close> says what the walk computes without mentioning an order; it has at most one
  solution and depends on the multiset of the entries only.  The locale \<open>price_sort\<close> is the contract of
  \<open>sort.Slice\<close>, which is not stable: the result is a permutation in ascending order of price.  Its lemmas
  therefore hold for any order \<open>sort.Slice\<close> may give to entries of equal price.
\<close>

section \<open>The walk\<close>

primrec medianWalk :: "('a \<Rightarrow> int) \<Rightarrow> ('a \<Rightarrow> int) \<Rightarrow> int \<Rightarrow> int \<Rightarrow> int \<Rightarrow> 'a list \<Rightarrow> int" where
  "medianWalk price conf halfWeight cumWeight medianPrice [] = medianPrice"
| "medianWalk price conf halfWeight cumWeight medianPrice (sub # rest) =
     (if halfWeight \<le> cumWeight + conf sub then price sub
      else medianWalk price conf halfWeight (cumWeight + conf sub) medianPrice rest)"

definition totalConfidence :: "('a \<Rightarrow> int) \<Rightarrow> 'a list \<Rightarrow> int" where
  "totalConfidence conf xs = foldl (\<lambda>t sub. t + conf sub) 0 xs"

definition medianOfSorted :: "('a \<Rightarrow> int) \<Rightarrow> ('a \<Rightarrow> int) \<Rightarrow> 'a list \<Rightarrow> int" where
  "medianOfSorted price conf xs =
     medianWalk price conf (big_Div (totalConfidence conf xs) 2) 0 (price (hd xs)) xs"

section \<open>What the walk computes\<close>

definition weight_upto :: "('a \<Rightarrow> int) \<Rightarrow> ('a \<Rightarrow> int) \<Rightarrow> 'a list \<Rightarrow> int \<Rightarrow> int" where
  "weight_upto price conf xs p = (\<Sum>x\<leftarrow>filter (\<lambda>x. price x \<le> p) xs. conf x)"

definition reaches_half :: "('a \<Rightarrow> int) \<Rightarrow> ('a \<Rightarrow> int) \<Rightarrow> int \<Rightarrow> 'a list \<Rightarrow> int \<Rightarrow> bool" where
  "reaches_half price conf half xs p \<longleftrightarrow>
     p \<in> price ` set xs \<and> half \<le> weight_upto price conf xs p \<and>
     (\<forall>q \<in> price ` set xs. q < p \<longrightarrow> weight_upto price conf xs q < half)"

definition weighted_median_spec :: "('a \<Rightarrow> int) \<Rightarrow> ('a \<Rightarrow> int) \<Rightarrow> 'a list \<Rightarrow> int \<Rightarrow> bool" where
  "weighted_median_spec price conf xs p \<longleftrightarrow> reaches_half price conf ((\<Sum>x\<leftarrow>xs. conf x) div 2) xs p"

lemma totalConfidence_sum [simp]: "totalConfidence conf xs = (\<Sum>x\<leftarrow>xs. conf x)"
proof -
  have "foldl (\<lambda>t sub. t + conf sub) a xs = a + (\<Sum>x\<leftarrow>xs. conf x)" for a
    by (induction xs arbitrary: a) auto
  then show ?thesis
    by (simp add: totalConfidence_def)
qed

lemma sum_list_mset: "mset xs = mset ys \<Longrightarrow> (\<Sum>x\<leftarrow>xs. f x) = (\<Sum>x\<leftarrow>ys. (f x :: int))"
  by (metis mset_map sum_mset_sum_list)

lemma weight_upto_mset: "mset xs = mset ys \<Longrightarrow> weight_upto price conf xs p = weight_upto price conf ys p"
  unfolding weight_upto_def by (rule sum_list_mset) simp

lemma weighted_median_spec_mset:
  assumes "mset xs = mset ys"
  shows "weighted_median_spec price conf xs p \<longleftrightarrow> weighted_median_spec price conf ys p"
  unfolding weighted_median_spec_def reaches_half_def
  by (simp add: weight_upto_mset [OF assms] sum_list_mset [OF assms] mset_eq_setD [OF assms])

lemma weighted_median_unique:
  "weighted_median_spec price conf xs p \<Longrightarrow> weighted_median_spec price conf xs q \<Longrightarrow> p = q"
  unfolding weighted_median_spec_def reaches_half_def by (metis linorder_neqE not_less)

lemma sum_filter_le:
  fixes f :: "'a \<Rightarrow> int"
  shows "(\<And>x. x \<in> set xs \<Longrightarrow> 0 \<le> f x) \<Longrightarrow> (\<Sum>x\<leftarrow>filter P xs. f x) \<le> (\<Sum>x\<leftarrow>xs. f x)"
  by (induction xs) (auto simp: add_increasing)

lemma medianWalk_spec:
  assumes "sorted (map price (pre @ xs))" "\<And>x. x \<in> set (pre @ xs) \<Longrightarrow> 0 \<le> conf x" "xs \<noteq> []"
    and "pre \<noteq> [] \<Longrightarrow> (\<Sum>x\<leftarrow>pre. conf x) < half" "half \<le> (\<Sum>x\<leftarrow>pre @ xs. conf x)"
  shows "reaches_half price conf half (pre @ xs) (medianWalk price conf half (\<Sum>x\<leftarrow>pre. conf x) d xs)"
  using assms
proof (induction xs arbitrary: pre)
  case (Cons x xs)
  show ?case
  proof (cases "half \<le> (\<Sum>x\<leftarrow>pre. conf x) + conf x")
    case True
    have below: "price y \<le> price x" if "y \<in> set pre" for y
      using Cons.prems(1) that by (auto simp: sorted_append)
    have above: "price x \<le> price y" if "y \<in> set xs" for y
      using Cons.prems(1) that by (auto simp: sorted_append)
    have "filter (\<lambda>y. price y \<le> price x) pre = pre"
      using below by simp
    moreover have "0 \<le> (\<Sum>y\<leftarrow>filter (\<lambda>y. price y \<le> price x) xs. conf y)"
      using Cons.prems(2) by (intro sum_list_nonneg) auto
    ultimately have "half \<le> weight_upto price conf (pre @ x # xs) (price x)"
      using True by (simp add: weight_upto_def)
    moreover have "weight_upto price conf (pre @ x # xs) (price y) < half"
      if "y \<in> set (pre @ x # xs)" "price y < price x" for y
    proof -
      have "y \<in> set pre"
        using that above by force
      then have "(\<Sum>x\<leftarrow>pre. conf x) < half"
        using Cons.prems(4) by force
      moreover have "filter (\<lambda>z. price z \<le> price y) (x # xs) = []"
        using that(2) above by (fastforce simp: filter_empty_conv)
      then have "weight_upto price conf (pre @ x # xs) (price y) \<le> (\<Sum>x\<leftarrow>pre. conf x)"
        using Cons.prems(2) by (simp add: weight_upto_def sum_filter_le)
      ultimately show ?thesis
        by simp
    qed
    ultimately show ?thesis
      using True by (auto simp: reaches_half_def)
  next
    case False
    then have "xs \<noteq> []"
      using Cons.prems(5) by auto
    with False Cons.IH [of "pre @ [x]"] Cons.prems show ?thesis
      by simp
  qed
qed simp

lemma medianOfSorted_spec:
  assumes "sorted (map price xs)" "\<And>x. x \<in> set xs \<Longrightarrow> 0 \<le> conf x" "xs \<noteq> []"
  shows "weighted_median_spec price conf xs (medianOfSorted price conf xs)"
proof -
  have "0 \<le> (\<Sum>x\<leftarrow>xs. conf x)"
    using assms(2) by (intro sum_list_nonneg) auto
  then show ?thesis
    using medianWalk_spec [of price "[]" xs conf "(\<Sum>x\<leftarrow>xs. conf x) div 2" "price (hd xs)"] assms
    by (simp add: weighted_median_spec_def medianOfSorted_def big_Div_pos)
qed

text \<open>A set of entries whose total weight, rounded down to a half, exceeds the weight of the others keeps the median
  within its own range of prices.\<close>

lemma sum_split_list:
  fixes f :: "'a \<Rightarrow> int"
  shows "(\<Sum>x\<leftarrow>xs. f x) = (\<Sum>x\<leftarrow>filter P xs. f x) + (\<Sum>x\<leftarrow>filter (\<lambda>x. \<not> P x) xs. f x)"
  by (induction xs) auto

lemma sum_filter_mono:
  fixes f :: "'a \<Rightarrow> int"
  shows "(\<And>x. x \<in> set xs \<Longrightarrow> 0 \<le> f x) \<Longrightarrow> (\<And>x. x \<in> set xs \<Longrightarrow> P x \<Longrightarrow> Q x) \<Longrightarrow>
    (\<Sum>x\<leftarrow>filter P xs. f x) \<le> (\<Sum>x\<leftarrow>filter Q xs. f x)"
  by (induction xs) (auto simp: add_increasing)

lemma weighted_median_majority:
  assumes med: "weighted_median_spec price conf xs p" and nonneg: "\<And>x. x \<in> set xs \<Longrightarrow> 0 \<le> conf x"
    and minority: "(\<Sum>x\<leftarrow>filter (\<lambda>x. \<not> honest x) xs. conf x) < (\<Sum>x\<leftarrow>xs. conf x) div 2"
    and range: "\<And>x. x \<in> set xs \<Longrightarrow> honest x \<Longrightarrow> lo \<le> price x \<and> price x \<le> hi"
  shows "lo \<le> p \<and> p \<le> hi"
proof
  let ?T = "\<Sum>x\<leftarrow>xs. conf x" and ?W = "weight_upto price conf xs"
  have *: "?W q \<le> (\<Sum>x\<leftarrow>filter (\<lambda>x. \<not> honest x) xs. conf x)" if "q < lo" for q
    unfolding weight_upto_def using range that by (intro sum_filter_mono nonneg) force+
  show "lo \<le> p"
    using * [of p] minority med by (fastforce simp: weighted_median_spec_def reaches_half_def)
  show "p \<le> hi"
  proof (rule ccontr)
    assume "\<not> p \<le> hi"
    define ps where "ps = filter honest xs"
    have T: "?T = (\<Sum>x\<leftarrow>ps. conf x) + (\<Sum>x\<leftarrow>filter (\<lambda>x. \<not> honest x) xs. conf x)"
      unfolding ps_def by (rule sum_split_list)
    moreover have "0 \<le> (\<Sum>x\<leftarrow>filter (\<lambda>x. \<not> honest x) xs. conf x)"
      using nonneg by (intro sum_list_nonneg) auto
    ultimately have "ps \<noteq> []"
      using minority by auto
    define q where "q = Max (price ` set ps)"
    have "q \<in> price ` set ps" "\<And>x. x \<in> set ps \<Longrightarrow> price x \<le> q"
      unfolding q_def using \<open>ps \<noteq> []\<close> by (auto intro!: Max_in)
    then have "q \<in> price ` set xs" "q \<le> hi" and le: "\<And>x. x \<in> set xs \<Longrightarrow> honest x \<Longrightarrow> price x \<le> q"
      using range by (auto simp: ps_def)
    then have "?W q < ?T div 2"
      using med \<open>\<not> p \<le> hi\<close> by (auto simp: weighted_median_spec_def reaches_half_def)
    moreover have "(\<Sum>x\<leftarrow>ps. conf x) \<le> ?W q"
      unfolding weight_upto_def ps_def using le by (intro sum_filter_mono nonneg) auto
    ultimately show False
      using T minority by linarith
  qed
qed

section \<open>The contract of the sorting routine\<close>

locale price_sort =
  fixes price :: "'a \<Rightarrow> int" and slice_sort :: "'a list \<Rightarrow> 'a list"
  assumes sort_perm: "mset (slice_sort xs) = mset xs"
    and sort_ascending: "sorted (map price (slice_sort xs))"
begin

lemma sort_set: "set (slice_sort xs) = set xs"
  by (rule mset_eq_setD) (rule sort_perm)

lemma sort_length: "length (slice_sort xs) = length xs"
  using sort_perm by (metis size_mset)

lemma sort_Nil: "slice_sort xs = [] \<longleftrightarrow> xs = []"
  using sort_length by (metis length_0_conv)

lemma median_spec:
  assumes "\<And>x. x \<in> set xs \<Longrightarrow> 0 \<le> conf x" "xs \<noteq> []"
  shows "weighted_median_spec price conf xs (medianOfSorted price conf (slice_sort xs))"
  using medianOfSorted_spec [OF sort_ascending, of xs conf] assms
  by (simp add: sort_set sort_Nil weighted_median_spec_mset [OF sort_perm])

text \<open>Any other sorted permutation gives the same median.\<close>

lemma median_any_order:
  assumes "\<And>x. x \<in> set xs \<Longrightarrow> 0 \<le> conf x" "xs \<noteq> []" "mset ys = mset xs" "sorted (map price ys)"
  shows "medianOfSorted price conf ys = medianOfSorted price conf (slice_sort xs)"
proof (rule weighted_median_unique [OF _ median_spec [OF assms(1,2)]])
  have "set ys = set xs"
    using assms(3) by (rule mset_eq_setD)
  moreover from this have "ys \<noteq> []"
    using assms(2) by auto
  ultimately show "weighted_median_spec price conf xs (medianOfSorted price conf ys)"
    using medianOfSorted_spec [OF assms(4), of conf] assms(1,2) weighted_median_spec_mset [OF assms(3)] by auto
qed

lemma median_majority:
  assumes "\<And>x. x \<in> set xs \<Longrightarrow> 0 \<le> conf x" "xs \<noteq> []"
    and "(\<Sum>x\<leftarrow>filter (\<lambda>x. \<not> honest x) xs. conf x) < (\<Sum>x\<leftarrow>xs. conf x) div 2"
    and "\<And>x. x \<in> set xs \<Longrightarrow> honest x \<Longrightarrow> lo \<le> price x \<and> price x \<le> hi"
  shows "lo \<le> medianOfSorted price conf (slice_sort xs) \<and> medianOfSorted price conf (slice_sort xs) \<le> hi"
  by (rule weighted_median_majority [OF median_spec [OF assms(1,2)] assms(1,3,4)])

end

end
