(* ===== verification/Proto_Wire.thy ===== *)
theory Proto_Wire
  imports HP_Prelude
begin

unbundle bit_operations_syntax

text \<open>
  The hand-written protobuf encodings of \<open>MsgSubmitPrice\<close> (\<open>x/paxoracle/types/msgs.go\<close>) and
  \<open>MsgUpdateTEERoots\<close> (\<open>x/attestor/types/msgs.go\<close>).

  The encoders fill a buffer of exactly \<open>Size()\<close> bytes from its end; the part already written is the
  list argument \<open>tail\<close>, and writing one byte at the next lower offset is a \<open>#\<close>.  The decoders walk an \<open>int\<close>
  index over the data.  The conversion \<open>int(length)\<close> of a 64-bit length and the additions to the index are
  those of Go: they wrap, so the index may move backwards and the loop need not end.  The decoders
  therefore take fuel, one unit per field; \<open>None\<close> is running out of it.
\<close>

text \<open>Go strings are byte sequences.\<close>

definition str_bytes :: "string \<Rightarrow> bytes" where
  "str_bytes s = map (\<lambda>c. word_of_nat (of_char c)) s"

definition bytes_str :: "bytes \<Rightarrow> string" where
  "bytes_str bs = map (\<lambda>b. char_of (unat b)) bs"

datatype 'a outcome = OK 'a | Failed string | Panics string

section \<open>Varints and length-delimited fields\<close>

function protoEncodeVarint :: "bytes \<Rightarrow> u64 \<Rightarrow> bytes" where
  "protoEncodeVarint tail v =
     (if 0x80 \<le> v then protoEncodeVarint (ucast ((v AND 0x7f) OR 0x80) # tail) (drop_bit 7 v)
      else ucast v # tail)"
  by pat_completeness auto

lemma unat_drop_bit7: "unat (drop_bit 7 (v :: u64)) = unat v div 128"
  by (simp add: drop_bit_eq_div unat_div_distrib)

termination protoEncodeVarint
  by (relation "measure (\<lambda>(t, v). unat v)") (auto simp: unat_drop_bit7 word_le_nat_alt)

function protoSizeVarint :: "u64 \<Rightarrow> nat" where
  "protoSizeVarint v = (if 0x80 \<le> v then Suc (protoSizeVarint (drop_bit 7 v)) else 1)"
  by pat_completeness auto

termination protoSizeVarint
  by (relation "measure unat") (auto simp: unat_drop_bit7 word_le_nat_alt)

declare protoEncodeVarint.simps [simp del] protoSizeVarint.simps [simp del]

text \<open>The inner loop of the decoders, on the bytes from the current index on.\<close>

primrec read_varint :: "bytes \<Rightarrow> int \<Rightarrow> nat \<Rightarrow> u64 \<Rightarrow> (int \<times> u64) option" where
  "read_varint [] idx shift len = None"
| "read_varint (b # bs) idx shift len =
     (let len = len OR push_bit shift (ucast (b AND 0x7F)) in
      if b < 0x80 then Some (idx + 1, len) else read_varint bs (idx + 1) (shift + 7) len)"

text \<open>\<open>data[lo:hi]\<close>, with the bounds already known not to exceed the length.\<close>

definition slice :: "bytes \<Rightarrow> int \<Rightarrow> int \<Rightarrow> bytes option" where
  "slice data lo hi = (if lo \<le> hi then Some (take (nat (hi - lo)) (drop (nat lo) data)) else None)"

definition put_bytes :: "byte \<Rightarrow> bytes \<Rightarrow> bytes \<Rightarrow> bytes" where
  "put_bytes tag bs tail = tag # protoEncodeVarint (bs @ tail) (word_of_nat (length bs))"

section \<open>\<open>MsgSubmitPrice\<close>\<close>

record MsgSubmitPrice =
  mp_Signer :: string
  mp_MarketId :: bytes
  mp_Price :: string
  mp_Confidence :: string

definition mp_empty :: MsgSubmitPrice where
  "mp_empty = \<lparr>mp_Signer = [], mp_MarketId = [], mp_Price = [], mp_Confidence = []\<rparr>"

definition mp_Marshal :: "MsgSubmitPrice \<Rightarrow> bytes" where
  "mp_Marshal msg =
     (let data = [];
          data = (if 0 < length (mp_Confidence msg) then put_bytes 0x22 (str_bytes (mp_Confidence msg)) data else data);
          data = (if 0 < length (mp_Price msg) then put_bytes 0x1a (str_bytes (mp_Price msg)) data else data);
          data = (if 0 < length (mp_MarketId msg) then put_bytes 0x12 (mp_MarketId msg) data else data);
          data = (if 0 < length (mp_Signer msg) then put_bytes 0x0a (str_bytes (mp_Signer msg)) data else data)
      in data)"

definition field_size :: "nat \<Rightarrow> nat" where
  "field_size l = (if 0 < l then 1 + l + protoSizeVarint (word_of_nat l) else 0)"

definition mp_Size :: "MsgSubmitPrice \<Rightarrow> nat" where
  "mp_Size msg = field_size (length (mp_Signer msg)) + field_size (length (mp_MarketId msg)) +
     field_size (length (mp_Price msg)) + field_size (length (mp_Confidence msg))"

fun mp_Unmarshal_loop :: "nat \<Rightarrow> bytes \<Rightarrow> int \<Rightarrow> MsgSubmitPrice \<Rightarrow> MsgSubmitPrice outcome option" where
  "mp_Unmarshal_loop 0 data idx msg = None"
| "mp_Unmarshal_loop (Suc fuel) data idx msg =
     (let l = int (length data) in
      if \<not> idx < l then Some (OK msg)
      else if idx < 0 then Some (Panics ''index out of range'')
      else
        (let tag = data ! nat idx;
             fieldNum = drop_bit 3 tag;
             wireType = tag AND 7
         in
         if wireType \<noteq> 2 then Some (Failed ''unexpected wire type'')
         else
           (case read_varint (drop (nat (idx + 1)) data) (idx + 1) 0 0 of
              None \<Rightarrow> Some (Failed ''unexpected EOF'')
            | Some (idx, len) \<Rightarrow>
                (let stop = wrap64 (idx + sint len) in
                 if l < stop then Some (Failed ''unexpected EOF'')
                 else if fieldNum = 1 then
                   (case slice data idx stop of
                      None \<Rightarrow> Some (Panics ''slice bounds out of range'')
                    | Some s \<Rightarrow> mp_Unmarshal_loop fuel data stop (msg\<lparr>mp_Signer := bytes_str s\<rparr>))
                 else if fieldNum = 2 then
                   (case slice data idx stop of
                      None \<Rightarrow> Some (Panics ''makeslice: len out of range'')
                    | Some s \<Rightarrow> mp_Unmarshal_loop fuel data stop (msg\<lparr>mp_MarketId := s\<rparr>))
                 else if fieldNum = 3 then
                   (case slice data idx stop of
                      None \<Rightarrow> Some (Panics ''slice bounds out of range'')
                    | Some s \<Rightarrow> mp_Unmarshal_loop fuel data stop (msg\<lparr>mp_Price := bytes_str s\<rparr>))
                 else if fieldNum = 4 then
                   (case slice data idx stop of
                      None \<Rightarrow> Some (Panics ''slice bounds out of range'')
                    | Some s \<Rightarrow> mp_Unmarshal_loop fuel data stop (msg\<lparr>mp_Confidence := bytes_str s\<rparr>))
                 else mp_Unmarshal_loop fuel data stop msg))))"

definition mp_Unmarshal :: "nat \<Rightarrow> bytes \<Rightarrow> MsgSubmitPrice outcome option" where
  "mp_Unmarshal fuel data = mp_Unmarshal_loop fuel data 0 mp_empty"

section \<open>\<open>MsgUpdateTEERoots\<close>\<close>

record MsgUpdateTEERoots =
  mt_Authority :: string
  mt_Family :: u32
  mt_Roots :: "bytes list"

definition mt_empty :: MsgUpdateTEERoots where
  "mt_empty = \<lparr>mt_Authority = [], mt_Family = 0, mt_Roots = []\<rparr>"

definition mt_Marshal :: "MsgUpdateTEERoots \<Rightarrow> bytes" where
  "mt_Marshal msg =
     (let data = foldr (put_bytes 0x1a) (mt_Roots msg) [];
          data = (if mt_Family msg \<noteq> 0 then 0x10 # protoEncodeVarint data (ucast (mt_Family msg)) else data);
          data = (if 0 < length (mt_Authority msg) then put_bytes 0x0a (str_bytes (mt_Authority msg)) data else data)
      in data)"

definition mt_Size :: "MsgUpdateTEERoots \<Rightarrow> nat" where
  "mt_Size msg =
     (if 0 < length (mt_Authority msg)
      then 1 + length (mt_Authority msg) + protoSizeVarint (word_of_nat (length (mt_Authority msg))) else 0) +
     (if mt_Family msg \<noteq> 0 then 1 + protoSizeVarint (ucast (mt_Family msg)) else 0) +
     foldl (\<lambda>n r. n + (1 + length r + protoSizeVarint (word_of_nat (length r)))) 0 (mt_Roots msg)"

fun mt_Unmarshal_loop :: "nat \<Rightarrow> bytes \<Rightarrow> int \<Rightarrow> MsgUpdateTEERoots \<Rightarrow> MsgUpdateTEERoots outcome option" where
  "mt_Unmarshal_loop 0 data idx msg = None"
| "mt_Unmarshal_loop (Suc fuel) data idx msg =
     (let l = int (length data) in
      if \<not> idx < l then Some (OK msg)
      else if idx < 0 then Some (Panics ''index out of range'')
      else
        (let tag = data ! nat idx;
             fieldNum = drop_bit 3 tag;
             wireType = tag AND 7
         in
         if wireType = 0 then
           (case read_varint (drop (nat (idx + 1)) data) (idx + 1) 0 0 of
              None \<Rightarrow> Some (Failed ''unexpected EOF'')
            | Some (idx, v) \<Rightarrow>
                mt_Unmarshal_loop fuel data idx (if fieldNum = 2 then msg\<lparr>mt_Family := ucast v\<rparr> else msg))
         else if wireType = 2 then
           (case read_varint (drop (nat (idx + 1)) data) (idx + 1) 0 0 of
              None \<Rightarrow> Some (Failed ''unexpected EOF'')
            | Some (idx, len) \<Rightarrow>
                (let stop = wrap64 (idx + sint len) in
                 if l < stop then Some (Failed ''unexpected EOF'')
                 else if fieldNum = 1 then
                   (case slice data idx stop of
                      None \<Rightarrow> Some (Panics ''slice bounds out of range'')
                    | Some s \<Rightarrow> mt_Unmarshal_loop fuel data stop (msg\<lparr>mt_Authority := bytes_str s\<rparr>))
                 else if fieldNum = 3 then
                   (case slice data idx stop of
                      None \<Rightarrow> Some (Panics ''makeslice: len out of range'')
                    | Some s \<Rightarrow> mt_Unmarshal_loop fuel data stop (msg\<lparr>mt_Roots := mt_Roots msg @ [s]\<rparr>))
                 else mt_Unmarshal_loop fuel data stop msg))
         else Some (Failed ''unsupported wire type'')))"

definition mt_Unmarshal :: "nat \<Rightarrow> bytes \<Rightarrow> MsgUpdateTEERoots outcome option" where
  "mt_Unmarshal fuel data = mt_Unmarshal_loop fuel data 0 mt_empty"

section \<open>Lemmas on the encodings\<close>

lemma length_str_bytes [simp]: "length (str_bytes s) = length s"
  by (simp add: str_bytes_def)

lemma bytes_str_bytes [simp]: "bytes_str (str_bytes s) = s"
proof -
  have "unat (word_of_nat (of_char c) :: byte) = of_char c" for c
    using nat_of_char_less_256 [of c] by (simp add: unat_of_nat)
  then show ?thesis
    by (simp add: bytes_str_def str_bytes_def o_def)
qed

lemma sint_u64_small: "n < 2 ^ 63 \<Longrightarrow> sint (word_of_nat n :: u64) = int n"
  using wrap64_id [of "int n"] by (simp add: wrap64_def)

lemma length_protoEncodeVarint: "length (protoEncodeVarint tail v) = protoSizeVarint v + length tail"
  by (induction tail v rule: protoEncodeVarint.induct)
    (subst protoEncodeVarint.simps, subst protoSizeVarint.simps, simp)

lemma protoEncodeVarint_small: "v < 0x80 \<Longrightarrow> protoEncodeVarint tail v = ucast v # tail"
  by (subst protoEncodeVarint.simps) (simp add: not_le [symmetric])

lemma read_varint_small:
  assumes "n < 128"
  shows "read_varint (ucast (word_of_nat n :: u64) # bs) idx 0 0 = Some (idx + 1, word_of_nat n)"
proof -
  let ?b = "ucast (word_of_nat n :: u64) :: byte"
  have "?b = word_of_nat n"
    using assms by (simp add: unsigned_of_nat take_bit_nat_eq_self)
  then have b: "unat ?b = n"
    using assms by (simp add: unat_of_nat)
  have m: "?b AND 0x7F = ?b"
  proof -
    have "?b AND 0x7F = take_bit 7 ?b"
      by (simp add: take_bit_eq_mask mask_eq_exp_minus_1)
    also have "\<dots> = ?b"
      using assms b by (simp add: word_unat_eq_iff unsigned_take_bit_eq take_bit_nat_eq_self)
    finally show ?thesis .
  qed
  have "?b < 0x80"
    using assms b by (simp add: word_less_nat_alt)
  moreover have "(ucast ?b :: u64) = word_of_nat n"
    using assms \<open>?b = word_of_nat n\<close> by (simp add: unsigned_of_nat take_bit_nat_eq_self)
  ultimately show ?thesis
    by (simp add: m)
qed

text \<open>A short field in the middle of the data, as the decoders see it.\<close>

lemma put_bytes_small: "length bs < 128 \<Longrightarrow> put_bytes tag bs tail = tag # ucast (word_of_nat (length bs) :: u64) # bs @ tail"
  by (simp add: put_bytes_def protoEncodeVarint_small word_less_nat_alt unat_of_nat)

lemma field_at:
  assumes data: "data = pre @ put_bytes tag bs rest" and bs: "length bs < 128"
  shows "data ! length pre = tag" and "length pre < length data"
    and "read_varint (drop (Suc (length pre)) data) i 0 0 = Some (i + 1, word_of_nat (length bs))"
    and "slice data (2 + int (length pre)) (2 + int (length pre) + int (length bs)) = Some bs"
    and "length pre + 2 + length bs \<le> length data"
proof -
  have d: "data = pre @ tag # ucast (word_of_nat (length bs) :: u64) # bs @ rest"
    using data bs by (simp add: put_bytes_small)
  show "data ! length pre = tag" "length pre < length data" "length pre + 2 + length bs \<le> length data"
    by (simp_all add: d nth_append)
  show "read_varint (drop (Suc (length pre)) data) i 0 0 = Some (i + 1, word_of_nat (length bs))"
    using read_varint_small [OF bs] by (simp add: d)
  have "nat (2 + int (length pre)) = Suc (Suc (length pre))"
    by simp
  then show "slice data (2 + int (length pre)) (2 + int (length pre) + int (length bs)) = Some bs"
    by (simp add: slice_def d)
qed

lemma field_stop:
  assumes "length bs < 128" "int (length data) < 2 ^ 62" "length pre + 2 + length bs \<le> length data"
  shows "wrap64 (2 + int (length pre) + sint (word_of_nat (length bs) :: u64)) = 2 + int (length pre) + int (length bs)"
  using assms by (simp add: sint_u64_small wrap64_id)

definition opt_bytes :: "byte \<Rightarrow> bytes \<Rightarrow> bytes \<Rightarrow> bytes" where
  "opt_bytes tag bs tail = (if bs = [] then tail else put_bytes tag bs tail)"

lemma str_bytes_Nil [simp]: "str_bytes s = [] \<longleftrightarrow> s = []"
  by (simp add: str_bytes_def)

subsection \<open>\<open>MsgSubmitPrice\<close>\<close>

definition mp_put :: "byte \<Rightarrow> bytes \<Rightarrow> MsgSubmitPrice \<Rightarrow> MsgSubmitPrice" where
  "mp_put f bs msg =
     (if f = 1 then msg\<lparr>mp_Signer := bytes_str bs\<rparr>
      else if f = 2 then msg\<lparr>mp_MarketId := bs\<rparr>
      else if f = 3 then msg\<lparr>mp_Price := bytes_str bs\<rparr>
      else if f = 4 then msg\<lparr>mp_Confidence := bytes_str bs\<rparr>
      else msg)"

text \<open>One iteration of the loop: a final outcome, or the next index and message.\<close>

definition mp_iter :: "bytes \<Rightarrow> int \<Rightarrow> MsgSubmitPrice \<Rightarrow> MsgSubmitPrice outcome + int \<times> MsgSubmitPrice" where
  "mp_iter data idx msg =
     (if \<not> idx < int (length data) then Inl (OK msg)
      else if idx < 0 then Inl (Panics ''index out of range'')
      else if data ! nat idx AND 7 \<noteq> 2 then Inl (Failed ''unexpected wire type'')
      else case read_varint (drop (nat (idx + 1)) data) (idx + 1) 0 0 of
          None \<Rightarrow> Inl (Failed ''unexpected EOF'')
        | Some (i, len) \<Rightarrow>
            let stop = wrap64 (i + sint len); f = drop_bit 3 (data ! nat idx) in
            if int (length data) < stop then Inl (Failed ''unexpected EOF'')
            else if f \<notin> {1, 2, 3, 4} then Inr (stop, msg)
            else case slice data i stop of
                None \<Rightarrow> Inl (Panics (if f = 2 then ''makeslice: len out of range''
                  else ''slice bounds out of range''))
              | Some s \<Rightarrow> Inr (stop, mp_put f s msg))"

lemma mp_loop_iter:
  "mp_Unmarshal_loop (Suc f) data idx msg =
     (case mp_iter data idx msg of Inl r \<Rightarrow> Some r | Inr (i, msg') \<Rightarrow> mp_Unmarshal_loop f data i msg')"
  unfolding mp_iter_def mp_put_def
  by (simp add: Let_def split: option.split prod.split if_split)

declare mp_Unmarshal_loop.simps(2) [simp del]

lemma mp_loop_Suc:
  "mp_Unmarshal_loop f data idx msg = Some r \<Longrightarrow> mp_Unmarshal_loop (Suc f) data idx msg = Some r"
proof (induction f arbitrary: idx msg)
  case (Suc f)
  then show ?case
    unfolding mp_loop_iter [of "Suc f" data idx msg] mp_loop_iter [of f data idx msg]
    by (auto split: sum.splits)
qed simp

lemma mp_loop_mono:
  "mp_Unmarshal_loop f data idx msg = Some r \<Longrightarrow> f \<le> g \<Longrightarrow> mp_Unmarshal_loop g data idx msg = Some r"
  by (induction g) (auto simp: le_Suc_eq intro: mp_loop_Suc)

lemma mp_loop_field:
  assumes data: "data = pre @ opt_bytes tag bs rest" and bs: "length bs < 128"
    and len: "int (length data) < 2 ^ 62" and tag: "tag AND 7 = 2" "drop_bit 3 tag \<in> {1, 2, 3, 4}"
    and rest: "mp_Unmarshal_loop f data (int (length (pre @ opt_bytes tag bs [])))
      (if bs = [] then msg else mp_put (drop_bit 3 tag) bs msg) = Some r"
  shows "mp_Unmarshal_loop (Suc f) data (int (length pre)) msg = Some r"
proof (cases "bs = []")
  case True
  then show ?thesis
    using rest by (intro mp_loop_Suc) (simp add: opt_bytes_def)
next
  case False
  then have d: "data = pre @ put_bytes tag bs rest"
    using data by (simp add: opt_bytes_def)
  note at = field_at [OF d bs]
  have "nat (int (length pre) + 1) = Suc (length pre)"
    by simp
  then have "mp_iter data (int (length pre)) msg =
      Inr (2 + int (length pre) + int (length bs), mp_put (drop_bit 3 tag) bs msg)"
    using at tag field_stop [OF bs len at(5)] by (simp add: mp_iter_def Let_def)
  then show ?thesis
    using rest False bs by (simp add: mp_loop_iter opt_bytes_def put_bytes_small add.assoc)
qed

lemma mp_loop_step:
  assumes "mp_Unmarshal_loop f data (int n) msg' = Some r" and "data = pre @ opt_bytes tag bs rest"
    and "length bs < 128" and "int (length data) < 2 ^ 62" and "tag AND 7 = 2"
    and "n = length (pre @ opt_bytes tag bs [])" and "drop_bit 3 tag \<in> {1, 2, 3, 4}"
    and "msg' = (if bs = [] then msg else mp_put (drop_bit 3 tag) bs msg)"
  shows "mp_Unmarshal_loop (Suc f) data (int (length pre)) msg = Some r"
  using assms mp_loop_field [of data pre tag bs rest f msg r] by blast

lemma mp_Marshal_opt:
  "mp_Marshal msg = opt_bytes 0x0a (str_bytes (mp_Signer msg)) (opt_bytes 0x12 (mp_MarketId msg)
     (opt_bytes 0x1a (str_bytes (mp_Price msg)) (opt_bytes 0x22 (str_bytes (mp_Confidence msg)) [])))"
  by (simp add: mp_Marshal_def opt_bytes_def str_bytes_def)

lemma length_opt_bytes: "length (opt_bytes tag bs tail) = field_size (length bs) + length tail"
  by (simp add: opt_bytes_def put_bytes_def length_protoEncodeVarint field_size_def)

definition mp_short :: "MsgSubmitPrice \<Rightarrow> bool" where
  "mp_short msg \<longleftrightarrow> length (mp_Signer msg) < 128 \<and> length (mp_MarketId msg) < 128 \<and>
     length (mp_Price msg) < 128 \<and> length (mp_Confidence msg) < 128"

lemma field_size_small: "l < 128 \<Longrightarrow> field_size l \<le> 129"
  by (simp add: field_size_def protoSizeVarint.simps [of "word_of_nat l"] word_le_nat_alt unat_of_nat)

lemma mp_roundtrip:
  assumes short: "mp_short msg"
  shows "mp_Unmarshal (Suc (Suc (Suc (Suc 1)))) (mp_Marshal msg) = Some (OK msg)"
proof -
  let ?d = "mp_Marshal msg" and ?s = "str_bytes (mp_Signer msg)" and ?i = "mp_MarketId msg"
    and ?p = "str_bytes (mp_Price msg)" and ?c = "str_bytes (mp_Confidence msg)"
  note m = mp_Marshal_opt [of msg]
  have "length ?d \<le> 129 + (129 + (129 + 129))"
    unfolding m length_opt_bytes length_str_bytes using short
    by (intro add_mono) (auto simp: mp_short_def intro: field_size_small)
  then have len: "int (length ?d) < 2 ^ 62"
    by simp
  have b: "length ?s < 128" "length ?i < 128" "length ?p < 128" "length ?c < 128"
    using short by (simp_all add: mp_short_def)
  have split: "opt_bytes t bs r = opt_bytes t bs [] @ r" if "length bs < 128" for t bs r
    using that by (simp add: opt_bytes_def put_bytes_small)
  let ?o = "\<lambda>t bs. opt_bytes t bs []"
  have d: "?d = ?o 0x0a ?s @ ?o 0x12 ?i @ ?o 0x1a ?p @ ?o 0x22 ?c"
    by (simp only: m split [OF b(1), of _ "_ @ _"] split [OF b(2), of _ "_ @ _"]
        split [OF b(3), of _ "opt_bytes _ _ _"])
  have tags: "(0x22 :: byte) AND 7 = 2" "(0x1a :: byte) AND 7 = 2" "(0x12 :: byte) AND 7 = 2"
    "(0x0a :: byte) AND 7 = 2" "drop_bit 3 (0x22 :: byte) = 4" "drop_bit 3 (0x1a :: byte) = 3"
    "drop_bit 3 (0x12 :: byte) = 2" "drop_bit 3 (0x0a :: byte) = 1"
    by code_simp+
  have "mp_Unmarshal_loop 1 ?d (int (length ?d)) msg = Some (OK msg)"
    by (simp add: mp_loop_iter [of 0, simplified] mp_iter_def)
  then have "mp_Unmarshal_loop (Suc 1) ?d (int (length (?o 0x0a ?s @ ?o 0x12 ?i @ ?o 0x1a ?p)))
      (msg\<lparr>mp_Confidence := []\<rparr>) = Some (OK msg)"
    by (rule mp_loop_step [where tag = "0x22" and bs = ?c and rest = "[]", OF _ _ b(4) len tags(1)])
      (simp_all only: d append_assoc, cases msg, auto simp: tags mp_put_def)
  then have "mp_Unmarshal_loop (Suc (Suc 1)) ?d (int (length (?o 0x0a ?s @ ?o 0x12 ?i)))
      (msg\<lparr>mp_Price := [], mp_Confidence := []\<rparr>) = Some (OK msg)"
    by (rule mp_loop_step [where tag = "0x1a" and bs = ?p and rest = "?o 0x22 ?c", OF _ _ b(3) len tags(2)])
      (simp_all only: d append_assoc split [OF b(3), of _ "?o 0x22 ?c"], cases msg, auto simp: tags mp_put_def)
  then have "mp_Unmarshal_loop (Suc (Suc (Suc 1))) ?d (int (length (?o 0x0a ?s)))
      (msg\<lparr>mp_MarketId := [], mp_Price := [], mp_Confidence := []\<rparr>) = Some (OK msg)"
    by (rule mp_loop_step [where tag = "0x12" and bs = ?i and rest = "?o 0x1a ?p @ ?o 0x22 ?c", OF _ _ b(2) len tags(3)])
      (simp_all only: d append_assoc split [OF b(2), of _ "_ @ _"], cases msg, auto simp: tags mp_put_def)
  then have "mp_Unmarshal_loop (Suc (Suc (Suc (Suc 1)))) ?d (int (length ([] :: bytes))) mp_empty = Some (OK msg)"
    by (rule mp_loop_step [where tag = "0x0a" and bs = ?s and rest = "?o 0x12 ?i @ ?o 0x1a ?p @ ?o 0x22 ?c",
          OF _ _ b(1) len tags(4)])
      (simp_all only: d append_assoc append_Nil split [OF b(1), of _ "_ @ _"], cases msg,
        auto simp: tags mp_put_def mp_empty_def)
  then show ?thesis
    by (simp only: mp_Unmarshal_def list.size semiring_1_class.of_nat_0)
qed

subsection \<open>\<open>MsgUpdateTEERoots\<close>\<close>

definition mt_iter ::
  "bytes \<Rightarrow> int \<Rightarrow> MsgUpdateTEERoots \<Rightarrow> MsgUpdateTEERoots outcome + int \<times> MsgUpdateTEERoots" where
  "mt_iter data idx msg =
     (if \<not> idx < int (length data) then Inl (OK msg)
      else if idx < 0 then Inl (Panics ''index out of range'')
      else if data ! nat idx AND 7 \<notin> {0, 2} then Inl (Failed ''unsupported wire type'')
      else case read_varint (drop (nat (idx + 1)) data) (idx + 1) 0 0 of
          None \<Rightarrow> Inl (Failed ''unexpected EOF'')
        | Some (i, len) \<Rightarrow>
            let stop = wrap64 (i + sint len); f = drop_bit 3 (data ! nat idx) in
            if data ! nat idx AND 7 = 0 then Inr (i, if f = 2 then msg\<lparr>mt_Family := ucast len\<rparr> else msg)
            else if int (length data) < stop then Inl (Failed ''unexpected EOF'')
            else if f \<notin> {1, 3} then Inr (stop, msg)
            else case slice data i stop of
                None \<Rightarrow> Inl (Panics (if f = 3 then ''makeslice: len out of range''
                  else ''slice bounds out of range''))
              | Some s \<Rightarrow> Inr (stop, if f = 1 then msg\<lparr>mt_Authority := bytes_str s\<rparr>
                  else msg\<lparr>mt_Roots := mt_Roots msg @ [s]\<rparr>))"

lemma mt_loop_iter:
  "mt_Unmarshal_loop (Suc f) data idx msg =
     (case mt_iter data idx msg of Inl r \<Rightarrow> Some r | Inr (i, msg') \<Rightarrow> mt_Unmarshal_loop f data i msg')"
  unfolding mt_iter_def
  by (simp add: Let_def split: option.split prod.split if_split)

declare mt_Unmarshal_loop.simps(2) [simp del]

lemma mt_loop_Suc:
  "mt_Unmarshal_loop f data idx msg = Some r \<Longrightarrow> mt_Unmarshal_loop (Suc f) data idx msg = Some r"
proof (induction f arbitrary: idx msg)
  case (Suc f)
  then show ?case
    unfolding mt_loop_iter [of "Suc f" data idx msg] mt_loop_iter [of f data idx msg]
    by (auto split: sum.splits)
qed simp

lemma mt_iter_bytes:
  assumes data: "data = pre @ put_bytes tag bs rest" and bs: "length bs < 128"
    and len: "int (length data) < 2 ^ 62" and tag: "tag AND 7 = 2"
  shows "drop_bit 3 tag = 1 \<Longrightarrow> mt_iter data (int (length pre)) msg =
      Inr (2 + int (length pre) + int (length bs), msg\<lparr>mt_Authority := bytes_str bs\<rparr>)"
    and "drop_bit 3 tag = 3 \<Longrightarrow> mt_iter data (int (length pre)) msg =
      Inr (2 + int (length pre) + int (length bs), msg\<lparr>mt_Roots := mt_Roots msg @ [bs]\<rparr>)"
proof -
  note at = field_at [OF data bs]
  have "nat (int (length pre) + 1) = Suc (length pre)"
    by simp
  then show "drop_bit 3 tag = 1 \<Longrightarrow> mt_iter data (int (length pre)) msg =
      Inr (2 + int (length pre) + int (length bs), msg\<lparr>mt_Authority := bytes_str bs\<rparr>)"
    and "drop_bit 3 tag = 3 \<Longrightarrow> mt_iter data (int (length pre)) msg =
      Inr (2 + int (length pre) + int (length bs), msg\<lparr>mt_Roots := mt_Roots msg @ [bs]\<rparr>)"
    using at tag field_stop [OF bs len at(5)] by (simp_all add: mt_iter_def Let_def)
qed

definition mt_short :: "MsgUpdateTEERoots \<Rightarrow> bool" where
  "mt_short msg \<longleftrightarrow> length (mt_Authority msg) < 128 \<and> mt_Family msg < 128 \<and>
     (\<forall>r \<in> set (mt_Roots msg). length r < 128)"

lemma foldr_put_append:
  "(\<And>r. r \<in> set rs \<Longrightarrow> length r < 128) \<Longrightarrow> foldr (put_bytes t) rs tail = foldr (put_bytes t) rs [] @ tail"
  by (induction rs) (auto simp: put_bytes_small)

lemma mt_loop_roots:
  assumes "data = pre @ foldr (put_bytes 0x1a) rs []" and "\<And>r. r \<in> set rs \<Longrightarrow> length r < 128"
    and "int (length data) < 2 ^ 62"
  shows "mt_Unmarshal_loop (Suc (length rs)) data (int (length pre)) msg = Some (OK (msg\<lparr>mt_Roots := mt_Roots msg @ rs\<rparr>))"
  using assms
proof (induction rs arbitrary: pre msg)
  case Nil
  then show ?case by (simp add: mt_loop_iter mt_iter_def)
next
  case (Cons r rs)
  let ?pre = "pre @ put_bytes 0x1a r []"
  have r: "length r < 128"
    using Cons.prems(2) by simp
  have data: "data = ?pre @ foldr (put_bytes 0x1a) rs []"
    using Cons.prems(1) r by (simp add: put_bytes_small)
  have "mt_iter data (int (length pre)) msg =
      Inr (2 + int (length pre) + int (length r), msg\<lparr>mt_Roots := mt_Roots msg @ [r]\<rparr>)"
    by (rule mt_iter_bytes(2) [OF Cons.prems(1) [simplified] r Cons.prems(3)]) simp_all
  moreover have "int (length ?pre) = 2 + int (length pre) + int (length r)"
    using r by (simp add: put_bytes_small)
  ultimately show ?case
    using Cons.IH [OF data _ Cons.prems(3), of "msg\<lparr>mt_Roots := mt_Roots msg @ [r]\<rparr>"] Cons.prems(2)
    by (simp add: mt_loop_iter [of "Suc (length rs)"] add_ac)
qed

lemma family_varint:
  assumes "unat (f :: u32) < 128"
  shows "protoEncodeVarint tail (ucast f) = ucast (ucast f :: u64) # tail"
    and "read_varint (ucast (ucast f :: u64) # bs) idx 0 0 = Some (idx + 1, ucast f)"
proof -
  have "unat (ucast f :: u64) = unat f"
    using assms by (simp add: unsigned_ucast_eq take_bit_nat_eq_self)
  then show "protoEncodeVarint tail (ucast f) = ucast (ucast f :: u64) # tail"
    using assms by (intro protoEncodeVarint_small) (simp add: word_less_nat_alt)
  show "read_varint (ucast (ucast f :: u64) # bs) idx 0 0 = Some (idx + 1, ucast f)"
    using read_varint_small [OF assms] by simp
qed

definition opt_family :: "u32 \<Rightarrow> bytes" where
  "opt_family f = (if f = 0 then [] else [0x10, ucast (ucast f :: u64)])"

lemma mt_Marshal_parts:
  assumes "length (mt_Authority msg) < 128" "unat (mt_Family msg) < 128"
  shows "mt_Marshal msg = opt_bytes 0x0a (str_bytes (mt_Authority msg)) [] @
    opt_family (mt_Family msg) @ foldr (put_bytes 0x1a) (mt_Roots msg) []"
  using assms family_varint(1) [OF assms(2)]
  by (simp add: mt_Marshal_def opt_bytes_def opt_family_def put_bytes_small)

lemma mt_iter_family:
  assumes "data = pre @ 0x10 # ucast (ucast f :: u64) # rest" "unat f < 128"
  shows "mt_iter data (int (length pre)) msg = Inr (2 + int (length pre), msg\<lparr>mt_Family := f\<rparr>)"
proof -
  have "nat (int (length pre) + 1) = Suc (length pre)" "(0x10 :: byte) AND 7 = 0" "drop_bit 3 (0x10 :: byte) = 2"
    by (simp, code_simp, code_simp)
  moreover have "(ucast (ucast f :: u64) :: u32) = f"
    by (simp add: ucast_up_ucast_id is_up.rep_eq)
  ultimately show ?thesis
    using family_varint(2) [OF assms(2), of rest "int (length pre) + 1"]
    by (simp add: mt_iter_def assms(1) nth_append)
qed

lemma mt_loop_family:
  assumes "data = pre @ opt_family f @ rest" "unat f < 128" "mt_Family msg = 0"
    and "mt_Unmarshal_loop n data (int (length (pre @ opt_family f))) (msg\<lparr>mt_Family := f\<rparr>) = Some r"
  shows "mt_Unmarshal_loop (Suc n) data (int (length pre)) msg = Some r"
proof (cases "f = 0")
  case True
  then show ?thesis
    using assms(3,4) by (intro mt_loop_Suc) (cases msg, simp add: opt_family_def)
next
  case False
  then show ?thesis
    using assms(4) mt_iter_family [of data pre f rest msg] assms(1,2)
    by (simp add: mt_loop_iter opt_family_def)
qed

lemma mt_loop_authority:
  assumes "data = opt_bytes 0x0a (str_bytes a) [] @ rest" "length a < 128" "int (length data) < 2 ^ 62"
    and "mt_Unmarshal_loop n data (int (length (opt_bytes 0x0a (str_bytes a) []))) (mt_empty\<lparr>mt_Authority := a\<rparr>) = Some r"
  shows "mt_Unmarshal_loop (Suc n) data 0 mt_empty = Some r"
proof (cases "a = []")
  case True
  then show ?thesis
    using assms(4) by (intro mt_loop_Suc) (simp add: opt_bytes_def mt_empty_def)
next
  case False
  then have "data = [] @ put_bytes 0x0a (str_bytes a) rest" "length (str_bytes a) < 128"
    using assms(1,2) by (simp_all add: opt_bytes_def put_bytes_small)
  from mt_iter_bytes(1) [OF this assms(3), of mt_empty] show ?thesis
    using assms(2,4) False by (simp add: mt_loop_iter opt_bytes_def put_bytes_small)
qed

lemma mt_roundtrip:
  assumes short: "mt_short msg" and len: "int (length (mt_Marshal msg)) < 2 ^ 62"
  shows "mt_Unmarshal (Suc (Suc (Suc (length (mt_Roots msg))))) (mt_Marshal msg) = Some (OK msg)"
proof -
  have a: "length (mt_Authority msg) < 128" and f: "unat (mt_Family msg) < 128"
    and r: "\<And>r. r \<in> set (mt_Roots msg) \<Longrightarrow> length r < 128"
    using short by (auto simp: mt_short_def word_less_nat_alt)
  let ?auth = "opt_bytes 0x0a (str_bytes (mt_Authority msg)) []" and ?fam = "opt_family (mt_Family msg)"
  let ?m = "mt_empty\<lparr>mt_Authority := mt_Authority msg\<rparr>"
  note d = mt_Marshal_parts [OF a f]
  have "?m\<lparr>mt_Family := mt_Family msg, mt_Roots := [] @ mt_Roots msg\<rparr> = msg"
    by (simp add: mt_empty_def)
  then have "mt_Unmarshal_loop (Suc (length (mt_Roots msg))) (mt_Marshal msg) (int (length (?auth @ ?fam)))
      (?m\<lparr>mt_Family := mt_Family msg\<rparr>) = Some (OK msg)"
    using mt_loop_roots [OF d [folded append_assoc] r len, of "?m\<lparr>mt_Family := mt_Family msg\<rparr>"]
    by (simp add: mt_empty_def)
  then have "mt_Unmarshal_loop (Suc (Suc (length (mt_Roots msg)))) (mt_Marshal msg) (int (length ?auth)) ?m = Some (OK msg)"
    by (rule mt_loop_family [OF d f, rotated]) (simp add: mt_empty_def)
  then show ?thesis
    unfolding mt_Unmarshal_def by (rule mt_loop_authority [OF d a len])
qed

section \<open>Properties\<close>

definition looping_message :: bytes where
  "looping_message = [0x2a, 0xf5, 0xff, 0xff, 0xff, 0xff, 0xff, 0xff, 0xff, 0xff, 0x01]"

text \<open>A price message whose fields are shorter than 128 bytes survives encoding and decoding, the encoder
  fills its buffer exactly, and the decoder ends within five iterations of its loop.\<close>

lemma MsgSubmitPrice_roundtrip:
  assumes "length (mp_Signer msg) < 128" "length (mp_MarketId msg) < 128" "length (mp_Price msg) < 128"
    "length (mp_Confidence msg) < 128" and "5 \<le> fuel"
  shows "mp_Unmarshal fuel (mp_Marshal msg) = Some (OK msg) \<and> length (mp_Marshal msg) = mp_Size msg"
proof -
  have "Suc (Suc (Suc (Suc 1))) \<le> fuel" "mp_short msg"
    using assms by (simp_all add: mp_short_def)
  then have "mp_Unmarshal fuel (mp_Marshal msg) = Some (OK msg)"
    using mp_roundtrip [of msg] mp_loop_mono unfolding mp_Unmarshal_def by blast
  then show ?thesis
    by (simp add: mp_Marshal_opt length_opt_bytes mp_Size_def)
qed

lemma looping_iter: "mp_iter looping_message 0 msg = Inr (0, msg)"
proof -
  have "read_varint (drop 1 looping_message) 1 0 0 = Some (11, 0xfffffffffffffff5)"
    "looping_message ! 0 AND 7 = 2" "drop_bit 3 (looping_message ! 0) = 5"
    "wrap64 (11 + sint (0xfffffffffffffff5 :: u64)) = 0" "length looping_message = 11"
    by code_simp+
  then show ?thesis
    by (simp add: mp_iter_def)
qed

text \<open>C18. The decoder of price messages does not end on every input.  On these eleven bytes, an unknown field
  whose length is 2^64 - 11, the index returns to zero after each iteration: no amount of fuel gives a
  result.\<close>

theorem MsgSubmitPrice_Unmarshal_diverges:
  "mp_Unmarshal fuel looping_message = None"
  unfolding mp_Unmarshal_def by (induction fuel) (simp_all add: mp_loop_iter looping_iter)

text \<open>C16. A root update whose roots and authority are shorter than 128 bytes survives encoding and decoding.\<close>

theorem MsgUpdateTEERoots_roundtrip:
  assumes "length (mt_Authority msg) < 128" "mt_Family msg < 128" "\<forall>r \<in> set (mt_Roots msg). length r < 128"
    and "int (length (mt_Marshal msg)) < 2 ^ 62"
  shows "mt_Unmarshal (length (mt_Roots msg) + 3) (mt_Marshal msg) = Some (OK msg)"
  using mt_roundtrip [of msg] assms by (simp add: mt_short_def numeral_3_eq_3)

theorem MsgUpdateTEERoots_roundtrip_witness:
  "mt_Unmarshal 5 (mt_Marshal \<lparr>mt_Authority = ''gov'', mt_Family = 2, mt_Roots = [[1, 2, 3], []]\<rparr>) =
     Some (OK \<lparr>mt_Authority = ''gov'', mt_Family = 2, mt_Roots = [[1, 2, 3], []]\<rparr>)"
proof -
  have "length (mt_Marshal \<lparr>mt_Authority = ''gov'', mt_Family = 2, mt_Roots = [[1, 2, 3], []]\<rparr>) = 14"
    by code_simp
  then show ?thesis
    using MsgUpdateTEERoots_roundtrip [of "\<lparr>mt_Authority = ''gov'', mt_Family = 2, mt_Roots = [[1, 2, 3], []]\<rparr>"]
    by simp
qed

lemma varint_top_group:
  "\<exists>t rest. protoEncodeVarint tail v = ucast (word_of_nat t :: u64) # rest \<and> t < 128"
proof (induction tail v rule: protoEncodeVarint.induct)
  case (1 tail v)
  show ?case
  proof (cases "0x80 \<le> v")
    case True
    with 1 show ?thesis
      by (subst protoEncodeVarint.simps) simp
  next
    case False
    then have "unat v < 128"
      by (simp add: word_le_nat_alt)
    with False show ?thesis
      by (subst protoEncodeVarint.simps) (auto intro!: exI [of _ "unat v"])
  qed
qed

text \<open>C17. A length of 128 or more is never read back.  The encoder writes the groups of a longer varint from the last
  to the first, so whatever follows, the decoder stops after one byte with a length below 128.  The witness is a
  root of 130 bytes, shorter than any certificate, which the decoder then rejects.\<close>

theorem long_varint_misread:
  assumes "0x80 \<le> v"
  shows "\<exists>n. read_varint (protoEncodeVarint tail v) idx 0 0 = Some (idx + 1, n) \<and> n < 0x80 \<and> n \<noteq> v"
proof -
  obtain t rest where t: "protoEncodeVarint tail v = ucast (word_of_nat t :: u64) # rest" "t < 128"
    using varint_top_group by blast
  then have "(word_of_nat t :: u64) < 0x80"
    by (simp add: word_less_nat_alt unat_of_nat)
  then show ?thesis
    using t read_varint_small [OF t(2), of rest idx] assms by auto
qed

theorem long_varint_misread_witness:
  "(\<exists>n. read_varint (protoEncodeVarint [] 300) 0 0 0 = Some (1, n) \<and> n < 0x80 \<and> n \<noteq> 300) \<and>
   mt_Unmarshal 200 (mt_Marshal \<lparr>mt_Authority = [], mt_Family = 0, mt_Roots = [replicate 130 7]\<rparr>) =
     Some (Failed ''unsupported wire type'')"
proof
  show "\<exists>n. read_varint (protoEncodeVarint [] 300) 0 0 0 = Some (1, n) \<and> n < 0x80 \<and> n \<noteq> 300"
    using long_varint_misread [of 300 "[]" 0] by simp
qed code_simp

end
