(* ===== verification/Pax_Oracle.thy ===== *)
theory Pax_Oracle
  imports Weighted_Median KV_Store Proto_Wire
begin

text \<open>
  The price oracle module (\<open>x/paxoracle\<close>): validators attest prices for markets, and the keeper answers with the
  confidence-weighted median of the attestations that are not stale.  The definitions follow \<open>types/params.go\<close>,
  \<open>types/keys.go\<close>, \<open>types/genesis.go\<close>, \<open>types/msgs.go\<close>, \<open>keeper/price.go\<close>, \<open>keeper/params.go\<close>,
  \<open>keeper/msg_server.go\<close> and \<open>keeper/genesis.go\<close>.  Heights and times are \<open>int64\<close>, read with \<open>sint\<close>.

  The staking keeper and the bech32 codec of the SDK are fields of \<open>OrcKeeper\<close>: \<open>AccAddressFromBech32\<close> decodes a
  signer, \<open>AccAddress_String\<close> encodes an address, and \<open>GetValidator\<close> tells whether the staking module knows a
  validator.  Log lines are left out; a JSON null where a price is expected is outside the model.
\<close>

record OrcParams =
  StalenessThreshold :: i64
  MinQuorum :: u64

definition orc_DefaultParams :: OrcParams where
  "orc_DefaultParams = \<lparr>StalenessThreshold = 15, MinQuorum = 1\<rparr>"

definition DefaultMaxConfidence :: int where
  "DefaultMaxConfidence = 10 ^ 18"

definition orc_Params_Validate :: "OrcParams \<Rightarrow> (string, unit) result" where
  "orc_Params_Validate p =
     (if sint (StalenessThreshold p) \<le> 0 then Inl ''staleness threshold must be positive''
      else if MinQuorum p = 0 then Inl ''min quorum must be at least 1''
      else Inr ())"

record PriceSubmission =
  ps_ValidatorAddr :: string
  ps_MarketId :: bytes
  ps_Price :: int
  ps_Confidence :: int
  ps_BlockHeight :: i64
  ps_Timestamp :: i64

record priceSubmissionJSON =
  js_v :: string
  js_p :: string
  js_c :: string
  js_h :: i64
  js_t :: i64

record SupportedMarket =
  sm_MarketId :: bytes
  sm_Ticker :: string

datatype OrcErr =
    ErrInvalidMarketId
  | ErrInvalidPrice
  | ErrInvalidConfidence
  | ErrNotValidator
  | ErrMarketNotSupported
  | ErrInsufficientQuorum
  | ErrStaleSubmissions
  | ErrInvalidSigner
  | ErrInvalidAddress
  | OrcArgErr string

datatype orc_val = OSub priceSubmissionJSON | OParams OrcParams | OMarket SupportedMarket

datatype orc_event =
    PriceSubmitted string string i64
  | PriceSubmittedEVM string bytes int i64

record 'e octx =
  o_BlockHeight :: i64
  o_BlockTime :: i64
  o_store :: "orc_val kv"
  o_env :: 'e
  o_events :: "orc_event list"

record 'e OrcKeeper =
  GetValidator :: "'e \<Rightarrow> bytes \<Rightarrow> bool"
  AccAddressFromBech32 :: "string \<Rightarrow> bytes option"
  AccAddress_String :: "bytes \<Rightarrow> string"

section \<open>Store keys\<close>

definition PriceSubmissionKeyPrefix :: bytes where "PriceSubmissionKeyPrefix = [1]"
definition orc_ParamsKey :: bytes where "orc_ParamsKey = [2]"
definition SupportedMarketKeyPrefix :: bytes where "SupportedMarketKeyPrefix = [3]"

definition PriceSubmissionKey :: "bytes \<Rightarrow> bytes \<Rightarrow> bytes" where
  "PriceSubmissionKey marketId valAddr = PriceSubmissionKeyPrefix @ marketId @ valAddr"

definition PriceSubmissionsByMarketPrefix :: "bytes \<Rightarrow> bytes" where
  "PriceSubmissionsByMarketPrefix marketId = PriceSubmissionKeyPrefix @ marketId"

definition SupportedMarketKey :: "bytes \<Rightarrow> bytes" where
  "SupportedMarketKey marketId = SupportedMarketKeyPrefix @ marketId"

lemmas orc_key_defs =
  PriceSubmissionKeyPrefix_def orc_ParamsKey_def SupportedMarketKeyPrefix_def PriceSubmissionKey_def
  PriceSubmissionsByMarketPrefix_def SupportedMarketKey_def

section \<open>Parameters, submissions, markets\<close>

definition orc_GetParams :: "'e octx \<Rightarrow> OrcParams" where
  "orc_GetParams ctx =
     (case kv_get (o_store ctx) orc_ParamsKey of Some (OParams p) \<Rightarrow> p | _ \<Rightarrow> orc_DefaultParams)"

definition orc_SetParams :: "'e octx \<Rightarrow> OrcParams \<Rightarrow> (string, 'e octx) result" where
  "orc_SetParams ctx params =
     (case orc_Params_Validate params of
        Inl err \<Rightarrow> Inl err
      | Inr _ \<Rightarrow> Inr (ctx\<lparr>o_store := kv_set (o_store ctx) orc_ParamsKey (OParams params)\<rparr>))"

definition SetPriceSubmission :: "'e octx \<Rightarrow> PriceSubmission \<Rightarrow> 'e octx" where
  "SetPriceSubmission ctx sub =
     (let valAddr = str_bytes (ps_ValidatorAddr sub);
          key = PriceSubmissionKey (ps_MarketId sub) valAddr;
          data = \<lparr>js_v = ps_ValidatorAddr sub, js_p = big_String (ps_Price sub),
                  js_c = big_String (ps_Confidence sub), js_h = ps_BlockHeight sub, js_t = ps_Timestamp sub\<rparr>
      in ctx\<lparr>o_store := kv_set (o_store ctx) key (OSub data)\<rparr>)"

text \<open>The conversion of a stored value that the three readers share: decode the JSON record and both decimal
  strings, or give up.\<close>

definition readSubmission :: "bytes \<Rightarrow> orc_val \<Rightarrow> PriceSubmission option" where
  "readSubmission marketId bz =
     (case bz of
        OSub data \<Rightarrow>
          (case big_SetString (js_p data) of
             None \<Rightarrow> None
           | Some price \<Rightarrow>
               (case big_SetString (js_c data) of
                  None \<Rightarrow> None
                | Some confidence \<Rightarrow>
                    Some \<lparr>ps_ValidatorAddr = js_v data, ps_MarketId = marketId, ps_Price = price,
                          ps_Confidence = confidence, ps_BlockHeight = js_h data, ps_Timestamp = js_t data\<rparr>))
      | _ \<Rightarrow> None)"

definition GetPriceSubmission :: "'e octx \<Rightarrow> bytes \<Rightarrow> string \<Rightarrow> PriceSubmission option" where
  "GetPriceSubmission ctx marketId valAddr =
     (case kv_get (o_store ctx) (PriceSubmissionKey marketId (str_bytes valAddr)) of
        None \<Rightarrow> None
      | Some bz \<Rightarrow> readSubmission marketId bz)"

definition GetAllSubmissionsForMarket :: "'e octx \<Rightarrow> bytes \<Rightarrow> PriceSubmission list" where
  "GetAllSubmissionsForMarket ctx marketId =
     List.map_filter (\<lambda>e. readSubmission marketId (snd e))
       (kv_iter (o_store ctx) (PriceSubmissionsByMarketPrefix marketId))"

definition GetAllSubmissions :: "'e octx \<Rightarrow> PriceSubmission list" where
  "GetAllSubmissions ctx =
     List.map_filter
       (\<lambda>e. let keyBytes = drop (length PriceSubmissionKeyPrefix) (fst e) in
          if length keyBytes < 32 then None else readSubmission (take 32 keyBytes) (snd e))
       (kv_iter (o_store ctx) PriceSubmissionKeyPrefix)"

definition SetSupportedMarket :: "'e octx \<Rightarrow> SupportedMarket \<Rightarrow> 'e octx" where
  "SetSupportedMarket ctx market =
     ctx\<lparr>o_store := kv_set (o_store ctx) (SupportedMarketKey (sm_MarketId market)) (OMarket market)\<rparr>"

definition IsSupportedMarket :: "'e octx \<Rightarrow> bytes \<Rightarrow> bool" where
  "IsSupportedMarket ctx marketId \<longleftrightarrow> kv_has (o_store ctx) (SupportedMarketKey marketId)"

definition GetAllSupportedMarkets :: "'e octx \<Rightarrow> SupportedMarket list" where
  "GetAllSupportedMarkets ctx =
     List.map_filter (\<lambda>e. case snd e of OMarket m \<Rightarrow> Some m | _ \<Rightarrow> None)
       (kv_iter (o_store ctx) SupportedMarketKeyPrefix)"

section \<open>The median\<close>

definition fresh_subs :: "'e octx \<Rightarrow> bytes \<Rightarrow> PriceSubmission list" where
  "fresh_subs ctx marketId =
     filter (\<lambda>sub. sint (o_BlockHeight ctx - ps_BlockHeight sub) \<le> sint (StalenessThreshold (orc_GetParams ctx)))
       (GetAllSubmissionsForMarket ctx marketId)"

definition oldestTimestamp :: "PriceSubmission list \<Rightarrow> i64" where
  "oldestTimestamp subs =
     foldl (\<lambda>oldest sub. if sint (ps_Timestamp sub) < sint oldest then ps_Timestamp sub else oldest)
       (ps_Timestamp (hd subs)) (tl subs)"

definition GetMedianPrice :: "'e octx \<Rightarrow> bytes \<Rightarrow> (OrcErr, int \<times> int \<times> int) result" where
  "GetMedianPrice ctx marketId =
     (let params = orc_GetParams ctx;
          fresh = fresh_subs ctx marketId
      in
      if length fresh = 0 then Inl ErrStaleSubmissions
      else if word_of_nat (length fresh) < MinQuorum params then Inl ErrInsufficientQuorum
      else
        let fresh = sort_key ps_Price fresh;
            medianPrice = medianOfSorted ps_Price ps_Confidence fresh;
            quorum = int (length fresh);
            ts = sint (oldestTimestamp fresh)
        in Inr (medianPrice, quorum, ts))"

section \<open>Messages\<close>

definition GetMarketIdArray :: "MsgSubmitPrice \<Rightarrow> bytes" where
  "GetMarketIdArray msg = take 32 (mp_MarketId msg @ replicate 32 0)"

definition NewMsgSubmitPrice :: "string \<Rightarrow> bytes \<Rightarrow> int \<Rightarrow> int \<Rightarrow> MsgSubmitPrice" where
  "NewMsgSubmitPrice signer marketId price confidence =
     \<lparr>mp_Signer = signer, mp_MarketId = marketId, mp_Price = big_String price,
      mp_Confidence = big_String confidence\<rparr>"

definition GetPriceBigInt :: "MsgSubmitPrice \<Rightarrow> int option" where
  "GetPriceBigInt msg = big_SetString (mp_Price msg)"

definition GetConfidenceBigInt :: "MsgSubmitPrice \<Rightarrow> int option" where
  "GetConfidenceBigInt msg = big_SetString (mp_Confidence msg)"

definition mp_ValidateBasic :: "'e OrcKeeper \<Rightarrow> MsgSubmitPrice \<Rightarrow> (OrcErr, unit) result" where
  "mp_ValidateBasic k msg =
     (case AccAddressFromBech32 k (mp_Signer msg) of
        None \<Rightarrow> Inl ErrInvalidAddress
      | Some _ \<Rightarrow>
          if length (mp_MarketId msg) \<noteq> 32 then Inl ErrInvalidMarketId
          else if mp_MarketId msg = replicate 32 0 then Inl ErrInvalidMarketId
          else
            (case GetPriceBigInt msg of
               None \<Rightarrow> Inl ErrInvalidPrice
             | Some price \<Rightarrow>
                 if price \<le> 0 then Inl ErrInvalidPrice
                 else
                   (case GetConfidenceBigInt msg of
                      None \<Rightarrow> Inl ErrInvalidConfidence
                    | Some confidence \<Rightarrow>
                        if confidence \<le> 0 \<or> DefaultMaxConfidence < confidence then Inl ErrInvalidConfidence
                        else Inr ())))"

definition IsValidator :: "'e OrcKeeper \<Rightarrow> 'e octx \<Rightarrow> bytes \<Rightarrow> bool" where
  "IsValidator k ctx accAddr \<longleftrightarrow> GetValidator k (o_env ctx) accAddr"

definition orc_Emit :: "'e octx \<Rightarrow> orc_event \<Rightarrow> 'e octx" where
  "orc_Emit ctx ev = ctx\<lparr>o_events := o_events ctx @ [ev]\<rparr>"

definition SubmitPrice :: "'e OrcKeeper \<Rightarrow> 'e octx \<Rightarrow> MsgSubmitPrice \<Rightarrow> 'e octx \<times> (OrcErr, unit) result" where
  "SubmitPrice k ctx msg =
     (case AccAddressFromBech32 k (mp_Signer msg) of
        None \<Rightarrow> (ctx, Inl ErrInvalidSigner)
      | Some signerAddr \<Rightarrow>
          if \<not> GetValidator k (o_env ctx) signerAddr then (ctx, Inl ErrNotValidator)
          else
            let marketId = GetMarketIdArray msg;
                markets = GetAllSupportedMarkets ctx
            in
            if 0 < length markets \<and> \<not> IsSupportedMarket ctx marketId then (ctx, Inl ErrMarketNotSupported)
            else
              (case GetPriceBigInt msg of
                 None \<Rightarrow> (ctx, Inl ErrInvalidPrice)
               | Some price \<Rightarrow>
                   (case GetConfidenceBigInt msg of
                      None \<Rightarrow> (ctx, Inl ErrInvalidConfidence)
                    | Some confidence \<Rightarrow>
                        let sub = \<lparr>ps_ValidatorAddr = mp_Signer msg, ps_MarketId = marketId, ps_Price = price,
                                   ps_Confidence = confidence, ps_BlockHeight = o_BlockHeight ctx,
                                   ps_Timestamp = o_BlockTime ctx\<rparr>;
                            ctx = SetPriceSubmission ctx sub;
                            ctx = orc_Emit ctx (PriceSubmitted (mp_Signer msg) (mp_Price msg) (o_BlockHeight ctx))
                        in (ctx, Inr ()))))"

text \<open>A transaction of the module: the message is checked on its own before the handler runs.\<close>

definition orc_DeliverTx :: "'e OrcKeeper \<Rightarrow> 'e octx \<Rightarrow> MsgSubmitPrice \<Rightarrow> 'e octx \<times> (OrcErr, unit) result" where
  "orc_DeliverTx k ctx msg =
     (case mp_ValidateBasic k msg of Inl err \<Rightarrow> (ctx, Inl err) | Inr _ \<Rightarrow> SubmitPrice k ctx msg)"

section \<open>Genesis\<close>

record OrcGenesis =
  og_Params :: OrcParams
  og_SupportedMarkets :: "SupportedMarket list"
  og_Submissions :: "PriceSubmission list"

definition orc_DefaultGenesis :: OrcGenesis where
  "orc_DefaultGenesis = \<lparr>og_Params = orc_DefaultParams, og_SupportedMarkets = [], og_Submissions = []\<rparr>"

primrec orc_validate_markets :: "bytes set \<Rightarrow> SupportedMarket list \<Rightarrow> (string, unit) result" where
  "orc_validate_markets seen [] = Inr ()"
| "orc_validate_markets seen (m # ms) =
     (if sm_MarketId m = replicate 32 0 then Inl ''supported market has zero market id''
      else if sm_MarketId m \<in> seen then Inl ''duplicate supported market''
      else orc_validate_markets (insert (sm_MarketId m) seen) ms)"

definition orc_Genesis_Validate :: "OrcGenesis \<Rightarrow> (string, unit) result" where
  "orc_Genesis_Validate gs =
     (case orc_Params_Validate (og_Params gs) of
        Inl err \<Rightarrow> Inl err
      | Inr _ \<Rightarrow> orc_validate_markets {} (og_SupportedMarkets gs))"

definition orc_InitGenesis :: "'e octx \<Rightarrow> OrcGenesis \<Rightarrow> (string, 'e octx) result" where
  "orc_InitGenesis ctx gs =
     (case orc_SetParams ctx (og_Params gs) of
        Inl err \<Rightarrow> Inl (''panic: '' @ err)
      | Inr ctx \<Rightarrow>
          let ctx = foldl SetSupportedMarket ctx (og_SupportedMarkets gs);
              ctx = foldl SetPriceSubmission ctx (og_Submissions gs)
          in Inr ctx)"

definition orc_ExportGenesis :: "'e octx \<Rightarrow> OrcGenesis" where
  "orc_ExportGenesis ctx =
     \<lparr>og_Params = orc_GetParams ctx, og_SupportedMarkets = GetAllSupportedMarkets ctx,
      og_Submissions = GetAllSubmissions ctx\<rparr>"

section \<open>The invariant of the store\<close>

text \<open>Every entry is under the key its content determines, market identifiers have 32 bytes, confidences are not
  negative, and stored parameters are valid.\<close>

definition sub_json :: "PriceSubmission \<Rightarrow> priceSubmissionJSON" where
  "sub_json sub = \<lparr>js_v = ps_ValidatorAddr sub, js_p = big_String (ps_Price sub),
     js_c = big_String (ps_Confidence sub), js_h = ps_BlockHeight sub, js_t = ps_Timestamp sub\<rparr>"

definition sub_key :: "PriceSubmission \<Rightarrow> bytes" where
  "sub_key sub = PriceSubmissionKey (ps_MarketId sub) (str_bytes (ps_ValidatorAddr sub))"

definition sub_ok :: "PriceSubmission \<Rightarrow> bool" where
  "sub_ok sub \<longleftrightarrow> length (ps_MarketId sub) = 32 \<and> 0 \<le> ps_Confidence sub"

definition orc_entry_ok :: "bytes \<Rightarrow> orc_val \<Rightarrow> bool" where
  "orc_entry_ok k v \<longleftrightarrow>
     (case v of
        OSub _ \<Rightarrow> \<exists>sub. sub_ok sub \<and> k = sub_key sub \<and> v = OSub (sub_json sub)
      | OParams p \<Rightarrow> k = orc_ParamsKey \<and> orc_Params_Validate p = Inr ()
      | OMarket m \<Rightarrow> length (sm_MarketId m) = 32 \<and> k = SupportedMarketKey (sm_MarketId m))"

definition orc_inv :: "'e octx \<Rightarrow> bool" where
  "orc_inv ctx \<longleftrightarrow> kv_wf (o_store ctx) \<and> (\<forall>k v. kv_get (o_store ctx) k = Some v \<longrightarrow> orc_entry_ok k v)"

lemma SetPriceSubmission_eq:
  "SetPriceSubmission ctx sub = ctx\<lparr>o_store := kv_set (o_store ctx) (sub_key sub) (OSub (sub_json sub))\<rparr>"
  by (simp add: SetPriceSubmission_def sub_key_def sub_json_def)

lemma readSubmission_json [simp]:
  "readSubmission marketId (OSub (sub_json sub)) = Some (sub\<lparr>ps_MarketId := marketId\<rparr>)"
  by (simp add: readSubmission_def sub_json_def)

lemma str_bytes_inject [simp]: "str_bytes s = str_bytes t \<longleftrightarrow> s = t"
  by (metis bytes_str_bytes)

lemma sub_key_inject:
  assumes "sub_ok s" "sub_ok t"
  shows "sub_key s = sub_key t \<longleftrightarrow> ps_MarketId s = ps_MarketId t \<and> ps_ValidatorAddr s = ps_ValidatorAddr t"
  using assms by (simp add: sub_key_def orc_key_defs sub_ok_def)

lemma orc_inv_set:
  "orc_inv ctx \<Longrightarrow> orc_entry_ok k v \<Longrightarrow> orc_inv (ctx\<lparr>o_store := kv_set (o_store ctx) k v\<rparr>)"
  by (simp add: orc_inv_def kv.wf_set kv.get_set del: kv_set.simps)

lemma orc_inv_SetPriceSubmission: "orc_inv ctx \<Longrightarrow> sub_ok sub \<Longrightarrow> orc_inv (SetPriceSubmission ctx sub)"
  by (auto simp: SetPriceSubmission_eq orc_entry_ok_def intro!: orc_inv_set)

lemma orc_inv_SetSupportedMarket:
  "orc_inv ctx \<Longrightarrow> length (sm_MarketId m) = 32 \<Longrightarrow> orc_inv (SetSupportedMarket ctx m)"
  by (simp add: SetSupportedMarket_def orc_entry_ok_def orc_inv_set)

lemma orc_inv_SetParams: "orc_inv ctx \<Longrightarrow> orc_SetParams ctx p = Inr ctx' \<Longrightarrow> orc_inv ctx'"
  by (auto simp: orc_SetParams_def orc_entry_ok_def split: sum.splits intro!: orc_inv_set)

lemma orc_inv_cong: "orc_inv ctx \<Longrightarrow> o_store ctx' = o_store ctx \<Longrightarrow> orc_inv ctx'"
  by (simp add: orc_inv_def)

section \<open>What the readers return\<close>

lemma market_entry:
  assumes "orc_inv ctx" "length m = 32" "(k, v) \<in> set (kv_iter (o_store ctx) (PriceSubmissionsByMarketPrefix m))"
  obtains sub where "sub_ok sub" "ps_MarketId sub = m" "k = sub_key sub" "v = OSub (sub_json sub)"
proof -
  have "has_prefix (PriceSubmissionsByMarketPrefix m) k" "kv_get (o_store ctx) k = Some v"
    using assms by (auto simp: kv.iter_iff orc_inv_def)
  then have k: "take 33 k = 1 # m" and "orc_entry_ok k v"
    using assms(1,2) by (auto simp: has_prefix_def orc_key_defs orc_inv_def)
  then obtain sub where "sub_ok sub" "k = sub_key sub" "v = OSub (sub_json sub)"
    by (auto simp: orc_entry_ok_def orc_key_defs split: orc_val.splits)
  moreover from this k have "ps_MarketId sub = m"
    by (simp add: sub_key_def orc_key_defs sub_ok_def)
  ultimately show thesis
    using that by blast
qed

lemma GetPriceSubmission_key:
  assumes "orc_inv ctx" "length m = 32" "GetPriceSubmission ctx m a = Some s"
  shows "sub_ok s \<and> ps_MarketId s = m \<and> ps_ValidatorAddr s = a \<and>
    kv_get (o_store ctx) (sub_key s) = Some (OSub (sub_json s))"
proof -
  let ?k = "PriceSubmissionKey m (str_bytes a)"
  obtain v where v: "kv_get (o_store ctx) ?k = Some v" "readSubmission m v = Some s"
    using assms(3) by (auto simp: GetPriceSubmission_def split: option.splits)
  then have "(?k, v) \<in> set (kv_iter (o_store ctx) (PriceSubmissionsByMarketPrefix m))"
    using assms(1) by (simp add: kv.iter_iff orc_inv_def has_prefix_def orc_key_defs)
  then obtain sub where "sub_ok sub" "ps_MarketId sub = m" "?k = sub_key sub" "v = OSub (sub_json sub)"
    by (rule market_entry [OF assms(1,2)])
  then show ?thesis
    using v assms(2) by (auto simp: sub_key_def orc_key_defs)
qed

lemma distinct_map_filter_key:
  assumes "distinct (map fst es)" "\<And>e s. e \<in> set es \<Longrightarrow> f e = Some s \<Longrightarrow> fst e = g (h s)"
  shows "distinct (map h (List.map_filter f es))"
  using assms
proof (induction es)
  case (Cons e es)
  have "h s \<notin> h ` set (List.map_filter f es)" if "f e = Some s" for s
  proof
    assume "h s \<in> h ` set (List.map_filter f es)"
    then obtain e' t where e': "e' \<in> set es" "f e' = Some t" "h s = h t"
      by (auto simp: map_filter_def)
    then have "fst e' = fst e"
      using Cons.prems(2) that by (metis list.set_intros)
    with e'(1) Cons.prems(1) show False
      by (metis distinct.simps(2) image_eqI list.set_map list.simps(9))
  qed
  with Cons show ?case
    by (cases "f e") (auto simp: map_filter_simps)
qed (simp add: map_filter_simps)

text \<open>The submissions of a market are those that can be looked up, one for each signer.\<close>

lemma market_subs:
  assumes inv: "orc_inv ctx" and m: "length m = 32"
  shows "set (GetAllSubmissionsForMarket ctx m) = {s. GetPriceSubmission ctx m (ps_ValidatorAddr s) = Some s}"
    and "distinct (map ps_ValidatorAddr (GetAllSubmissionsForMarket ctx m))"
proof -
  let ?it = "kv_iter (o_store ctx) (PriceSubmissionsByMarketPrefix m)"
  have wf: "kv_wf (o_store ctx)"
    using inv by (simp add: orc_inv_def)
  have entry: "fst e = PriceSubmissionKey m (str_bytes (ps_ValidatorAddr s)) \<and>
      GetPriceSubmission ctx m (ps_ValidatorAddr s) = Some s"
    if e: "e \<in> set ?it" "readSubmission m (snd e) = Some s" for e s
  proof -
    obtain sub where sub: "ps_MarketId sub = m" "fst e = sub_key sub" "snd e = OSub (sub_json sub)"
      using market_entry [OF inv m, of "fst e" "snd e"] e(1) by (metis prod.collapse)
    then have s: "s = sub"
      using e(2) by auto
    moreover have "kv_get (o_store ctx) (fst e) = Some (snd e)"
      using e(1) wf by (metis kv.iter_iff prod.collapse)
    ultimately show ?thesis
      using sub by (simp add: GetPriceSubmission_def sub_key_def)
  qed
  show "distinct (map ps_ValidatorAddr (GetAllSubmissionsForMarket ctx m))"
    unfolding GetAllSubmissionsForMarket_def
    by (rule distinct_map_filter_key [OF kv.iter_distinct [OF wf], where g = "\<lambda>a. PriceSubmissionKey m (str_bytes a)"])
      (simp add: entry)
  show "set (GetAllSubmissionsForMarket ctx m) = {s. GetPriceSubmission ctx m (ps_ValidatorAddr s) = Some s}"
  proof (intro set_eqI iffI)
    fix s assume "s \<in> set (GetAllSubmissionsForMarket ctx m)"
    then show "s \<in> {s. GetPriceSubmission ctx m (ps_ValidatorAddr s) = Some s}"
      using entry by (auto simp: GetAllSubmissionsForMarket_def map_filter_def)
  next
    fix s assume "s \<in> {s. GetPriceSubmission ctx m (ps_ValidatorAddr s) = Some s}"
    then obtain v where "kv_get (o_store ctx) (PriceSubmissionKey m (str_bytes (ps_ValidatorAddr s))) = Some v"
      "readSubmission m v = Some s"
      by (auto simp: GetPriceSubmission_def split: option.splits)
    moreover from this have "(PriceSubmissionKey m (str_bytes (ps_ValidatorAddr s)), v) \<in> set ?it"
      using wf by (simp add: kv.iter_iff has_prefix_def orc_key_defs)
    ultimately show "s \<in> set (GetAllSubmissionsForMarket ctx m)"
      unfolding GetAllSubmissionsForMarket_def map_filter_def by (auto intro!: rev_image_eqI)
  qed
qed

section \<open>The median of the keeper\<close>

text \<open>The sort of \<open>GetMedianPrice\<close> meets the contract of \<open>sort.Slice\<close>.\<close>

interpretation sub_sort: price_sort ps_Price "sort_key ps_Price"
  by unfold_locales simp_all

lemma fresh_subs_set:
  assumes "orc_inv ctx" "length m = 32"
  shows "s \<in> set (fresh_subs ctx m) \<longleftrightarrow> GetPriceSubmission ctx m (ps_ValidatorAddr s) = Some s \<and>
    sint (o_BlockHeight ctx - ps_BlockHeight s) \<le> sint (StalenessThreshold (orc_GetParams ctx))"
  using market_subs(1) [OF assms] by (auto simp: fresh_subs_def)

lemma fresh_subs_distinct:
  "orc_inv ctx \<Longrightarrow> length m = 32 \<Longrightarrow> distinct (map ps_ValidatorAddr (fresh_subs ctx m))"
  using market_subs(2) by (auto simp: fresh_subs_def distinct_map inj_on_def)

lemma fresh_confidence:
  "orc_inv ctx \<Longrightarrow> length m = 32 \<Longrightarrow> s \<in> set (fresh_subs ctx m) \<Longrightarrow> 0 \<le> ps_Confidence s"
  using GetPriceSubmission_key [of ctx m "ps_ValidatorAddr s" s] by (simp add: fresh_subs_set sub_ok_def)

lemma oldestTimestamp_Min:
  assumes "subs \<noteq> []"
  shows "sint (oldestTimestamp subs) = Min ((\<lambda>s. sint (ps_Timestamp s)) ` set subs)"
proof -
  have "sint (foldl (\<lambda>oldest sub. if sint (ps_Timestamp sub) < sint oldest then ps_Timestamp sub else oldest) t ss) =
      fold min (map (\<lambda>s. sint (ps_Timestamp s)) ss) (sint t)" for t ss
    by (induction ss arbitrary: t) (simp_all add: min_def)
  then show ?thesis
    using Min.set_eq_fold [of "sint (ps_Timestamp (hd subs))" "map (\<lambda>s. sint (ps_Timestamp s)) (tl subs)"] assms
    by (cases subs) (simp_all add: oldestTimestamp_def)
qed

lemma GetMedianPrice_result:
  assumes "orc_inv ctx" "length m = 32" "fresh_subs ctx m \<noteq> []"
    and "\<not> word_of_nat (length (fresh_subs ctx m)) < MinQuorum (orc_GetParams ctx)"
  shows "\<exists>p. GetMedianPrice ctx m = Inr (p, int (card (ps_ValidatorAddr ` set (fresh_subs ctx m))),
      Min ((\<lambda>s. sint (ps_Timestamp s)) ` set (fresh_subs ctx m))) \<and>
    weighted_median_spec ps_Price ps_Confidence (fresh_subs ctx m) p"
proof -
  have "length (fresh_subs ctx m) = card (ps_ValidatorAddr ` set (fresh_subs ctx m))"
    using distinct_card [OF fresh_subs_distinct [OF assms(1,2)]] by simp
  moreover have "sint (oldestTimestamp (sort_key ps_Price (fresh_subs ctx m))) =
      Min ((\<lambda>s. sint (ps_Timestamp s)) ` set (fresh_subs ctx m))"
    using oldestTimestamp_Min [of "sort_key ps_Price (fresh_subs ctx m)"] assms(3)
    by (simp add: sub_sort.sort_Nil)
  moreover have "weighted_median_spec ps_Price ps_Confidence (fresh_subs ctx m)
      (medianOfSorted ps_Price ps_Confidence (sort_key ps_Price (fresh_subs ctx m)))"
    using fresh_confidence [OF assms(1,2)] assms(3) by (rule sub_sort.median_spec)
  ultimately show ?thesis
    using assms(3,4) by (simp add: GetMedianPrice_def Let_def)
qed

section \<open>Submitting a price\<close>

definition submission_of :: "'e octx \<Rightarrow> MsgSubmitPrice \<Rightarrow> int \<Rightarrow> int \<Rightarrow> PriceSubmission" where
  "submission_of ctx msg price confidence =
     \<lparr>ps_ValidatorAddr = mp_Signer msg, ps_MarketId = GetMarketIdArray msg, ps_Price = price,
      ps_Confidence = confidence, ps_BlockHeight = o_BlockHeight ctx, ps_Timestamp = o_BlockTime ctx\<rparr>"

lemma orc_DeliverTx_cases:
  obtains (accepted) a price confidence where
    "AccAddressFromBech32 k (mp_Signer msg) = Some a" "GetValidator k (o_env ctx) a"
    "length (mp_MarketId msg) = 32" "mp_MarketId msg \<noteq> replicate 32 0"
    "GetAllSupportedMarkets ctx = [] \<or> IsSupportedMarket ctx (mp_MarketId msg)"
    "big_SetString (mp_Price msg) = Some price" "0 < price"
    "big_SetString (mp_Confidence msg) = Some confidence" "0 < confidence" "confidence \<le> DefaultMaxConfidence"
    "orc_DeliverTx k ctx msg = (orc_Emit (SetPriceSubmission ctx (submission_of ctx msg price confidence))
       (PriceSubmitted (mp_Signer msg) (mp_Price msg) (o_BlockHeight ctx)), Inr ())"
  | (rejected) e where "orc_DeliverTx k ctx msg = (ctx, Inl e)"
proof (cases "mp_ValidateBasic k msg")
  case (Inl e)
  then show ?thesis
    by (intro rejected [of e]) (simp add: orc_DeliverTx_def)
next
  case (Inr u)
  then obtain a price confidence where v: "AccAddressFromBech32 k (mp_Signer msg) = Some a"
    "length (mp_MarketId msg) = 32" "mp_MarketId msg \<noteq> replicate 32 0"
    "big_SetString (mp_Price msg) = Some price" "0 < price"
    "big_SetString (mp_Confidence msg) = Some confidence" "0 < confidence" "confidence \<le> DefaultMaxConfidence"
    by (auto simp: mp_ValidateBasic_def GetPriceBigInt_def GetConfidenceBigInt_def not_le not_less
        split: option.splits if_splits)
  have m: "GetMarketIdArray msg = mp_MarketId msg"
    using v(2) by (simp add: GetMarketIdArray_def)
  have d: "orc_DeliverTx k ctx msg = SubmitPrice k ctx msg"
    using Inr by (simp add: orc_DeliverTx_def)
  consider "\<not> GetValidator k (o_env ctx) a" | "GetAllSupportedMarkets ctx \<noteq> [] \<and> \<not> IsSupportedMarket ctx (mp_MarketId msg)"
    | "GetValidator k (o_env ctx) a" "GetAllSupportedMarkets ctx = [] \<or> IsSupportedMarket ctx (mp_MarketId msg)"
    by blast
  then show ?thesis
  proof cases
    case 1
    then show ?thesis
      using v(1) by (intro rejected [of ErrNotValidator]) (simp add: d SubmitPrice_def)
  next
    case 2
    then have "\<exists>e. orc_DeliverTx k ctx msg = (ctx, Inl e)"
      using v(1) m by (simp add: d SubmitPrice_def)
    then show ?thesis
      using rejected by blast
  next
    case 3
    then show ?thesis
      using v m by (intro accepted [of a price confidence])
        (auto simp: d SubmitPrice_def submission_of_def GetPriceBigInt_def GetConfidenceBigInt_def Let_def
          SetPriceSubmission_def)
  qed
qed

lemma orc_inv_DeliverTx: "orc_inv ctx \<Longrightarrow> orc_inv (fst (orc_DeliverTx k ctx msg))"
proof (rule orc_DeliverTx_cases [of k msg ctx])
  fix price confidence
  assume inv: "orc_inv ctx" and ok: "length (mp_MarketId msg) = 32" "0 < confidence"
    and tx: "orc_DeliverTx k ctx msg = (orc_Emit (SetPriceSubmission ctx (submission_of ctx msg price confidence))
       (PriceSubmitted (mp_Signer msg) (mp_Price msg) (o_BlockHeight ctx)), Inr ())"
  from ok have "sub_ok (submission_of ctx msg price confidence)"
    by (simp add: sub_ok_def submission_of_def GetMarketIdArray_def)
  from orc_inv_SetPriceSubmission [OF inv this] show ?thesis
    using tx by (simp add: orc_inv_def orc_Emit_def)
qed simp_all

section \<open>Export and import\<close>

lemma orc_keys:
  assumes "orc_inv ctx" "kv_get (o_store ctx) k = Some v"
  shows "case v of
      OSub _ \<Rightarrow> \<exists>sub. sub_ok sub \<and> k = sub_key sub \<and> v = OSub (sub_json sub)
    | OParams p \<Rightarrow> k = [2] \<and> orc_Params_Validate p = Inr ()
    | OMarket m \<Rightarrow> length (sm_MarketId m) = 32 \<and> k = SupportedMarketKey (sm_MarketId m)"
proof -
  have "orc_entry_ok k v"
    using assms by (simp add: orc_inv_def)
  then show ?thesis
    by (auto simp: orc_entry_ok_def orc_ParamsKey_def split: orc_val.splits)
qed

lemma key_Cons:
  "sub_key s = 1 # ps_MarketId s @ str_bytes (ps_ValidatorAddr s)" "SupportedMarketKey m = 3 # m"
  by (simp_all add: sub_key_def orc_key_defs)

lemma iter_markets:
  assumes "orc_inv ctx"
  shows "map (\<lambda>m. (SupportedMarketKey (sm_MarketId m), OMarket m)) (GetAllSupportedMarkets ctx) =
    kv_iter (o_store ctx) [3]"
  unfolding GetAllSupportedMarkets_def SupportedMarketKeyPrefix_def
proof (rule map_map_filter_id)
  fix e assume "e \<in> set (kv_iter (o_store ctx) [3])"
  then have "has_prefix [3] (fst e)" "kv_get (o_store ctx) (fst e) = Some (snd e)"
    using assms kv.iter_iff [of "o_store ctx" "fst e" "snd e"] by (auto simp: orc_inv_def)
  then show "\<exists>x. (case snd e of OMarket m \<Rightarrow> Some m | _ \<Rightarrow> None) = Some x \<and> (SupportedMarketKey (sm_MarketId x), OMarket x) = e"
    using orc_keys [OF assms, of "fst e" "snd e"] by (cases e) (auto simp: has_prefix_Cons key_Cons split: orc_val.splits)
qed

lemma iter_subs:
  assumes "orc_inv ctx"
  shows "map (\<lambda>s. (sub_key s, OSub (sub_json s))) (GetAllSubmissions ctx) = kv_iter (o_store ctx) [1]"
  unfolding GetAllSubmissions_def PriceSubmissionKeyPrefix_def
proof (rule map_map_filter_id)
  fix e assume "e \<in> set (kv_iter (o_store ctx) [1])"
  then have p: "has_prefix [1] (fst e)" "kv_get (o_store ctx) (fst e) = Some (snd e)"
    using assms kv.iter_iff [of "o_store ctx" "fst e" "snd e"] by (auto simp: orc_inv_def)
  then obtain sub where sub: "sub_ok sub" "fst e = sub_key sub" "snd e = OSub (sub_json sub)"
    using orc_keys [OF assms, of "fst e" "snd e"] by (cases "snd e") (auto simp: has_prefix_Cons key_Cons)
  then have "take 32 (drop 1 (fst e)) = ps_MarketId sub" "32 \<le> length (drop 1 (fst e))"
    by (simp_all add: sub_key_def orc_key_defs sub_ok_def)
  with sub show "\<exists>x. (let keyBytes = drop (length [1 :: byte]) (fst e) in
       if length keyBytes < 32 then None else readSubmission (take 32 keyBytes) (snd e)) = Some x \<and>
     (sub_key x, OSub (sub_json x)) = e"
    by (intro exI [of _ sub]) (simp add: prod_eq_iff)
qed

lemma foldl_SetSupportedMarket:
  "foldl SetSupportedMarket ctx ms = ctx\<lparr>o_store := foldl (\<lambda>s (k, v). kv_set s k v) (o_store ctx)
     (map (\<lambda>m. (SupportedMarketKey (sm_MarketId m), OMarket m)) ms)\<rparr>"
  by (induction ms arbitrary: ctx) (simp_all add: SetSupportedMarket_def)

lemma foldl_SetPriceSubmission:
  "foldl SetPriceSubmission ctx ss = ctx\<lparr>o_store := foldl (\<lambda>s (k, v). kv_set s k v) (o_store ctx)
     (map (\<lambda>s. (sub_key s, OSub (sub_json s))) ss)\<rparr>"
  by (induction ss arbitrary: ctx) (simp_all add: SetPriceSubmission_eq)

text \<open>Importing the exported state into an empty store rebuilds the store itself.\<close>

lemma orc_import_export:
  assumes inv: "orc_inv ctx" and par: "kv_get (o_store ctx) orc_ParamsKey = Some (OParams p)"
    and empty: "o_store ctx0 = []"
  shows "orc_InitGenesis ctx0 (orc_ExportGenesis ctx) = Inr (ctx0\<lparr>o_store := o_store ctx\<rparr>)"
proof -
  have p: "orc_GetParams ctx = p" "orc_Params_Validate p = Inr ()"
    using par orc_keys [OF inv par] by (simp_all add: orc_GetParams_def)
  have wf: "kv_wf (o_store ctx)"
    using inv by (simp add: orc_inv_def)
  let ?set = "foldl (\<lambda>s (k, v). kv_set s k v)"
  let ?st = "?set (?set (kv_set [] orc_ParamsKey (OParams p)) (kv_iter (o_store ctx) [3])) (kv_iter (o_store ctx) [1])"
  have "kv_get ?st k = kv_get (o_store ctx) k" for k
  proof -
    have "kv_get (o_store ctx) k = None" if "k \<noteq> [2]" "\<not> has_prefix [1] k" "\<not> has_prefix [3] k"
      using orc_keys [OF inv, of k] that by (cases "kv_get (o_store ctx) k") (force simp: has_prefix_Cons key_Cons split: orc_val.splits)+
    then show ?thesis
      using par by (auto simp: kv_get_foldl_set map_add_def map_of_iter [OF wf] kv.get_set orc_ParamsKey_def kv_get_def
          has_prefix_def split: option.splits)
  qed
  then have "kv_get ?st = kv_get (o_store ctx)"
    by blast
  moreover have "kv_wf ?st"
    by (intro kv_wf_foldl_set kv.wf_set kv_wf_Nil)
  ultimately have "?st = o_store ctx"
    using wf kv_ext by blast
  then show ?thesis
    using p empty
    by (simp add: orc_InitGenesis_def orc_SetParams_def orc_ExportGenesis_def foldl_SetSupportedMarket
        foldl_SetPriceSubmission iter_markets [OF inv] iter_subs [OF inv] Let_def del: kv_set.simps)
qed

lemma orc_validate_markets_ok:
  assumes "distinct (map sm_MarketId ms)" "\<And>m. m \<in> set ms \<Longrightarrow> sm_MarketId m \<noteq> replicate 32 0"
  shows "orc_validate_markets {} ms = Inr ()"
proof -
  have "orc_validate_markets seen ms = Inr ()" if "sm_MarketId ` set ms \<inter> seen = {}" for seen
    using assms that by (induction ms arbitrary: seen) auto
  then show ?thesis
    by simp
qed

end
