(* ===== verification/Oracle_Precompile.thy ===== *)
theory Oracle_Precompile
  imports Pax_Oracle Precompile_Common
begin

text \<open>
  The oracle precompile (\<open>precompiles/paxspot/oracle/oracle.go\<close>, address 0x903): aggregation of feeds given in the call,
  the median of the validators, and submission of a price by a validator through the EVM; then the oracle as a
  transition system and its properties.
\<close>

record priceFeed =
  pf_Price :: int
  pf_Confidence :: int
  pf_Timestamp :: int

datatype orc_output = OutAggregate int int | OutValidatorPrice int int int | OutSubmitted bool

definition orc_IsTransaction :: "string \<Rightarrow> bool" where
  "orc_IsTransaction method \<longleftrightarrow> method = ''submitPrice''"

definition orc_RequiredGas :: "Abi \<Rightarrow> bytes \<Rightarrow> u64" where
  "orc_RequiredGas p input =
     (if length input < 4 then 0
      else
        (case MethodById p (take 4 input) of
           Inl _ \<Rightarrow> 0
         | Inr method \<Rightarrow>
             if Name method = ''aggregate'' then 20 + 5 * 5
             else if Name method = ''getValidatorPrice'' then 100
             else if Name method = ''submitPrice'' then 300
             else 0))"

definition getValidatorPrice :: "'e octx \<Rightarrow> abi_val list \<Rightarrow> (OrcErr, orc_output) result" where
  "getValidatorPrice ctx args =
     (case args of
        [] \<Rightarrow> Inl (OrcArgErr ''panic: index out of range'')
      | a # _ \<Rightarrow>
          (case a of
             VBytes32 marketId \<Rightarrow>
               (case GetMedianPrice ctx marketId of
                  Inl err \<Rightarrow> Inl err
                | Inr (price, quorum, timestamp) \<Rightarrow> Inr (OutValidatorPrice price quorum timestamp))
           | _ \<Rightarrow> Inl (OrcArgErr ''getValidatorPrice: invalid marketId type'')))"

text \<open>The type assertion of \<open>args[0]\<close> to a slice of price feed structs.\<close>

fun asFeed :: "abi_val \<Rightarrow> priceFeed option" where
  "asFeed (VList [VBig p, VBig c, VBig t]) = Some \<lparr>pf_Price = p, pf_Confidence = c, pf_Timestamp = t\<rparr>"
| "asFeed _ = None"

definition asFeeds :: "abi_val \<Rightarrow> priceFeed list option" where
  "asFeeds v =
     (case v of
        VList vs \<Rightarrow> if list_all (\<lambda>x. asFeed x \<noteq> None) vs then Some (map (the \<circ> asFeed) vs) else None
      | _ \<Rightarrow> None)"

definition minConfidence :: "priceFeed list \<Rightarrow> int" where
  "minConfidence feeds =
     foldl (\<lambda>least feed. if pf_Confidence feed < least then pf_Confidence feed else least)
       (pf_Confidence (hd feeds)) feeds"

definition aggregate :: "abi_val list \<Rightarrow> (OrcErr, orc_output) result" where
  "aggregate args =
     (case args of
        [] \<Rightarrow> Inl (OrcArgErr ''panic: index out of range'')
      | a # _ \<Rightarrow>
          (case asFeeds a of
             None \<Rightarrow> Inl (OrcArgErr ''invalid feeds type'')
           | Some rawFeeds \<Rightarrow>
               if length rawFeeds = 0 then Inl (OrcArgErr ''no feeds provided'')
               else
                 let feeds = filter (\<lambda>rf. 0 < pf_Confidence rf) rawFeeds in
                 if length feeds = 0 then Inl (OrcArgErr ''no feeds with non-zero confidence'')
                 else if length feeds = 1 then
                   Inr (OutAggregate (pf_Price (feeds ! 0)) (pf_Confidence (feeds ! 0)))
                 else
                   let feeds = sort_key pf_Price feeds in
                   Inr (OutAggregate (medianOfSorted pf_Price pf_Confidence feeds) (minConfidence feeds))))"

definition submitPrice ::
  "'e OrcKeeper \<Rightarrow> 'e octx \<Rightarrow> Contract \<Rightarrow> abi_val list \<Rightarrow> 'e octx \<times> (OrcErr, orc_output) result" where
  "submitPrice k ctx contract args =
     (if length args \<noteq> 3 then (ctx, Inl (OrcArgErr ''submitPrice: expected 3 args''))
      else
        (case args ! 0 of
           VBytes32 marketId \<Rightarrow>
             (case args ! 1 of
                VBig price \<Rightarrow>
                  (case args ! 2 of
                     VBig confidence \<Rightarrow>
                       let callerAccAddr = addr_Bytes (CallerAddress contract) in
                       if \<not> IsValidator k ctx callerAccAddr then
                         (ctx, Inl (OrcArgErr ''submitPrice: caller is not an active validator''))
                       else
                         let sub = \<lparr>ps_ValidatorAddr = AccAddress_String k callerAccAddr, ps_MarketId = marketId,
                                    ps_Price = price, ps_Confidence = confidence,
                                    ps_BlockHeight = o_BlockHeight ctx, ps_Timestamp = o_BlockTime ctx\<rparr>;
                             ctx = SetPriceSubmission ctx sub;
                             ctx = orc_Emit ctx (PriceSubmittedEVM (AccAddress_String k callerAccAddr) marketId price
                                     (o_BlockHeight ctx))
                         in (ctx, Inr (OutSubmitted True))
                   | _ \<Rightarrow> (ctx, Inl (OrcArgErr ''submitPrice: invalid confidence type'')))
              | _ \<Rightarrow> (ctx, Inl (OrcArgErr ''submitPrice: invalid price type'')))
         | _ \<Rightarrow> (ctx, Inl (OrcArgErr ''submitPrice: invalid marketId type''))))"

definition orc_Run ::
  "'e OrcKeeper \<Rightarrow> Abi \<Rightarrow> 'e octx \<Rightarrow> Contract \<Rightarrow> bool \<Rightarrow> 'e octx \<times> (OrcErr, orc_output) result" where
  "orc_Run k p ctx contract readOnly =
     (case RunSetup p contract readOnly orc_IsTransaction of
        Inl err \<Rightarrow> (ctx, Inl (OrcArgErr err))
      | Inr (method, args) \<Rightarrow>
          if method = ''aggregate'' then (ctx, aggregate args)
          else if method = ''getValidatorPrice'' then (ctx, getValidatorPrice ctx args)
          else if method = ''submitPrice'' then submitPrice k ctx contract args
          else (ctx, Inl (OrcArgErr ''unknown method'')))"

interpretation orc_entry: precompile_entry orc_IsTransaction "\<lambda>p ctx contract readOnly. orc_Run k p ctx contract readOnly" for k
  by unfold_locales (auto simp: orc_Run_def orc_IsTransaction_def)

section \<open>The oracle as a transition system\<close>






section \<open>Aggregation of feeds\<close>

interpretation feed_sort: price_sort pf_Price "sort_key pf_Price"
  by unfold_locales simp_all

lemma minConfidence_Min:
  assumes "feeds \<noteq> []"
  shows "minConfidence feeds = Min (pf_Confidence ` set feeds)"
proof -
  have "foldl (\<lambda>least feed. if pf_Confidence feed < least then pf_Confidence feed else least) a fs =
      fold min (map pf_Confidence fs) a" for a fs
    by (induction fs arbitrary: a) (simp_all add: min_def)
  then show ?thesis
    using Min.set_eq_fold [of "pf_Confidence (hd feeds)" "map pf_Confidence feeds"] assms
    by (cases feeds) (simp_all add: minConfidence_def)
qed

lemma median_single:
  "0 < conf x \<Longrightarrow> weighted_median_spec price conf [x] (price x)"
  by (simp add: weighted_median_spec_def reaches_half_def weight_upto_def)

text \<open>The aggregation of feeds on every branch.\<close>

lemma aggregate_branches:
  assumes "asFeeds a = Some rawFeeds"
  defines "feeds \<equiv> filter (\<lambda>f. 0 < pf_Confidence f) rawFeeds"
  shows "feeds = [] \<Longrightarrow> \<exists>e. aggregate (a # rest) = Inl e"
    and "feeds \<noteq> [] \<Longrightarrow> \<exists>price. aggregate (a # rest) = Inr (OutAggregate price (Min (pf_Confidence ` set feeds))) \<and>
      weighted_median_spec pf_Price pf_Confidence feeds price"
proof -
  assume "feeds \<noteq> []"
  then have raw: "rawFeeds \<noteq> []" and pos: "\<And>f. f \<in> set feeds \<Longrightarrow> 0 < pf_Confidence f"
    by (auto simp: feeds_def)
  show "\<exists>price. aggregate (a # rest) = Inr (OutAggregate price (Min (pf_Confidence ` set feeds))) \<and>
      weighted_median_spec pf_Price pf_Confidence feeds price"
  proof (cases "length feeds = 1")
    case True
    then obtain f where "feeds = [f]"
      by (metis One_nat_def length_0_conv length_Suc_conv)
    then show ?thesis
      using raw assms(1) pos [of f] median_single [of pf_Confidence f pf_Price]
      by (simp add: aggregate_def feeds_def [symmetric])
  next
    case False
    then have "aggregate (a # rest) = Inr (OutAggregate (medianOfSorted pf_Price pf_Confidence (sort_key pf_Price feeds))
        (minConfidence (sort_key pf_Price feeds)))"
      using raw assms(1) \<open>feeds \<noteq> []\<close> by (simp add: aggregate_def feeds_def [symmetric] Let_def)
    moreover have "minConfidence (sort_key pf_Price feeds) = Min (pf_Confidence ` set feeds)"
      using \<open>feeds \<noteq> []\<close> by (simp add: minConfidence_Min feed_sort.sort_Nil)
    moreover have "weighted_median_spec pf_Price pf_Confidence feeds
        (medianOfSorted pf_Price pf_Confidence (sort_key pf_Price feeds))"
      using pos \<open>feeds \<noteq> []\<close> by (intro feed_sort.median_spec) (auto intro: less_imp_le)
    ultimately show ?thesis
      by simp
  qed
qed (use assms(1) in \<open>auto simp: aggregate_def feeds_def Let_def\<close>)

section \<open>A demonstration instance\<close>

text \<open>Two validators; as BIP 173 demands of a decoder, the codec accepts an address in lower and in upper case.\<close>

definition val1 :: bytes where "val1 = addr_Bytes 7"
definition val2 :: bytes where "val2 = addr_Bytes 8"

definition odemo :: "unit OrcKeeper" where
  "odemo = \<lparr>GetValidator = (\<lambda>_ a. a = val1 \<or> a = val2),
     AccAddressFromBech32 = (\<lambda>s. if s = ''pax1a'' \<or> s = ''PAX1A'' then Some val1 else if s = ''pax1b'' then Some val2 else None),
     AccAddress_String = (\<lambda>a. if a = val1 then ''pax1a'' else ''pax1b'')\<rparr>"

definition mkt :: "byte \<Rightarrow> bytes" where "mkt b = replicate 31 0 @ [b]"

definition odemo_ctx0 :: "unit octx" where
  "odemo_ctx0 = \<lparr>o_BlockHeight = 100, o_BlockTime = 1000, o_store = [], o_env = (), o_events = []\<rparr>"

definition odemo_gen :: OrcGenesis where
  "odemo_gen = \<lparr>og_Params = \<lparr>StalenessThreshold = 15, MinQuorum = 2\<rparr>,
     og_SupportedMarkets = [\<lparr>sm_MarketId = mkt 1, sm_Ticker = ''ETH/USDC''\<rparr>], og_Submissions = []\<rparr>"

definition odemo_ctx1 :: "unit octx" where
  "odemo_ctx1 = (case orc_InitGenesis odemo_ctx0 odemo_gen of Inr ctx \<Rightarrow> ctx | Inl _ \<Rightarrow> odemo_ctx0)"



definition odemo_call :: "addr \<Rightarrow> unit octx \<Rightarrow> unit octx" where
  "odemo_call a ctx = fst (submitPrice odemo ctx \<lparr>CallerAddress = a, Value = None, Input = []\<rparr>
     [VBytes32 (mkt 2), VBig (- 5), VBig 0])"


lemma mkt_facts [simp]: "length (mkt b) = 32" "mkt b = mkt c \<longleftrightarrow> b = c"
  by (simp_all add: mkt_def)

lemma orc_inv_empty: "o_store ctx = [] \<Longrightarrow> orc_inv ctx"
  by (simp add: orc_inv_def kv_get_def)

lemma odemo_ctx1_eq:
  "odemo_ctx1 = SetSupportedMarket (odemo_ctx0\<lparr>o_store := [(orc_ParamsKey, OParams (og_Params odemo_gen))]\<rparr>)
     \<lparr>sm_MarketId = mkt 1, sm_Ticker = ''ETH/USDC''\<rparr>"
  by (simp add: odemo_ctx1_def orc_InitGenesis_def orc_SetParams_def odemo_gen_def orc_Params_Validate_def odemo_ctx0_def)

lemma odemo_inv1: "orc_inv odemo_ctx1"
proof -
  have "orc_entry_ok orc_ParamsKey (OParams (og_Params odemo_gen))"
    by (simp add: orc_entry_ok_def odemo_gen_def orc_Params_Validate_def)
  from orc_inv_set [OF orc_inv_empty [of odemo_ctx0] this] show ?thesis
    unfolding odemo_ctx1_eq by (intro orc_inv_SetSupportedMarket) (simp_all add: odemo_ctx0_def)
qed




section \<open>Properties\<close>





text \<open>\<open>aggregate\<close> answers with the weighted median of the feeds of positive confidence and the least of their
  confidences, also on its branch for a single feed; it fails when there is no such feed; and the order in which the
  caller lists the feeds does not matter.\<close>

lemma aggregate_correct:
  assumes "asFeeds a = Some fs" "asFeeds b = Some gs" "mset fs = mset gs"
  shows "aggregate [a] = aggregate [b] \<and>
    (case aggregate [a] of
       Inr (OutAggregate price c) \<Rightarrow>
         weighted_median_spec pf_Price pf_Confidence (filter (\<lambda>f. 0 < pf_Confidence f) fs) price \<and>
         c = Min (pf_Confidence ` {f \<in> set fs. 0 < pf_Confidence f})
     | Inr _ \<Rightarrow> False
     | Inl _ \<Rightarrow> \<forall>f \<in> set fs. pf_Confidence f \<le> 0)"
proof (cases "filter (\<lambda>f. 0 < pf_Confidence f) fs = []")
  case True
  moreover have "set fs = set gs" "length fs = length gs"
    using assms(3) by (metis set_mset_mset, metis size_mset)
  ultimately show ?thesis
    using assms(1,2) by (auto simp: aggregate_def Let_def filter_empty_conv not_less)
next
  case False
  have m: "mset (filter (\<lambda>f. 0 < pf_Confidence f) fs) = mset (filter (\<lambda>f. 0 < pf_Confidence f) gs)"
    using assms(3) by simp
  then have "filter (\<lambda>f. 0 < pf_Confidence f) gs \<noteq> []"
    using False by (metis mset_zero_iff)
  then obtain q where q: "aggregate [b] = Inr (OutAggregate q (Min (pf_Confidence ` set (filter (\<lambda>f. 0 < pf_Confidence f) gs))))"
    "weighted_median_spec pf_Price pf_Confidence (filter (\<lambda>f. 0 < pf_Confidence f) gs) q"
    using aggregate_branches(2) [OF assms(2)] by blast
  obtain p where p: "aggregate [a] = Inr (OutAggregate p (Min (pf_Confidence ` set (filter (\<lambda>f. 0 < pf_Confidence f) fs))))"
    "weighted_median_spec pf_Price pf_Confidence (filter (\<lambda>f. 0 < pf_Confidence f) fs) p"
    using aggregate_branches(2) [OF assms(1) False] by blast
  have "p = q"
    using weighted_median_unique [OF p(2)] q(2) weighted_median_spec_mset [OF m] by blast
  with p q show ?thesis
    using mset_eq_setD [OF m] by simp
qed

text \<open>The documentation of \<open>aggregate\<close> promises the price where the cumulative confidence crosses half of the total.  Half
  of the total is rounded down, so a feed with one of three units of confidence already decides, against a feed that has two.\<close>

lemma aggregate_minority_decides:
  "aggregate [VList [VList [VBig 10, VBig 1, VBig 0], VList [VBig 1000, VBig 2, VBig 0]]] = Inr (OutAggregate 10 1)"
  by code_simp

text \<open>C25. Export and import of the oracle.  The state exported from a context that satisfies the invariant, has stored
  parameters and no market with the zero identifier, passes genesis validation, and importing it into an empty store rebuilds
  the store entry by entry.\<close>

theorem oracle_genesis_roundtrip:
  assumes "orc_inv ctx" "kv_get (o_store ctx) orc_ParamsKey = Some (OParams params)" "o_store ctx0 = []"
    and "\<And>m. m \<in> set (GetAllSupportedMarkets ctx) \<Longrightarrow> sm_MarketId m \<noteq> replicate 32 0"
  shows "orc_Genesis_Validate (orc_ExportGenesis ctx) = Inr () \<and>
    orc_InitGenesis ctx0 (orc_ExportGenesis ctx) = Inr (ctx0\<lparr>o_store := o_store ctx\<rparr>)"
proof
  show "orc_InitGenesis ctx0 (orc_ExportGenesis ctx) = Inr (ctx0\<lparr>o_store := o_store ctx\<rparr>)"
    by (rule orc_import_export [OF assms(1-3)])
  have "distinct (map fst (kv_iter (o_store ctx) [3]))"
    using assms(1) kv.iter_distinct by (auto simp: orc_inv_def)
  then have "distinct (map (\<lambda>m. SupportedMarketKey (sm_MarketId m)) (GetAllSupportedMarkets ctx))"
    by (simp add: comp_def flip: iter_markets [OF assms(1)])
  then have "distinct (map sm_MarketId (GetAllSupportedMarkets ctx))"
    by (auto simp: distinct_map inj_on_def orc_key_defs)
  then have "orc_validate_markets {} (GetAllSupportedMarkets ctx) = Inr ()"
    using orc_validate_markets_ok assms(4) by simp
  moreover have "orc_Params_Validate (orc_GetParams ctx) = Inr ()"
    using orc_keys [OF assms(1,2)] assms(2) by (simp add: orc_GetParams_def)
  ultimately show "orc_Genesis_Validate (orc_ExportGenesis ctx) = Inr ()"
    by (simp add: orc_Genesis_Validate_def orc_ExportGenesis_def)
qed

theorem oracle_genesis_roundtrip_witness:
  "orc_InitGenesis odemo_ctx0 (orc_ExportGenesis odemo_ctx1) = Inr odemo_ctx1"
proof -
  have "GetAllSupportedMarkets odemo_ctx1 = [\<lparr>sm_MarketId = mkt 1, sm_Ticker = ''ETH/USDC''\<rparr>]"
    "kv_get (o_store odemo_ctx1) orc_ParamsKey = Some (OParams (og_Params odemo_gen))"
    "sm_MarketId \<lparr>sm_MarketId = mkt 1, sm_Ticker = ''ETH/USDC''\<rparr> \<noteq> replicate 32 0"
    "odemo_ctx0\<lparr>o_store := o_store odemo_ctx1\<rparr> = odemo_ctx1" "o_store odemo_ctx0 = []"
    by code_simp+
  then show ?thesis
    using oracle_genesis_roundtrip [OF odemo_inv1, of "og_Params odemo_gen" odemo_ctx0] by simp
qed

text \<open>The precompile does not apply the checks of the message.  A validator whose message for an unsupported market, and
  whose message with a negative price, are rejected, stores both through the precompile with a confidence of zero, and
  the price is served.\<close>

lemma precompile_bypasses_checks:
  "snd (orc_DeliverTx odemo odemo_ctx1 (NewMsgSubmitPrice ''pax1a'' (mkt 2) 5 1)) = Inl ErrMarketNotSupported \<and>
   snd (orc_DeliverTx odemo odemo_ctx1 (NewMsgSubmitPrice ''pax1a'' (mkt 1) (- 5) 1)) = Inl ErrInvalidPrice \<and>
   GetMedianPrice (odemo_call 8 (odemo_call 7 odemo_ctx1)) (mkt 2) = Inr (- 5, 2, 1000)"
  by (intro conjI) code_simp+

text \<open>Submissions are stored under the text of the signer's address.  A decoder that accepts both cases, as
  bech32 demands, lets one validator submit under two spellings: the quorum of two is met by one validator.\<close>

lemma one_validator_meets_quorum_of_two:
  "MinQuorum (orc_GetParams odemo_ctx1) = 2 \<and>
   AccAddressFromBech32 odemo ''pax1a'' = AccAddressFromBech32 odemo ''PAX1A'' \<and>
   GetMedianPrice (fst (orc_DeliverTx odemo (fst (orc_DeliverTx odemo odemo_ctx1
     (NewMsgSubmitPrice ''pax1a'' (mkt 1) 100 5))) (NewMsgSubmitPrice ''PAX1A'' (mkt 1) 100 5))) (mkt 1) = Inr (100, 2, 1000)"
  by code_simp

end
