(* ===== verification/Pax_Spot.thy ===== *)
theory Pax_Spot
  imports Precompile_Common Weighted_Median
begin

text \<open>
  The stateless precompiles of the spot exchange (\<open>precompiles/paxspot\<close>): prices relative to an oracle price
  (\<open>orob/orob.go\<close>, 0x901), the uniform clearing price of a batch auction (\<open>clearing/clearing.go\<close>, 0x902) and fill
  quality scores (\<open>pofq/pofq.go\<close>, 0x904).  Each handler is a function from the unpacked arguments to a result; the
  errors carry the messages of the source, and an index past the unpacked arguments is a panic.
\<close>

section \<open>Arguments and calls\<close>

definition result_bind :: "('e, 'a) result \<Rightarrow> ('a \<Rightarrow> ('e, 'b) result) \<Rightarrow> ('e, 'b) result" where
  "result_bind r f = (case r of Inl e \<Rightarrow> Inl e | Inr x \<Rightarrow> f x)"

lemma result_bind_simps [simp]: "result_bind (Inr x) f = f x" "result_bind (Inl e) f = Inl e"
  by (simp_all add: result_bind_def)

text \<open>The checked type assertions \<open>args[i].(T)\<close>.\<close>

definition arg_as :: "(abi_val \<Rightarrow> 'a option) \<Rightarrow> string \<Rightarrow> abi_val list \<Rightarrow> nat \<Rightarrow> (string, 'a) result" where
  "arg_as conv msg args i =
     (if \<not> i < length args then Inl ''panic: index out of range''
      else case conv (args ! i) of None \<Rightarrow> Inl msg | Some x \<Rightarrow> Inr x)"

fun asBig :: "abi_val \<Rightarrow> int option" where
  "asBig (VBig z) = Some z"
| "asBig _ = None"

fun asI16 :: "abi_val \<Rightarrow> i16 option" where
  "asI16 (VI16 w) = Some w"
| "asI16 _ = None"

fun asU16 :: "abi_val \<Rightarrow> u16 option" where
  "asU16 (VU16 w) = Some w"
| "asU16 _ = None"

definition asList :: "(abi_val \<Rightarrow> 'a option) \<Rightarrow> abi_val \<Rightarrow> 'a list option" where
  "asList conv v =
     (case v of
        VList vs \<Rightarrow> if list_all (\<lambda>x. conv x \<noteq> None) vs then Some (map (the \<circ> conv) vs) else None
      | _ \<Rightarrow> None)"

text \<open>The common start of the three \<open>Run\<close> methods.\<close>

definition spot_call :: "Abi \<Rightarrow> Contract \<Rightarrow> (string, string \<times> abi_val list) result" where
  "spot_call p contract =
     (if length (Input contract) < 4 then Inl ''input too short''
      else
        result_bind (MethodById p (take 4 (Input contract))) (\<lambda>method.
        result_bind (Unpack method (drop 4 (Input contract))) (\<lambda>args.
        Inr (Name method, args))))"

datatype spot_output =
    OutInt int
  | OutInts "int list"
  | OutI16 i16
  | OutPair int int
  | OutClearing i16 int int

section \<open>Relative prices: \<open>orob\<close>\<close>

definition computeAbsolutePrice :: "int \<Rightarrow> i16 \<Rightarrow> int" where
  "computeAbsolutePrice oraclePrice offsetBps =
     (let multiplier = 10000 + sint offsetBps;
          result = oraclePrice * multiplier
      in big_Div result 10000)"

definition resolveOffset :: "abi_val list \<Rightarrow> (string, spot_output) result" where
  "resolveOffset args =
     result_bind (arg_as asBig ''invalid oraclePrice type'' args 0) (\<lambda>oraclePrice.
     result_bind (arg_as asI16 ''invalid offsetBps type'' args 1) (\<lambda>offsetBps.
     Inr (OutInt (computeAbsolutePrice oraclePrice offsetBps))))"

definition resolveOffsetBatch :: "abi_val list \<Rightarrow> (string, spot_output) result" where
  "resolveOffsetBatch args =
     result_bind (arg_as asBig ''invalid oraclePrice type'' args 0) (\<lambda>oraclePrice.
     result_bind (arg_as (asList asI16) ''invalid offsetsBps type'' args 1) (\<lambda>offsets.
     Inr (OutInts (map (computeAbsolutePrice oraclePrice) offsets))))"

text \<open>\<open>int16(diff.Int64())\<close> keeps the low 16 bits.\<close>

definition toOffset :: "abi_val list \<Rightarrow> (string, spot_output) result" where
  "toOffset args =
     result_bind (arg_as asBig ''invalid oraclePrice type'' args 0) (\<lambda>oraclePrice.
     result_bind (arg_as asBig ''invalid absolutePrice type'' args 1) (\<lambda>absolutePrice.
     if oraclePrice = 0 then Inl ''oraclePrice cannot be zero''
     else
       let diff = absolutePrice - oraclePrice;
           diff = diff * 10000;
           diff = big_Div diff oraclePrice
       in Inr (OutI16 (word_of_int diff))))"

definition orob_RequiredGas :: "Abi \<Rightarrow> bytes \<Rightarrow> u64" where
  "orob_RequiredGas p input =
     (if length input < 4 then 0
      else
        (case MethodById p (take 4 input) of
           Inl _ \<Rightarrow> 0
         | Inr method \<Rightarrow>
             if Name method = ''resolveOffset'' then 5
             else if Name method = ''resolveOffsetBatch'' then
               (case result_bind (Unpack method (drop 4 input)) (\<lambda>args. arg_as (asList asI16) [] args 1) of
                  Inl _ \<Rightarrow> 3 * 10
                | Inr offsets \<Rightarrow> 3 * word_of_nat (length offsets))
             else if Name method = ''toOffset'' then 5
             else 0))"

definition orob_Run :: "Abi \<Rightarrow> Contract \<Rightarrow> (string, spot_output) result" where
  "orob_Run p contract =
     result_bind (spot_call p contract) (\<lambda>(method, args).
     if method = ''resolveOffset'' then resolveOffset args
     else if method = ''resolveOffsetBatch'' then resolveOffsetBatch args
     else if method = ''toOffset'' then toOffset args
     else Inl ''unknown method'')"

section \<open>Batch auctions: \<open>clearing\<close>\<close>

record orderEntry =
  offsetBps :: i16
  osize :: int

definition minBigInt :: "int \<Rightarrow> int \<Rightarrow> int" where
  "minBigInt a b = (if a < b then a else b)"

definition cumDemand :: "orderEntry list \<Rightarrow> i16 \<Rightarrow> int" where
  "cumDemand buys level = foldl (\<lambda>d b. if sint level \<le> sint (offsetBps b) then d + osize b else d) 0 buys"

definition cumSupply :: "orderEntry list \<Rightarrow> i16 \<Rightarrow> int" where
  "cumSupply sells level = foldl (\<lambda>d s. if sint (offsetBps s) \<le> sint level then d + osize s else d) 0 sells"

text \<open>The keys of the map \<open>levelSet\<close>, in the order the sort gives them.\<close>

definition clearing_levels :: "orderEntry list \<Rightarrow> orderEntry list \<Rightarrow> i16 list" where
  "clearing_levels buys sells = sort_key sint (remdups (map offsetBps buys @ map offsetBps sells))"

definition clearing_scan :: "orderEntry list \<Rightarrow> orderEntry list \<Rightarrow> i16 list \<Rightarrow> i16 \<times> int" where
  "clearing_scan buys sells levels =
     foldl (\<lambda>(clearingOffset, matchedVolume) level.
         let vol = minBigInt (cumDemand buys level) (cumSupply sells level) in
         if matchedVolume < vol then (level, vol) else (clearingOffset, matchedVolume))
       (0, 0) levels"

definition computeClearing :: "abi_val list \<Rightarrow> (string, spot_output) result" where
  "computeClearing args =
     result_bind (arg_as asBig ''invalid oraclePrice type'' args 0) (\<lambda>oraclePrice.
     result_bind (arg_as (asList asI16) ''invalid buyOffsets type'' args 1) (\<lambda>buyOffsets.
     result_bind (arg_as (asList asBig) ''invalid buySizes type'' args 2) (\<lambda>buySizes.
     result_bind (arg_as (asList asI16) ''invalid sellOffsets type'' args 3) (\<lambda>sellOffsets.
     result_bind (arg_as (asList asBig) ''invalid sellSizes type'' args 4) (\<lambda>sellSizes.
     if length buyOffsets \<noteq> length buySizes then Inl ''buy arrays length mismatch''
     else if length sellOffsets \<noteq> length sellSizes then Inl ''sell arrays length mismatch''
     else if length buyOffsets = 0 \<or> length sellOffsets = 0 then Inr (OutClearing 0 oraclePrice 0)
     else
       let buys = sort_key (\<lambda>b. - sint (offsetBps b))
             (map2 (\<lambda>off sz. \<lparr>offsetBps = off, osize = sz\<rparr>) buyOffsets buySizes);
           sells = sort_key (\<lambda>s. sint (offsetBps s))
             (map2 (\<lambda>off sz. \<lparr>offsetBps = off, osize = sz\<rparr>) sellOffsets sellSizes)
       in
       if sint (offsetBps (buys ! 0)) < sint (offsetBps (sells ! 0)) then Inr (OutClearing 0 oraclePrice 0)
       else
         let (clearingOffset, matchedVolume) = clearing_scan buys sells (clearing_levels buys sells);
             multiplier = 10000 + sint clearingOffset;
             clearingPrice = big_Div (oraclePrice * multiplier) 10000
         in Inr (OutClearing clearingOffset clearingPrice matchedVolume))))))"

definition clearing_RequiredGas :: "Abi \<Rightarrow> bytes \<Rightarrow> u64" where
  "clearing_RequiredGas p input =
     (if length input < 4 then 0
      else
        (case MethodById p (take 4 input) of
           Inl _ \<Rightarrow> 0
         | Inr method \<Rightarrow>
             if Name method = ''computeClearing'' then
               (case result_bind (Unpack method (drop 4 input)) (\<lambda>args.
                       result_bind (arg_as (asList asI16) [] args 1) (\<lambda>buyOffsets.
                       result_bind (arg_as (asList asI16) [] args 3) (\<lambda>sellOffsets.
                       Inr (word_of_nat (length buyOffsets + length sellOffsets))))) of
                  Inl _ \<Rightarrow> 50 + 3 * 20
                | Inr totalOrders \<Rightarrow> 50 + 3 * totalOrders)
             else 0))"

definition clearing_Run :: "Abi \<Rightarrow> Contract \<Rightarrow> (string, spot_output) result" where
  "clearing_Run p contract =
     result_bind (spot_call p contract) (\<lambda>(method, args).
     if method = ''computeClearing'' then computeClearing args else Inl ''unknown method'')"

section \<open>Fill quality: \<open>pofq\<close>\<close>

definition oneE18 :: int where
  "oneE18 = 10 ^ 18"

definition computeFillScore :: "int \<Rightarrow> int \<Rightarrow> int" where
  "computeFillScore fillPrice oraclePrice =
     (if oraclePrice = 0 then 0
      else
        let diff = \<bar>fillPrice - oraclePrice\<bar>;
            deviation = big_Div (diff * oneE18) \<bar>oraclePrice\<bar>;
            score = oneE18 - deviation
        in if score < 0 then 0 else score)"

definition scoreFill :: "abi_val list \<Rightarrow> (string, spot_output) result" where
  "scoreFill args =
     result_bind (arg_as asBig ''invalid fillPrice type'' args 0) (\<lambda>fillPrice.
     result_bind (arg_as asBig ''invalid oraclePrice type'' args 1) (\<lambda>oraclePrice.
     Inr (OutInt (computeFillScore fillPrice oraclePrice))))"

definition scoreBatch :: "abi_val list \<Rightarrow> (string, spot_output) result" where
  "scoreBatch args =
     result_bind (arg_as (asList asBig) ''invalid fillPrices type'' args 0) (\<lambda>fillPrices.
     result_bind (arg_as (asList asBig) ''invalid oraclePrices type'' args 1) (\<lambda>oraclePrices.
     result_bind (arg_as (asList asBig) ''invalid sizes type'' args 2) (\<lambda>sizes.
     if length fillPrices \<noteq> length oraclePrices \<or> length fillPrices \<noteq> length sizes then Inl ''array length mismatch''
     else if length fillPrices = 0 then Inr (OutPair 0 0)
     else
       let (weightedSum, totalVolume) =
             foldl (\<lambda>(weightedSum, totalVolume) i.
                 let score = computeFillScore (fillPrices ! i) (oraclePrices ! i) in
                 (weightedSum + score * sizes ! i, totalVolume + sizes ! i))
               (0, 0) [0..<length fillPrices]
       in
       if totalVolume = 0 then Inr (OutPair 0 0)
       else Inr (OutPair (big_Div weightedSum totalVolume) totalVolume))))"

definition updateRollingScore :: "abi_val list \<Rightarrow> (string, spot_output) result" where
  "updateRollingScore args =
     result_bind (arg_as asBig ''invalid currentScore type'' args 0) (\<lambda>currentScore.
     result_bind (arg_as asBig ''invalid currentWeight type'' args 1) (\<lambda>currentWeight.
     result_bind (arg_as asBig ''invalid newScore type'' args 2) (\<lambda>newScore.
     result_bind (arg_as asBig ''invalid newWeight type'' args 3) (\<lambda>newWeight.
     result_bind (arg_as asU16 ''invalid decayBps type'' args 4) (\<lambda>decayBps.
     if 10000 \<le> decayBps then Inl ''decayBps must be < 10000''
     else
       let decayFactor = 10000 - uint decayBps;
           fullFactor = 10000;
           oldWeighted = currentScore * currentWeight * decayFactor;
           newWeighted = newScore * newWeight * fullFactor;
           oldW = currentWeight * decayFactor;
           newW = newWeight * fullFactor;
           totalWeight = oldW + newW
       in
       if totalWeight = 0 then Inr (OutPair 0 0)
       else
         let numerator = oldWeighted + newWeighted
         in Inr (OutPair (big_Div numerator totalWeight) totalWeight))))))"

definition pofq_RequiredGas :: "Abi \<Rightarrow> bytes \<Rightarrow> u64" where
  "pofq_RequiredGas p input =
     (if length input < 4 then 0
      else
        (case MethodById p (take 4 input) of
           Inl _ \<Rightarrow> 0
         | Inr method \<Rightarrow>
             if Name method = ''scoreFill'' then 5
             else if Name method = ''scoreBatch'' then
               (case result_bind (Unpack method (drop 4 input)) (\<lambda>args. arg_as (asList asBig) [] args 0) of
                  Inl _ \<Rightarrow> 3 * 10
                | Inr fillPrices \<Rightarrow> 3 * word_of_nat (length fillPrices))
             else if Name method = ''updateRollingScore'' then 8
             else 0))"

definition pofq_Run :: "Abi \<Rightarrow> Contract \<Rightarrow> (string, spot_output) result" where
  "pofq_Run p contract =
     result_bind (spot_call p contract) (\<lambda>(method, args).
     if method = ''scoreFill'' then scoreFill args
     else if method = ''scoreBatch'' then scoreBatch args
     else if method = ''updateRollingScore'' then updateRollingScore args
     else Inl ''unknown method'')"

section \<open>Lemmas on the auction\<close>












lemma asList_map [simp]: "(\<And>x. conv (C x) = Some x) \<Longrightarrow> asList conv (VList (map C xs)) = Some xs"
  by (simp add: asList_def list_all_iff comp_def)

lemma arg_as_simps [simp]:
  "arg_as conv msg (a # args) 0 = (case conv a of None \<Rightarrow> Inl msg | Some x \<Rightarrow> Inr x)"
  "arg_as conv msg (a # args) (Suc i) = arg_as conv msg args i"
  "arg_as conv msg (a # args) 1 = arg_as conv msg args 0"
  "arg_as conv msg (a # args) (numeral n) = arg_as conv msg args (pred_numeral n)"
  by (simp_all add: arg_as_def numeral_eq_Suc)



lemma computeAbsolutePrice_0: "computeAbsolutePrice oraclePrice 0 = oraclePrice"
  by (simp add: computeAbsolutePrice_def)

lemma computeFillScore_range: "0 \<le> computeFillScore f oraclePrice" "computeFillScore f oraclePrice \<le> oneE18"
  by (auto simp: computeFillScore_def Let_def oneE18_def pos_imp_zdiv_nonneg_iff)

lemma computeFillScore_mono:
  assumes "\<bar>f - oraclePrice\<bar> \<le> \<bar>g - oraclePrice\<bar>"
  shows "computeFillScore g oraclePrice \<le> computeFillScore f oraclePrice"
proof (cases "oraclePrice = 0")
  case False
  then have "\<bar>f - oraclePrice\<bar> * oneE18 div \<bar>oraclePrice\<bar> \<le> \<bar>g - oraclePrice\<bar> * oneE18 div \<bar>oraclePrice\<bar>"
    using assms by (intro zdiv_mono1) (simp_all add: oneE18_def)
  then show ?thesis
    using False by (simp add: computeFillScore_def Let_def)
qed (simp add: computeFillScore_def)

lemma average_range:
  assumes "0 < (W :: int)" "lo * W \<le> N" "N \<le> hi * W"
  shows "lo \<le> N div W" "N div W \<le> hi"
  using zdiv_mono1 [OF assms(2,1)] zdiv_mono1 [OF assms(3,1)] assms(1) by simp_all

lemma batch_fold:
  "foldl (\<lambda>(a, b) i. (a + g i * z i, b + z i)) (a, b) is =
    (a + (\<Sum>i\<leftarrow>is. g i * z i), b + (\<Sum>i\<leftarrow>is. z i :: int))"
  by (induction "is" arbitrary: a b) auto

lemma weighted_sum_range:
  fixes g z :: "'a \<Rightarrow> int"
  assumes "\<And>i. i \<in> set is \<Longrightarrow> lo \<le> g i \<and> g i \<le> hi \<and> 0 \<le> z i"
  shows "lo * (\<Sum>i\<leftarrow>is. z i) \<le> (\<Sum>i\<leftarrow>is. g i * z i)" "(\<Sum>i\<leftarrow>is. g i * z i) \<le> hi * (\<Sum>i\<leftarrow>is. z i)"
  using assms by (induction "is") (auto simp: distrib_left intro!: add_mono mult_right_mono)

lemma scoreBatch_range:
  assumes len: "length fs = length os" "length fs = length zs" and pos: "\<And>z. z \<in> set zs \<Longrightarrow> 0 \<le> z" "0 < sum_list zs"
    and range: "\<And>i. i < length fs \<Longrightarrow> lo \<le> computeFillScore (fs ! i) (os ! i) \<and> computeFillScore (fs ! i) (os ! i) \<le> hi"
  shows "\<exists>avg. scoreBatch [VList (map VBig fs), VList (map VBig os), VList (map VBig zs)] = Inr (OutPair avg (sum_list zs)) \<and>
    lo \<le> avg \<and> avg \<le> hi"
proof -
  let ?g = "\<lambda>i. computeFillScore (fs ! i) (os ! i)" and ?is = "[0..<length fs]"
  have total: "(\<Sum>i\<leftarrow>?is. zs ! i) = sum_list zs"
    using len(2) by (simp add: map_nth)
  have "fs \<noteq> []" "os \<noteq> []"
    using len pos(2) by auto
  then have "scoreBatch [VList (map VBig fs), VList (map VBig os), VList (map VBig zs)] =
      Inr (OutPair ((\<Sum>i\<leftarrow>?is. ?g i * zs ! i) div sum_list zs) (sum_list zs))"
    using len pos(2) total by (simp add: scoreBatch_def batch_fold)
  moreover have "lo \<le> ?g i \<and> ?g i \<le> hi \<and> 0 \<le> zs ! i" if "i \<in> set ?is" for i
    using that range pos(1) len(2) by simp
  note weighted_sum_range [of ?is lo ?g hi "\<lambda>i. zs ! i", OF this, unfolded total]
  ultimately show ?thesis
    using average_range [OF pos(2)] by blast
qed

lemma updateRollingScore_range:
  assumes "0 \<le> w" "0 \<le> v" "0 < w \<or> 0 < v" "d < 10000" "lo \<le> s" "s \<le> hi" "lo \<le> t" "t \<le> hi"
  shows "\<exists>avg. updateRollingScore [VBig s, VBig w, VBig t, VBig v, VU16 d] =
      Inr (OutPair avg (w * (10000 - uint d) + v * 10000)) \<and> lo \<le> avg \<and> avg \<le> hi"
proof -
  let ?D = "10000 - uint d"
  have D: "0 < ?D"
    using assms(4) by (simp add: word_less_def)
  then have W: "0 < w * ?D + v * 10000"
    using assms(1-3) by (auto intro: add_nonneg_pos add_pos_nonneg)
  have "lo * (w * ?D) \<le> s * (w * ?D)" "s * (w * ?D) \<le> hi * (w * ?D)"
    using assms D by (auto intro!: mult_right_mono)
  moreover have "lo * (v * 10000) \<le> t * (v * 10000)" "t * (v * 10000) \<le> hi * (v * 10000)"
    using assms by (auto intro!: mult_right_mono)
  ultimately have "lo * (w * ?D + v * 10000) \<le> s * w * ?D + t * v * 10000" "s * w * ?D + t * v * 10000 \<le> hi * (w * ?D + v * 10000)"
    by (simp_all add: algebra_simps)
  from average_range [OF W this] show ?thesis
    using W assms(4) by (simp add: updateRollingScore_def Let_def not_le)
qed

section \<open>Properties\<close>



text \<open>Relative prices.  For an oracle price of at least 10000 units, converting an offset to a price and back returns the
  offset exactly when the conversion did not round, and one basis point less otherwise.\<close>

lemma offset_roundtrip:
  assumes "10000 \<le> oraclePrice"
  shows "\<exists>price. resolveOffset [VBig oraclePrice, VI16 w] = Inr (OutInt price) \<and>
    toOffset [VBig oraclePrice, VBig price] = Inr (OutI16 (if 10000 dvd oraclePrice * sint w then w else w - 1))"
proof -
  define q r where "q = oraclePrice * sint w div 10000" and "r = oraclePrice * sint w mod 10000"
  have r: "0 \<le> r" "r < 10000" "q * 10000 = oraclePrice * sint w - r"
    by (simp_all add: q_def r_def minus_mod_eq_div_mult [symmetric])
  have "computeAbsolutePrice oraclePrice w = oraclePrice + q"
    by (simp add: computeAbsolutePrice_def q_def distrib_left)
  moreover have "(oraclePrice + q - oraclePrice) * 10000 = - r + sint w * oraclePrice"
    using r(3) by (simp add: algebra_simps)
  then have "(oraclePrice + q - oraclePrice) * 10000 div oraclePrice = sint w + (- r) div oraclePrice"
    using assms by (simp only: div_mult_self1)
  moreover have "(- r) div oraclePrice = (if r = 0 then 0 else - 1)"
    using assms r by (simp add: zdiv_zminus1_eq_if)
  moreover have "10000 dvd oraclePrice * sint w \<longleftrightarrow> r = 0"
    by (simp add: r_def dvd_eq_mod_eq_0)
  ultimately show ?thesis
    using assms by (simp add: resolveOffset_def toOffset_def Let_def)
qed

text \<open>An offset outside sixteen bits is returned with its high bits cut off: ten times the oracle price is 90000 basis points above
  it, and the answer is 24464.\<close>

lemma toOffset_truncates: "toOffset [VBig 1, VBig 10] = Inr (OutI16 24464)"
  by code_simp
text \<open>C27. Fill scores.  A score lies between zero and 1e18, is 1e18 for a fill at the oracle price, and does not improve when the
  fill moves away from it.  The score of a batch lies within the range of its scores and its volume is the sum of the sizes; a
  rolling update lies between the two scores it merges.  Sizes and weights are unsigned and not all zero.\<close>

theorem fill_scores_bounded:
  assumes "length fs = length os" "length fs = length zs" "\<And>z. z \<in> set zs \<Longrightarrow> 0 \<le> z" "0 < sum_list zs"
    and "\<And>i. i < length fs \<Longrightarrow> lo \<le> computeFillScore (fs ! i) (os ! i) \<and> computeFillScore (fs ! i) (os ! i) \<le> hi"
    and "0 \<le> w" "0 \<le> v" "0 < w \<or> 0 < v" "d < 10000" "lo \<le> s" "s \<le> hi" "lo \<le> t" "t \<le> hi"
  shows "0 \<le> computeFillScore f p \<and> computeFillScore f p \<le> oneE18 \<and> (p \<noteq> 0 \<longrightarrow> computeFillScore p p = oneE18) \<and>
    (\<bar>f - p\<bar> \<le> \<bar>g - p\<bar> \<longrightarrow> computeFillScore g p \<le> computeFillScore f p) \<and>
    (\<exists>avg. scoreBatch [VList (map VBig fs), VList (map VBig os), VList (map VBig zs)] = Inr (OutPair avg (sum_list zs)) \<and>
      lo \<le> avg \<and> avg \<le> hi) \<and>
    (\<exists>avg. updateRollingScore [VBig s, VBig w, VBig t, VBig v, VU16 d] =
      Inr (OutPair avg (w * (10000 - uint d) + v * 10000)) \<and> lo \<le> avg \<and> avg \<le> hi)"
  using scoreBatch_range [OF assms(1-5)] updateRollingScore_range [OF assms(6-)] computeFillScore_range computeFillScore_mono
  by (auto simp: computeFillScore_def [of p p] oneE18_def)

theorem fill_scores_bounded_witness:
  "\<exists>avg. scoreBatch [VList (map VBig [100, 90]), VList (map VBig [100, 100]), VList (map VBig [1, 3])] = Inr (OutPair avg 4) \<and>
     0 \<le> avg \<and> avg \<le> oneE18"
proof -
  have "0 \<le> z" if "z \<in> set [1, 3]" for z :: int
    using that by auto
  moreover have "0 \<le> oneE18"
    by (simp add: oneE18_def)
  ultimately show ?thesis
    using fill_scores_bounded [of "[100, 90]" "[100, 100]" "[1, 3]" 0 oneE18 1 1 0 0 0] computeFillScore_range by simp
qed

text \<open>The weight a rolling update returns is 10000 times the scale of the weights it takes.  Fed back, it outweighs the next
  observation ten thousand times: after scores of zero and 1e18 with equal weight and no decay the average is not a half.\<close>

lemma rolling_weight_scale:
  "updateRollingScore [VBig 0, VBig 0, VBig 0, VBig 1, VU16 0] = Inr (OutPair 0 10000) \<and>
   updateRollingScore [VBig 0, VBig 10000, VBig (10 ^ 18), VBig 1, VU16 0] = Inr (OutPair 99990000999900 100010000)"
  by code_simp

end
