(* ===== verification/Fee_Market.thy ===== *)
theory Fee_Market
  imports KV_Store Keepers
begin

text \<open>
  The fee market (\<open>x/feemarket\<close>): the EIP-1559 base fee (\<open>keeper/eip1559.go\<close>), its update at the start of a block and the
  record of the gas wanted at the end (\<open>keeper/abci.go\<close>), parameters (\<open>types/params.go\<close>, \<open>keeper/params.go\<close>,
  \<open>keeper/msg_server.go\<close>), gas counters (\<open>keeper/keeper.go\<close>), the agent fee lane with its mirror of registry
  events (\<open>types/lane.go\<close>, \<open>keeper/lane.go\<close>, \<open>keeper/lane_hook.go\<close>) and genesis.

  \<open>math.LegacyDec\<close> is the integer it scales by 10^18, with its product and truncation as fields of \<open>FeeKeeper\<close>; so are the
  legacy parameter subspace and the two event topics, which the source computes with Keccak.  \<open>math.Int\<close> is
  unbounded.  Telemetry and log lines are left out.
\<close>

record FeeParams =
  NoBaseFee :: bool
  BaseFeeChangeDenominator :: u32
  ElasticityMultiplier :: u32
  EnableHeight :: i64
  fp_BaseFee :: "int option"
  MinGasPrice :: "int option"
  MinGasMultiplier :: "int option"

record LaneParams =
  lp_Enabled :: bool
  lp_GasPrice :: "int option"
  lp_Registry :: bytes

datatype fee_val = FParams FeeParams | FGas u64 | FBaseFeeV1 bytes | FLane LaneParams | FMember

datatype fee_event = EventFeeMarket int | EventBlockGas i64 u64

record feectx =
  f_BlockHeight :: i64
  f_MaxGas :: "i64 option"
  f_GasConsumedToLimit :: "u64 option"
  f_store :: "fee_val kv"
  f_transient :: "u64 option"
  f_events :: "fee_event list"

record FeeKeeper =
  LegacyDec_Mul :: "int \<Rightarrow> int \<Rightarrow> int"
  LegacyDec_TruncateInt :: "int \<Rightarrow> int"
  legacyParamSet :: FeeParams
  fee_authority :: string
  laneRegistrationTopic :: bytes
  laneDeregistrationTopic :: bytes

definition dec_one :: int where
  "dec_one = 10 ^ 18"

definition fee_DefaultParams :: FeeParams where
  "fee_DefaultParams = \<lparr>NoBaseFee = False, BaseFeeChangeDenominator = 8, ElasticityMultiplier = 2, EnableHeight = 0,
     fp_BaseFee = Some 1000000000, MinGasPrice = Some 0, MinGasMultiplier = Some (dec_one div 2)\<rparr>"

definition validateMinGasPrice :: "int option \<Rightarrow> (string, unit) result" where
  "validateMinGasPrice v =
     (case v of
        None \<Rightarrow> Inl ''invalid parameter: nil''
      | Some d \<Rightarrow> if d < 0 then Inl ''value cannot be negative'' else Inr ())"

definition validateMinGasMultiplier :: "int option \<Rightarrow> (string, unit) result" where
  "validateMinGasMultiplier v =
     (case v of
        None \<Rightarrow> Inl ''invalid parameter: nil''
      | Some d \<Rightarrow>
          if d < 0 then Inl ''value cannot be negative''
          else if dec_one < d then Inl ''value cannot be greater than 1''
          else Inr ())"

definition fee_Params_Validate :: "FeeParams \<Rightarrow> (string, unit) result" where
  "fee_Params_Validate p =
     (if BaseFeeChangeDenominator p = 0 then Inl ''base fee change denominator cannot be 0''
      else
        (case fp_BaseFee p of
           None \<Rightarrow> Inl ''panic: nil pointer dereference''
         | Some b \<Rightarrow>
             if b < 0 then Inl ''initial base fee cannot be negative''
             else if sint (EnableHeight p) < 0 then Inl ''enable height cannot be negative''
             else
               (case validateMinGasMultiplier (MinGasMultiplier p) of
                  Inl err \<Rightarrow> Inl err
                | Inr _ \<Rightarrow> validateMinGasPrice (MinGasPrice p))))"

definition IsBaseFeeEnabled :: "FeeParams \<Rightarrow> i64 \<Rightarrow> bool" where
  "IsBaseFeeEnabled p height \<longleftrightarrow> \<not> NoBaseFee p \<and> sint (EnableHeight p) \<le> sint height"

section \<open>Store\<close>

definition KeyPrefixBlockGasWanted :: bytes where "KeyPrefixBlockGasWanted = [1]"
definition KeyPrefixBaseFeeV1 :: bytes where "KeyPrefixBaseFeeV1 = [2]"
definition KeyLaneParams :: bytes where "KeyLaneParams = [3]"
definition KeyPrefixLaneMember :: bytes where "KeyPrefixLaneMember = [0x10]"
definition fee_ParamsKey :: bytes where "fee_ParamsKey = [0x50, 0x61, 0x72, 0x61, 0x6d, 0x73]"

definition LaneMemberKey :: "bytes \<Rightarrow> bytes" where
  "LaneMemberKey addr = KeyPrefixLaneMember @ addr"

lemmas fee_key_defs =
  KeyPrefixBlockGasWanted_def KeyPrefixBaseFeeV1_def KeyLaneParams_def KeyPrefixLaneMember_def fee_ParamsKey_def
  LaneMemberKey_def

definition fee_GetParams :: "FeeKeeper \<Rightarrow> feectx \<Rightarrow> FeeParams" where
  "fee_GetParams k ctx =
     (let params = (case kv_get (f_store ctx) fee_ParamsKey of Some (FParams p) \<Rightarrow> p | _ \<Rightarrow> legacyParamSet k);
          params = (if MinGasPrice params = None then params\<lparr>MinGasPrice := Some 0\<rparr> else params);
          params = (if MinGasMultiplier params = None then params\<lparr>MinGasMultiplier := Some 0\<rparr> else params)
      in params)"

definition fee_SetParams :: "feectx \<Rightarrow> FeeParams \<Rightarrow> feectx" where
  "fee_SetParams ctx params = ctx\<lparr>f_store := kv_set (f_store ctx) fee_ParamsKey (FParams params)\<rparr>"

definition GetBaseFeeEnabled :: "FeeKeeper \<Rightarrow> feectx \<Rightarrow> bool" where
  "GetBaseFeeEnabled k ctx \<longleftrightarrow>
     \<not> NoBaseFee (fee_GetParams k ctx) \<and> sint (EnableHeight (fee_GetParams k ctx)) \<le> sint (f_BlockHeight ctx)"

definition GetBaseFeeV1 :: "feectx \<Rightarrow> int option" where
  "GetBaseFeeV1 ctx =
     (case kv_get (f_store ctx) KeyPrefixBaseFeeV1 of
        Some (FBaseFeeV1 bz) \<Rightarrow> if bz = [] then None else Some (int (be_decode bz))
      | _ \<Rightarrow> None)"

definition GetBaseFee :: "FeeKeeper \<Rightarrow> feectx \<Rightarrow> int option" where
  "GetBaseFee k ctx =
     (let params = fee_GetParams k ctx in
      if NoBaseFee params then None
      else
        (case fp_BaseFee params of
           None \<Rightarrow> GetBaseFeeV1 ctx
         | Some baseFee \<Rightarrow> if baseFee = 0 then GetBaseFeeV1 ctx else Some baseFee))"

definition SetBaseFee :: "FeeKeeper \<Rightarrow> feectx \<Rightarrow> int \<Rightarrow> feectx" where
  "SetBaseFee k ctx baseFee = fee_SetParams ctx ((fee_GetParams k ctx)\<lparr>fp_BaseFee := Some baseFee\<rparr>)"

definition SetBlockGasWanted :: "feectx \<Rightarrow> u64 \<Rightarrow> feectx" where
  "SetBlockGasWanted ctx gas = ctx\<lparr>f_store := kv_set (f_store ctx) KeyPrefixBlockGasWanted (FGas gas)\<rparr>"

definition GetBlockGasWanted :: "feectx \<Rightarrow> u64" where
  "GetBlockGasWanted ctx = (case kv_get (f_store ctx) KeyPrefixBlockGasWanted of Some (FGas g) \<Rightarrow> g | _ \<Rightarrow> 0)"

definition GetTransientGasWanted :: "feectx \<Rightarrow> u64" where
  "GetTransientGasWanted ctx = (case f_transient ctx of None \<Rightarrow> 0 | Some g \<Rightarrow> g)"



section \<open>The base fee\<close>

text \<open>The result is a panic of a division by zero, or the new base fee, which is nil when there is none to set.\<close>

definition CalculateBaseFee :: "FeeKeeper \<Rightarrow> feectx \<Rightarrow> (string, int option) result" where
  "CalculateBaseFee k ctx =
     (let params = fee_GetParams k ctx in
      if \<not> IsBaseFeeEnabled params (f_BlockHeight ctx) then Inr None
      else if f_BlockHeight ctx = EnableHeight params then Inr (fp_BaseFee params)
      else
        (case fp_BaseFee params of
           None \<Rightarrow> Inr None
         | Some parentBaseFee \<Rightarrow>
             let parentGasUsed = GetBlockGasWanted ctx;
                 gasLimit = (case f_MaxGas ctx of
                     Some g \<Rightarrow> if - 1 < sint g then sint g else 2 ^ 64 - 1
                   | None \<Rightarrow> 2 ^ 64 - 1)
             in
             if ElasticityMultiplier params = 0 then Inl ''panic: division by zero''
             else
               let parentGasTargetBig = big_Div gasLimit (uint (ElasticityMultiplier params)) in
               if \<not> IsUint64 parentGasTargetBig then Inr None
               else
                 let parentGasTarget = Uint64 parentGasTargetBig;
                     baseFeeChangeDenominator = uint (BaseFeeChangeDenominator params)
                 in
                 if parentGasUsed = parentGasTarget then Inr (Some parentBaseFee)
                 else if parentGasTargetBig = 0 \<or> baseFeeChangeDenominator = 0 then Inl ''panic: division by zero''
                 else if parentGasTarget < parentGasUsed then
                   let gasUsedDelta = uint (parentGasUsed - parentGasTarget);
                       x = parentBaseFee * gasUsedDelta;
                       y = big_Div x parentGasTargetBig;
                       baseFeeDelta = max (big_Div y baseFeeChangeDenominator) 1
                   in Inr (Some (parentBaseFee + baseFeeDelta))
                 else
                   let gasUsedDelta = uint (parentGasTarget - parentGasUsed);
                       x = parentBaseFee * gasUsedDelta;
                       y = big_Div x parentGasTargetBig;
                       baseFeeDelta = big_Div y baseFeeChangeDenominator;
                       minGasPrice = LegacyDec_TruncateInt k (the (MinGasPrice params))
                   in Inr (Some (max (parentBaseFee - baseFeeDelta) minGasPrice))))"

definition fee_BeginBlock :: "FeeKeeper \<Rightarrow> feectx \<Rightarrow> (string, feectx) result" where
  "fee_BeginBlock k ctx =
     (case CalculateBaseFee k ctx of
        Inl p \<Rightarrow> Inl p
      | Inr None \<Rightarrow> Inr ctx
      | Inr (Some baseFee) \<Rightarrow>
          let ctx = SetBaseFee k ctx baseFee in
          Inr (ctx\<lparr>f_events := f_events ctx @ [EventFeeMarket baseFee]\<rparr>))"

definition fee_EndBlock :: "FeeKeeper \<Rightarrow> feectx \<Rightarrow> feectx" where
  "fee_EndBlock k ctx =
     (case f_GasConsumedToLimit ctx of
        None \<Rightarrow> ctx
      | Some used \<Rightarrow>
          let gasWanted = uint (GetTransientGasWanted ctx);
              gasUsed = uint used
          in
          if \<not> gasWanted < 2 ^ 63 then ctx
          else if \<not> gasUsed < 2 ^ 63 then ctx
          else
            let minGasMultiplier = the (MinGasMultiplier (fee_GetParams k ctx));
                limitedGasWanted = LegacyDec_Mul k (gasWanted * dec_one) minGasMultiplier;
                updatedGasWanted = Uint64 (LegacyDec_TruncateInt k (max limitedGasWanted (gasUsed * dec_one)));
                ctx = SetBlockGasWanted ctx updatedGasWanted
            in ctx\<lparr>f_events := f_events ctx @ [EventBlockGas (f_BlockHeight ctx) updatedGasWanted]\<rparr>)"


section \<open>The agent lane\<close>

definition DefaultLaneParams :: LaneParams where
  "DefaultLaneParams = \<lparr>lp_Enabled = False, lp_GasPrice = Some 0, lp_Registry = replicate 20 0\<rparr>"

definition lane_Validate :: "LaneParams \<Rightarrow> (string, unit) result" where
  "lane_Validate lp =
     (case lp_GasPrice lp of
        None \<Rightarrow> Inl ''lane gas_price must be non-nil''
      | Some g \<Rightarrow>
          if g < 0 then Inl ''lane gas_price must be non-negative''
          else if lp_Enabled lp \<and> g = 0 then Inl ''lane is enabled but gas_price is zero''
          else Inr ())"

definition RegistryAddress :: "LaneParams \<Rightarrow> addr" where
  "RegistryAddress lp = BytesToAddress (lp_Registry lp)"

definition GetLaneParams :: "feectx \<Rightarrow> LaneParams" where
  "GetLaneParams ctx =
     (case kv_get (f_store ctx) KeyLaneParams of
        Some (FLane lp) \<Rightarrow> if lp_GasPrice lp = None then lp\<lparr>lp_GasPrice := lp_GasPrice DefaultLaneParams\<rparr> else lp
      | _ \<Rightarrow> DefaultLaneParams)"

definition SetLaneParams :: "feectx \<Rightarrow> LaneParams \<Rightarrow> (string, feectx) result" where
  "SetLaneParams ctx lp =
     (case lane_Validate lp of
        Inl err \<Rightarrow> Inl err
      | Inr _ \<Rightarrow> Inr (ctx\<lparr>f_store := kv_set (f_store ctx) KeyLaneParams (FLane lp)\<rparr>))"

definition SetDefaultLaneParams :: "feectx \<Rightarrow> (string, feectx) result" where
  "SetDefaultLaneParams ctx = SetLaneParams ctx DefaultLaneParams"

definition IsAgentLaneEnabled :: "feectx \<Rightarrow> bool" where
  "IsAgentLaneEnabled ctx = lp_Enabled (GetLaneParams ctx)"

definition AddLaneMember :: "feectx \<Rightarrow> addr \<Rightarrow> feectx" where
  "AddLaneMember ctx addr = ctx\<lparr>f_store := kv_set (f_store ctx) (LaneMemberKey (addr_Bytes addr)) FMember\<rparr>"

definition RemoveLaneMember :: "feectx \<Rightarrow> addr \<Rightarrow> feectx" where
  "RemoveLaneMember ctx addr = ctx\<lparr>f_store := kv_delete (f_store ctx) (LaneMemberKey (addr_Bytes addr))\<rparr>"

definition IsLaneMember :: "feectx \<Rightarrow> addr \<Rightarrow> bool" where
  "IsLaneMember ctx addr = kv_has (f_store ctx) (LaneMemberKey (addr_Bytes addr))"

definition IsAgentLaneCaller :: "feectx \<Rightarrow> addr \<Rightarrow> addr \<Rightarrow> bool" where
  "IsAgentLaneCaller ctx signer target =
     (if \<not> IsAgentLaneEnabled ctx then False
      else if IsLaneMember ctx signer then True
      else if target = 0 then False
      else IsLaneMember ctx target)"

definition LaneGasPrice :: "feectx \<Rightarrow> addr \<Rightarrow> addr \<Rightarrow> int option" where
  "LaneGasPrice ctx signer target =
     (if \<not> IsAgentLaneCaller ctx signer target then None
      else
        (case lp_GasPrice (GetLaneParams ctx) of
           None \<Rightarrow> None
         | Some g \<Rightarrow> if g = 0 then None else Some g))"

record Log =
  log_Address :: addr
  log_Topics :: "bytes list"

definition mirror_log :: "FeeKeeper \<Rightarrow> addr \<Rightarrow> feectx \<Rightarrow> Log option \<Rightarrow> feectx" where
  "mirror_log k registry ctx entry =
     (case entry of
        None \<Rightarrow> ctx
      | Some log \<Rightarrow>
          if log_Address log \<noteq> registry then ctx
          else if length (log_Topics log) < 2 then ctx
          else
            let addr = BytesToAddress (log_Topics log ! 1) in
            if log_Topics log ! 0 = laneRegistrationTopic k then AddLaneMember ctx addr
            else if log_Topics log ! 0 = laneDeregistrationTopic k then RemoveLaneMember ctx addr
            else ctx)"

text \<open>The receipt is nil or carries the logs; a nil log is \<open>None\<close>.  The hook never returns an error.\<close>

definition PostTxProcessing :: "FeeKeeper \<Rightarrow> feectx \<Rightarrow> Log option list option \<Rightarrow> feectx" where
  "PostTxProcessing k ctx receipt =
     (case receipt of
        None \<Rightarrow> ctx
      | Some logs \<Rightarrow>
          if length logs = 0 then ctx
          else
            let registry = RegistryAddress (GetLaneParams ctx) in
            if registry = 0 then ctx else foldl (mirror_log k registry) ctx logs)"

section \<open>Genesis\<close>

record FeeGenesis =
  fg_Params :: FeeParams
  fg_BlockGas :: u64

definition fee_DefaultGenesis :: FeeGenesis where
  "fee_DefaultGenesis = \<lparr>fg_Params = fee_DefaultParams, fg_BlockGas = 0\<rparr>"

definition fee_Genesis_Validate :: "FeeGenesis \<Rightarrow> (string, unit) result" where
  "fee_Genesis_Validate gs = fee_Params_Validate (fg_Params gs)"

definition fee_InitGenesis :: "feectx \<Rightarrow> FeeGenesis \<Rightarrow> feectx" where
  "fee_InitGenesis ctx data = SetBlockGasWanted (fee_SetParams ctx (fg_Params data)) (fg_BlockGas data)"

definition fee_ExportGenesis :: "FeeKeeper \<Rightarrow> feectx \<Rightarrow> FeeGenesis" where
  "fee_ExportGenesis k ctx = \<lparr>fg_Params = fee_GetParams k ctx, fg_BlockGas = GetBlockGasWanted ctx\<rparr>"

section \<open>The base fee over blocks\<close>

text \<open>What is used of \<open>math.LegacyDec\<close>: the product of a whole number with a decimal is exact, and truncation rounds
  a value that is not negative down.\<close>

definition dec_laws :: "FeeKeeper \<Rightarrow> bool" where
  "dec_laws k \<longleftrightarrow> (\<forall>g m. LegacyDec_Mul k (g * dec_one) m = g * m) \<and>
     (\<forall>z. 0 \<le> z \<longrightarrow> LegacyDec_TruncateInt k z = z div dec_one)"






lemma Validate_fields:
  assumes "fee_Params_Validate p = Inr ()"
  obtains b g m where "fp_BaseFee p = Some b" "0 \<le> b" "MinGasPrice p = Some g" "0 \<le> g"
    "MinGasMultiplier p = Some m" "0 \<le> m" "m \<le> dec_one" "BaseFeeChangeDenominator p \<noteq> 0"
  using assms
  by (auto simp: fee_Params_Validate_def validateMinGasPrice_def validateMinGasMultiplier_def not_less
      split: if_splits option.splits sum.splits)

lemma fee_GetParams_valid:
  assumes "kv_get (f_store ctx) fee_ParamsKey = Some (FParams p)" "fee_Params_Validate p = Inr ()"
  shows "fee_GetParams k ctx = p"
  using assms by (auto simp: fee_GetParams_def elim: Validate_fields)













lemma mirror_log_frame:
  "kv_get (f_store (mirror_log k r ctx l)) fee_ParamsKey = kv_get (f_store ctx) fee_ParamsKey \<and>
   kv_get (f_store (mirror_log k r ctx l)) KeyLaneParams = kv_get (f_store ctx) KeyLaneParams \<and>
   kv_get (f_store (mirror_log k r ctx l)) KeyPrefixBlockGasWanted = kv_get (f_store ctx) KeyPrefixBlockGasWanted \<and>
   f_MaxGas (mirror_log k r ctx l) = f_MaxGas ctx"
  by (auto simp: mirror_log_def AddLaneMember_def RemoveLaneMember_def Let_def kv.get_set kv.get_delete fee_key_defs
      simp del: kv_set.simps split: option.split)

lemma PostTxProcessing_frame:
  "kv_get (f_store (PostTxProcessing k ctx rc)) fee_ParamsKey = kv_get (f_store ctx) fee_ParamsKey \<and>
   kv_get (f_store (PostTxProcessing k ctx rc)) KeyLaneParams = kv_get (f_store ctx) KeyLaneParams \<and>
   kv_get (f_store (PostTxProcessing k ctx rc)) KeyPrefixBlockGasWanted = kv_get (f_store ctx) KeyPrefixBlockGasWanted \<and>
   f_MaxGas (PostTxProcessing k ctx rc) = f_MaxGas ctx"
proof -
  have "kv_get (f_store (foldl (mirror_log k r) ctx ls)) fee_ParamsKey = kv_get (f_store ctx) fee_ParamsKey \<and>
    kv_get (f_store (foldl (mirror_log k r) ctx ls)) KeyLaneParams = kv_get (f_store ctx) KeyLaneParams \<and>
    kv_get (f_store (foldl (mirror_log k r) ctx ls)) KeyPrefixBlockGasWanted = kv_get (f_store ctx) KeyPrefixBlockGasWanted \<and>
    f_MaxGas (foldl (mirror_log k r) ctx ls) = f_MaxGas ctx" for r ls
    by (induction ls arbitrary: ctx) (simp_all add: mirror_log_frame)
  then show ?thesis
    by (simp add: PostTxProcessing_def Let_def split: option.split)
qed




section \<open>Mirroring registry events\<close>

text \<open>The change of membership a log asks for.\<close>

definition lane_event :: "FeeKeeper \<Rightarrow> addr \<Rightarrow> Log option \<Rightarrow> (addr \<times> bool) option" where
  "lane_event k registry entry =
     (case entry of
        None \<Rightarrow> None
      | Some log \<Rightarrow>
          if log_Address log = registry \<and> 2 \<le> length (log_Topics log) then
            if log_Topics log ! 0 = laneRegistrationTopic k then Some (BytesToAddress (log_Topics log ! 1), True)
            else if log_Topics log ! 0 = laneDeregistrationTopic k then Some (BytesToAddress (log_Topics log ! 1), False)
            else None
          else None)"

lemma IsLaneMember_mirror:
  "IsLaneMember (mirror_log k registry ctx l) a =
     (case lane_event k registry l of Some (a', m) \<Rightarrow> if a' = a then m else IsLaneMember ctx a | None \<Rightarrow> IsLaneMember ctx a)"
  by (auto simp: mirror_log_def lane_event_def AddLaneMember_def RemoveLaneMember_def IsLaneMember_def kv_has_def Let_def
      kv.get_set kv.get_delete LaneMemberKey_def simp del: kv_set.simps split: option.split)

lemma IsLaneMember_foldl:
  "IsLaneMember (foldl (mirror_log k registry) ctx logs) a =
     (case map_of (rev (List.map_filter (lane_event k registry) logs)) a of Some m \<Rightarrow> m | None \<Rightarrow> IsLaneMember ctx a)"
proof (induction logs arbitrary: ctx)
  case (Cons l logs)
  have "IsLaneMember (foldl (mirror_log k registry) ctx (l # logs)) a =
      (case map_of (rev (List.map_filter (lane_event k registry) logs)) a of Some m \<Rightarrow> m
       | None \<Rightarrow> IsLaneMember (mirror_log k registry ctx l) a)"
    by (simp add: Cons.IH)
  then show ?case
    by (cases "lane_event k registry l") (auto simp: IsLaneMember_mirror map_filter_simps map_add_def split: option.split)
qed (simp add: map_filter_simps)

section \<open>A demonstration instance\<close>

definition fdemo :: FeeKeeper where
  "fdemo = \<lparr>LegacyDec_Mul = (\<lambda>x y. x * y div dec_one), LegacyDec_TruncateInt = (\<lambda>z. z div dec_one),
     legacyParamSet = fee_DefaultParams, fee_authority = ''gov'', laneRegistrationTopic = [1], laneDeregistrationTopic = [2]\<rparr>"

definition fdemo_ctx :: feectx where
  "fdemo_ctx = SetBlockGasWanted (fee_SetParams \<lparr>f_BlockHeight = 5, f_MaxGas = Some 30000000, f_GasConsumedToLimit = Some 40,
     f_store = [], f_transient = Some 100, f_events = []\<rparr> fee_DefaultParams) 30000000"

lemma fdemo_dec_laws: "dec_laws fdemo"
  by (simp add: dec_laws_def fdemo_def dec_one_def)





section \<open>Properties\<close>





text \<open>What the end of a block records as gas wanted, with the gas meter present and both amounts below 2^63: the larger of
  the gas used and the share of the gas wanted that the multiplier keeps, so at least the gas used and
  never more than the larger of gas used and gas wanted.  A multiplier of one half makes wanted but unused gas count half.\<close>

lemma gas_wanted_recorded:
  assumes "dec_laws k" "kv_get (f_store ctx) fee_ParamsKey = Some (FParams p)" "fee_Params_Validate p = Inr ()"
    "f_GasConsumedToLimit ctx = Some used" "uint used < 2 ^ 63" "uint (GetTransientGasWanted ctx) < 2 ^ 63"
  defines "wanted \<equiv> uint (GetTransientGasWanted ctx)" and "recorded \<equiv> uint (GetBlockGasWanted (fee_EndBlock k ctx))"
  shows "recorded = max (wanted * the (MinGasMultiplier p) div 10 ^ 18) (uint used) \<and>
    uint used \<le> recorded \<and> recorded \<le> max wanted (uint used)"
proof -
  obtain m where m: "MinGasMultiplier p = Some m" "0 \<le> m" "m \<le> dec_one"
    using assms(3) by (rule Validate_fields)
  have w: "0 \<le> wanted" "wanted < 2 ^ 63"
    using assms(6) by (simp_all add: wanted_def)
  let ?x = "wanted * m div dec_one"
  have one: "0 < dec_one"
    by (simp add: dec_one_def)
  have x: "0 \<le> ?x" "?x \<le> wanted"
  proof -
    show "0 \<le> ?x"
      using w m one by (simp add: pos_imp_zdiv_nonneg_iff)
    have "wanted * m div dec_one \<le> wanted * dec_one div dec_one"
      using w m one by (intro zdiv_mono1 mult_left_mono) auto
    then show "?x \<le> wanted"
      using one by simp
  qed
  have "0 \<le> wanted * m" "0 \<le> uint used * dec_one"
    using w m one by simp_all
  then have "LegacyDec_TruncateInt k (max (wanted * m) (uint used * dec_one)) = max (wanted * m) (uint used * dec_one) div dec_one"
    using assms(1) by (simp add: dec_laws_def max_def)
  also have "\<dots> = max ?x (uint used)"
    using one zdiv_mono1 [of "wanted * m" "uint used * dec_one" dec_one] zdiv_mono1 [of "uint used * dec_one" "wanted * m" dec_one]
    by (auto simp: max_def)
  finally have t: "LegacyDec_TruncateInt k (max (wanted * m) (uint used * dec_one)) = max ?x (uint used)" .
  have "max ?x (uint used) < 2 ^ 64" "0 \<le> max ?x (uint used)"
    using x w assms(5) by auto
  then have "uint (Uint64 (max ?x (uint used))) = max ?x (uint used)"
    by (intro uint_Uint64)
  then have "recorded = max ?x (uint used)"
    using assms(1,4-6) m(1) t fee_GetParams_valid [OF assms(2,3), of k]
    by (simp add: recorded_def fee_EndBlock_def GetBlockGasWanted_def SetBlockGasWanted_def kv.get_set Let_def dec_laws_def
        wanted_def del: kv_set.simps)
  then show ?thesis
    using x by (auto simp: m(1) dec_one_def)
qed

text \<open>C26. The lane mirrors its registry.  After the hook has run on a receipt, an address is a member exactly when the last
  registration or deregistration of it that the registry contract logged was a registration, or there was none and it
  was a member before; logs of other contracts count for nothing, and no parameter or gas counter changes.\<close>

theorem lane_mirrors_registry:
  assumes "RegistryAddress (GetLaneParams ctx) \<noteq> 0"
  shows "(IsLaneMember (PostTxProcessing k ctx (Some logs)) a \<longleftrightarrow>
      (case map_of (rev (List.map_filter (lane_event k (RegistryAddress (GetLaneParams ctx))) logs)) a of
         Some registered \<Rightarrow> registered
       | None \<Rightarrow> IsLaneMember ctx a)) \<and>
    GetLaneParams (PostTxProcessing k ctx (Some logs)) = GetLaneParams ctx \<and>
    fee_GetParams k (PostTxProcessing k ctx (Some logs)) = fee_GetParams k ctx \<and>
    GetBlockGasWanted (PostTxProcessing k ctx (Some logs)) = GetBlockGasWanted ctx"
  using assms IsLaneMember_foldl [of k "RegistryAddress (GetLaneParams ctx)" ctx logs a] PostTxProcessing_frame [of k ctx "Some logs"]
  by (auto simp: PostTxProcessing_def Let_def GetLaneParams_def fee_GetParams_def GetBlockGasWanted_def map_filter_simps)

theorem lane_mirrors_registry_witness:
  "\<exists>ctx. IsLaneMember (PostTxProcessing fdemo ctx (Some [Some \<lparr>log_Address = 9, log_Topics = [[1], addr_Bytes 7]\<rparr>,
     None, Some \<lparr>log_Address = 8, log_Topics = [[2], addr_Bytes 7]\<rparr>])) 7"
proof -
  let ?ctx = "fdemo_ctx\<lparr>f_store := [(KeyLaneParams, FLane \<lparr>lp_Enabled = False, lp_GasPrice = Some 0, lp_Registry = addr_Bytes 9\<rparr>)]\<rparr>"
  have "GetLaneParams ?ctx = \<lparr>lp_Enabled = False, lp_GasPrice = Some 0, lp_Registry = addr_Bytes 9\<rparr>"
    by (simp add: GetLaneParams_def kv_get_def)
  then have r: "RegistryAddress (GetLaneParams ?ctx) = 9"
    by (simp add: RegistryAddress_def)
  have ev: "lane_event fdemo 9 (Some \<lparr>log_Address = 9, log_Topics = [[1], addr_Bytes 7]\<rparr>) = Some (7, True)"
    "lane_event fdemo 9 None = None" "lane_event fdemo 9 (Some \<lparr>log_Address = 8, log_Topics = [[2], addr_Bytes 7]\<rparr>) = None"
    by (simp_all add: lane_event_def fdemo_def)
  show ?thesis
    using lane_mirrors_registry [of ?ctx fdemo "[Some \<lparr>log_Address = 9, log_Topics = [[1], addr_Bytes 7]\<rparr>,
      None, Some \<lparr>log_Address = 8, log_Topics = [[2], addr_Bytes 7]\<rparr>]" 7] r ev
    by (intro exI [of _ ?ctx]) (simp add: map_filter_simps)
qed

text \<open>Parameters that pass validation can make the start of every block panic: the comment in \<open>CalculateBaseFee\<close> relies on a
  check of the elasticity multiplier that validation does not make.\<close>

lemma valid_params_panic:
  "fee_Params_Validate (fee_DefaultParams\<lparr>ElasticityMultiplier := 0\<rparr>) = Inr () \<and>
   fee_BeginBlock fdemo (fee_SetParams fdemo_ctx (fee_DefaultParams\<lparr>ElasticityMultiplier := 0\<rparr>)) = Inl ''panic: division by zero''"
  by code_simp

text \<open>Export leaves out the lane: after export and import of a state with an enabled lane the lane is disabled.\<close>

lemma genesis_drops_lane:
  "\<exists>ctx ctx0. f_store ctx0 = [] \<and> IsAgentLaneEnabled ctx \<and> \<not> IsAgentLaneEnabled (fee_InitGenesis ctx0 (fee_ExportGenesis fdemo ctx))"
proof (intro exI conjI)
  let ?ctx = "fdemo_ctx\<lparr>f_store := [(KeyLaneParams, FLane \<lparr>lp_Enabled = True, lp_GasPrice = Some 5, lp_Registry = []\<rparr>)]\<rparr>"
  show "f_store (fdemo_ctx\<lparr>f_store := []\<rparr>) = []"
    by simp
  show "IsAgentLaneEnabled ?ctx" "\<not> IsAgentLaneEnabled (fee_InitGenesis (fdemo_ctx\<lparr>f_store := []\<rparr>) (fee_ExportGenesis fdemo ?ctx))"
    by code_simp+
qed

end
