(* ===== verification/Attestor.thy ===== *)
theory Attestor
  imports KV_Store Proto_Wire
begin

text \<open>
  The trusted roots of the TEE attestor (\<open>x/attestor\<close>): parameters, the root sets of the four families, the governance
  message that replaces a set, and genesis.

  A root set is spread over the store: one entry per root under the family's prefix and the number of roots under a key
  of its own.  \<open>roots_rep\<close> states that the store holds a map from families to lists of roots; \<open>SetFamilyRoots\<close> is shown
  to be the update of that map at one family and \<open>RootsForFamily\<close> its lookup.

  The bech32 codec of the SDK is a field of the keeper record.  Root values are the stored bytes; the parameters are
  kept typed, as the source only wraps them in JSON.  Logging is not modelled.
\<close>

section \<open>Data\<close>

definition FamilyIntelTDX :: u8 where "FamilyIntelTDX = 0"
definition FamilyAMDSEVSNP :: u8 where "FamilyAMDSEVSNP = 1"
definition FamilyNVIDIAH100 :: u8 where "FamilyNVIDIAH100 = 2"
definition FamilyIntelSGX :: u8 where "FamilyIntelSGX = 3"
definition FamilyMax :: u8 where "FamilyMax = FamilyIntelSGX"

lemmas family_defs = FamilyIntelTDX_def FamilyAMDSEVSNP_def FamilyNVIDIAH100_def FamilyIntelSGX_def FamilyMax_def

definition FamilyName :: "u8 \<Rightarrow> string" where
  "FamilyName f =
     (if f = FamilyIntelTDX then ''intel_tdx''
      else if f = FamilyAMDSEVSNP then ''amd_sev_snp''
      else if f = FamilyNVIDIAH100 then ''nvidia_h100''
      else if f = FamilyIntelSGX then ''intel_sgx''
      else ''unknown'')"

record AttParams =
  ap_GasVerifyBase :: u64
  ap_GasFamilyTDX :: u64
  ap_GasFamilySEV :: u64
  ap_GasFamilyNVIDIA :: u64
  ap_GasFamilySGX :: u64
  ap_GasView :: u64
  ap_MaxAttestationAge :: i64
  ap_DebugAllowed :: bool

definition att_DefaultParams :: AttParams where
  "att_DefaultParams =
     \<lparr>ap_GasVerifyBase = 30000, ap_GasFamilyTDX = 10000, ap_GasFamilySEV = 12000, ap_GasFamilyNVIDIA = 15000,
      ap_GasFamilySGX = 8000, ap_GasView = 200, ap_MaxAttestationAge = 600, ap_DebugAllowed = False\<rparr>"

definition att_Params_Validate :: "AttParams \<Rightarrow> (string, unit) result" where
  "att_Params_Validate p =
     (if ap_GasVerifyBase p = 0 then Inl ''gas_verify_base must be > 0''
      else if sint (ap_MaxAttestationAge p) \<le> 0 then Inl ''max_attestation_age must be > 0''
      else Inr ())"

datatype AttErr =
    AErrUnknownFamily
  | AErrNoRootsLoaded
  | AErrInvalidQuote string
  | AErrUntrustedChain string
  | AErrAttestationStale
  | AErrDebugRejected
  | AErrReportDataMismatch
  | AErrUnauthorizedUpdate
  | AErrInvalidAddress
  | AErrOther string

datatype att_val = ABytes bytes | AParams AttParams

datatype att_event = RootsUpdated u8 string nat string

record actx =
  a_store :: "att_val kv"
  a_BlockTime :: i64
  a_events :: "att_event list"

record AttKeeper =
  ak_authority :: bytes
  ak_AccAddressFromBech32 :: "string \<Rightarrow> bytes option"
  ak_AccAddress_String :: "bytes \<Rightarrow> string"

definition RootKeyPrefix :: bytes where "RootKeyPrefix = [1]"
definition RootCountKeyPrefix :: bytes where "RootCountKeyPrefix = [2]"
definition att_ParamsKey :: bytes where "att_ParamsKey = [3]"

definition u32_be :: "u32 \<Rightarrow> bytes" where
  "u32_be v = be_encode 4 (unat v)"

definition RootKey :: "u8 \<Rightarrow> u32 \<Rightarrow> bytes" where
  "RootKey family index = RootKeyPrefix @ [family] @ u32_be index"

definition RootsByFamilyPrefix :: "u8 \<Rightarrow> bytes" where
  "RootsByFamilyPrefix family = RootKeyPrefix @ [family]"

definition RootCountKey :: "u8 \<Rightarrow> bytes" where
  "RootCountKey family = RootCountKeyPrefix @ [family]"

lemmas att_key_defs =
  RootKeyPrefix_def RootCountKeyPrefix_def att_ParamsKey_def RootKey_def RootsByFamilyPrefix_def RootCountKey_def

section \<open>Keeper\<close>

definition att_GetParams :: "actx \<Rightarrow> AttParams" where
  "att_GetParams ctx = (case kv_get (a_store ctx) att_ParamsKey of Some (AParams p) \<Rightarrow> p | _ \<Rightarrow> att_DefaultParams)"

definition att_SetParams :: "actx \<Rightarrow> AttParams \<Rightarrow> (string, actx) result" where
  "att_SetParams ctx params =
     (case att_Params_Validate params of
        Inl err \<Rightarrow> Inl err
      | Inr _ \<Rightarrow> Inr (ctx\<lparr>a_store := kv_set (a_store ctx) att_ParamsKey (AParams params)\<rparr>))"

definition SetFamilyRoots :: "actx \<Rightarrow> u8 \<Rightarrow> bytes list \<Rightarrow> (AttErr, actx) result" where
  "SetFamilyRoots ctx family roots =
     (if FamilyMax < family then Inl AErrUnknownFamily
      else
        let store = a_store ctx;
            oldKeys = map fst (kv_iter store (RootsByFamilyPrefix family));
            store = foldl kv_delete store oldKeys;
            store = foldl (\<lambda>s (i, r). kv_set s (RootKey family (word_of_nat i)) (ABytes r)) store (enumerate 0 roots);
            store = kv_set store (RootCountKey family) (ABytes (u32_be (word_of_nat (length roots))))
        in Inr (ctx\<lparr>a_store := store\<rparr>))"

definition RootOf :: "actx \<Rightarrow> u8 \<Rightarrow> u32 \<Rightarrow> bytes option" where
  "RootOf ctx family index =
     (if FamilyMax < family then None
      else (case kv_get (a_store ctx) (RootKey family index) of Some (ABytes bz) \<Rightarrow> Some bz | _ \<Rightarrow> None))"

definition RootCount :: "actx \<Rightarrow> u8 \<Rightarrow> u32" where
  "RootCount ctx family =
     (if FamilyMax < family then 0
      else (case kv_get (a_store ctx) (RootCountKey family) of
              Some (ABytes bz) \<Rightarrow> word_of_nat (be_decode (take 4 bz)) | _ \<Rightarrow> 0))"

definition RootsForFamily :: "actx \<Rightarrow> u8 \<Rightarrow> bytes list" where
  "RootsForFamily ctx family =
     List.map_filter (\<lambda>i. RootOf ctx family (word_of_nat i)) [0..<unat (RootCount ctx family)]"

record FamilyRoots =
  fr_Family :: u8
  fr_Roots :: "bytes list"

definition AllFamilyRoots :: "actx \<Rightarrow> FamilyRoots list" where
  "AllFamilyRoots ctx =
     List.map_filter
       (\<lambda>fam. let roots = RootsForFamily ctx fam in
              if 0 < length roots then Some \<lparr>fr_Family = fam, fr_Roots = roots\<rparr> else None)
       (map word_of_nat [0..<Suc (unat FamilyMax)])"

section \<open>The governance message\<close>

definition FamilyByte :: "MsgUpdateTEERoots \<Rightarrow> u8" where
  "FamilyByte msg = ucast (mt_Family msg)"

definition NewMsgUpdateTEERoots :: "string \<Rightarrow> u8 \<Rightarrow> bytes list \<Rightarrow> MsgUpdateTEERoots" where
  "NewMsgUpdateTEERoots authority family roots =
     \<lparr>mt_Authority = authority, mt_Family = ucast family, mt_Roots = roots\<rparr>"

definition mt_ValidateBasic :: "AttKeeper \<Rightarrow> MsgUpdateTEERoots \<Rightarrow> (AttErr, unit) result" where
  "mt_ValidateBasic k msg =
     (if ak_AccAddressFromBech32 k (mt_Authority msg) = None then Inl AErrInvalidAddress
      else if ucast FamilyMax < mt_Family msg then Inl AErrUnknownFamily
      else if list_ex (\<lambda>r. length r = 0) (mt_Roots msg) then Inl (AErrOther ''root is empty'')
      else Inr ())"

definition UpdateTEERoots :: "AttKeeper \<Rightarrow> actx \<Rightarrow> MsgUpdateTEERoots \<Rightarrow> actx \<times> (AttErr, unit) result" where
  "UpdateTEERoots k ctx msg =
     (case mt_ValidateBasic k msg of
        Inl err \<Rightarrow> (ctx, Inl err)
      | Inr _ \<Rightarrow>
          (case ak_AccAddressFromBech32 k (mt_Authority msg) of
             None \<Rightarrow> (ctx, Inl AErrInvalidAddress)
           | Some signer \<Rightarrow>
               if signer \<noteq> ak_authority k then (ctx, Inl AErrUnauthorizedUpdate)
               else
                 let family = FamilyByte msg in
                 (case SetFamilyRoots ctx family (mt_Roots msg) of
                    Inl err \<Rightarrow> (ctx, Inl err)
                  | Inr ctx \<Rightarrow>
                      (ctx\<lparr>a_events := a_events ctx @
                         [RootsUpdated family (FamilyName family) (length (mt_Roots msg)) (ak_AccAddress_String k signer)]\<rparr>,
                       Inr ()))))"

section \<open>Genesis\<close>

record AttGenesis =
  ag_Params :: AttParams
  ag_FamilyRoots :: "FamilyRoots list"

definition att_DefaultGenesis :: AttGenesis where
  "att_DefaultGenesis = \<lparr>ag_Params = att_DefaultParams, ag_FamilyRoots = []\<rparr>"

primrec att_validate_families :: "u8 set \<Rightarrow> FamilyRoots list \<Rightarrow> (string, unit) result" where
  "att_validate_families seen [] = Inr ()"
| "att_validate_families seen (fr # frs) =
     (if FamilyMax < fr_Family fr then Inl ''invalid family id''
      else if fr_Family fr \<in> seen then Inl ''duplicate family roots entry''
      else if list_ex (\<lambda>r. length r = 0) (fr_Roots fr) then Inl ''empty root''
      else att_validate_families (insert (fr_Family fr) seen) frs)"

definition att_Genesis_Validate :: "AttGenesis \<Rightarrow> (string, unit) result" where
  "att_Genesis_Validate gs =
     (case att_Params_Validate (ag_Params gs) of
        Inl err \<Rightarrow> Inl (''invalid params: '' @ err)
      | Inr _ \<Rightarrow> att_validate_families {} (ag_FamilyRoots gs))"

primrec init_families :: "actx \<Rightarrow> FamilyRoots list \<Rightarrow> (string, actx) result" where
  "init_families ctx [] = Inr ctx"
| "init_families ctx (fr # frs) =
     (case SetFamilyRoots ctx (fr_Family fr) (fr_Roots fr) of
        Inl err \<Rightarrow> Inl ''panic: unknown TEE family''
      | Inr ctx \<Rightarrow> init_families ctx frs)"

definition att_InitGenesis :: "actx \<Rightarrow> AttGenesis \<Rightarrow> (string, actx) result" where
  "att_InitGenesis ctx genState =
     (case att_SetParams ctx (ag_Params genState) of
        Inl err \<Rightarrow> Inl (''panic: '' @ err)
      | Inr ctx \<Rightarrow> init_families ctx (ag_FamilyRoots genState))"

definition att_ExportGenesis :: "actx \<Rightarrow> AttGenesis" where
  "att_ExportGenesis ctx = \<lparr>ag_Params = att_GetParams ctx, ag_FamilyRoots = AllFamilyRoots ctx\<rparr>"

section \<open>Root sets in the store\<close>

lemma u32_be_inject [simp, key_simps]: "u32_be v = u32_be w \<longleftrightarrow> v = w"
proof -
  have "unat x < 256 ^ 4" for x :: u32
    using unsigned_less [of x, where ?'a = nat] by simp
  then show ?thesis
    by (simp add: u32_be_def be_encode_inject word_unat_eq_iff [of v w])
qed

lemma length_u32_be [simp, key_simps]: "length (u32_be v) = 4"
  by (simp add: u32_be_def)

lemma u32_be_decode [simp]: "word_of_nat (be_decode (u32_be v)) = v"
  using unsigned_less [of v, where ?'a = nat] by (simp add: u32_be_def be_decode_encode)

lemma RootKey_inject [simp, key_simps]: "RootKey f i = RootKey g j \<longleftrightarrow> f = g \<and> i = j"
  by (simp add: att_key_defs)

lemma att_keys_disjoint [simp, key_simps]:
  "RootKey f i \<noteq> RootCountKey g" "RootCountKey g \<noteq> RootKey f i" "RootKey f i \<noteq> att_ParamsKey" "att_ParamsKey \<noteq> RootKey f i"
  "RootCountKey g \<noteq> att_ParamsKey" "att_ParamsKey \<noteq> RootCountKey g" "RootCountKey f = RootCountKey g \<longleftrightarrow> f = g"
  by (auto simp: att_key_defs)

lemma prefix_RootKey [simp, key_simps]:
  "has_prefix (RootsByFamilyPrefix f) (RootKey g i) \<longleftrightarrow> f = g"
  "\<not> has_prefix (RootsByFamilyPrefix f) (RootCountKey g)"
  "\<not> has_prefix (RootsByFamilyPrefix f) att_ParamsKey"
  by (auto simp: att_key_defs)

text \<open>What \<open>SetFamilyRoots\<close> leaves in the store.\<close>

definition root_entries :: "u8 \<Rightarrow> bytes list \<Rightarrow> (bytes \<times> att_val) list" where
  "root_entries f roots = map (\<lambda>(i, r). (RootKey f (word_of_nat i), ABytes r)) (enumerate 0 roots)"

lemma root_entries_nth:
  "root_entries f roots = map (\<lambda>a. (RootKey f (word_of_nat a), ABytes (roots ! a))) [0..<length roots]"
  unfolding root_entries_def by (rule nth_equalityI) (auto simp: nth_enumerate_eq)

lemma map_of_root_entries:
  assumes "length roots < 2 ^ 32"
  shows "map_of (rev (root_entries f roots)) (RootKey g i) =
    (if f = g \<and> unat i < length roots then Some (ABytes (roots ! unat i)) else None)"
proof (rule option_eqI)
  fix v
  have u: "unat (word_of_nat a :: u32) = a" if "a < length roots" for a
    using that assms by (simp add: unat_of_nat)
  have "inj_on (\<lambda>a. word_of_nat a :: u32) {0..<length roots}"
    by (rule inj_on_inverseI [of _ unat]) (simp add: u)
  then have d: "distinct (map fst (rev (root_entries f roots)))"
    by (simp add: root_entries_nth comp_def distinct_map inj_on_def flip: rev_map)
  have ex: "(\<exists>a<length roots. i = word_of_nat a \<and> v = ABytes (roots ! a)) \<longleftrightarrow>
      unat i < length roots \<and> v = ABytes (roots ! unat i)"
    using u by (auto intro!: exI [of _ "unat i"])
  have "map_of (rev (root_entries f roots)) (RootKey g i) = Some v \<longleftrightarrow> (RootKey g i, v) \<in> set (root_entries f roots)"
    using map_of_eq_Some_iff [OF d] by simp
  also have "\<dots> \<longleftrightarrow> f = g \<and> (\<exists>a<length roots. i = word_of_nat a \<and> v = ABytes (roots ! a))"
    by (auto simp: root_entries_nth)
  finally show "(map_of (rev (root_entries f roots)) (RootKey g i) = Some v) =
      ((if f = g \<and> unat i < length roots then Some (ABytes (roots ! unat i)) else None) = Some v)"
    unfolding ex by auto
qed

lemma map_of_root_entries_other: "(\<And>i. k \<noteq> RootKey f i) \<Longrightarrow> map_of (rev (root_entries f roots)) k = None"
  by (rule ccontr) (force simp: root_entries_nth dest!: map_of_SomeD)

lemma SetFamilyRoots_store:
  assumes "SetFamilyRoots ctx f roots = Inr ctx'" "kv_wf (a_store ctx)"
  shows "kv_wf (a_store ctx')"
    and "kv_get (a_store ctx') k =
      (if k = RootCountKey f then Some (ABytes (u32_be (word_of_nat (length roots))))
       else case map_of (rev (root_entries f roots)) k of
         Some v \<Rightarrow> Some v
       | None \<Rightarrow> if has_prefix (RootsByFamilyPrefix f) k then None else kv_get (a_store ctx) k)"
    and "ctx' = ctx\<lparr>a_store := a_store ctx'\<rparr>"
proof -
  define keys where "keys = map fst (kv_iter (a_store ctx) (RootsByFamilyPrefix f))"
  define st where "st = fold (\<lambda>k s. kv_delete s k) keys (a_store ctx)"
  have ctx': "ctx' = ctx\<lparr>a_store := kv_set (foldl (\<lambda>s (k, v). kv_set s k v) st (root_entries f roots)) (RootCountKey f)
      (ABytes (u32_be (word_of_nat (length roots))))\<rparr>"
    using assms(1) unfolding SetFamilyRoots_def Let_def st_def keys_def
    by (auto simp: root_entries_def foldl_conv_fold case_prod_unfold fold_map comp_def split: if_splits)
  have wf: "kv_wf st"
    unfolding st_def by (rule kv.wf_deletes [OF assms(2)])
  then show "kv_wf (a_store ctx')"
    by (simp add: ctx' kv_wf_foldl_set kv.wf_set)
  have keys: "k \<in> set keys \<longleftrightarrow> has_prefix (RootsByFamilyPrefix f) k \<and> kv_get (a_store ctx) k \<noteq> None" for k
    using kv.iter_iff [OF assms(2)] unfolding keys_def by force
  have "kv_get st k = (if has_prefix (RootsByFamilyPrefix f) k then None else kv_get (a_store ctx) k)" for k
    unfolding st_def kv.get_deletes keys by auto
  then show "kv_get (a_store ctx') k =
      (if k = RootCountKey f then Some (ABytes (u32_be (word_of_nat (length roots))))
       else case map_of (rev (root_entries f roots)) k of
         Some v \<Rightarrow> Some v
       | None \<Rightarrow> if has_prefix (RootsByFamilyPrefix f) k then None else kv_get (a_store ctx) k)"
    by (simp add: ctx' kv.get_set kv_get_foldl_set map_add_def split: option.split)
  show "ctx' = ctx\<lparr>a_store := a_store ctx'\<rparr>"
    by (simp add: ctx')
qed

lemma SetFamilyRoots_ok: "(\<exists>ctx'. SetFamilyRoots ctx f roots = Inr ctx') \<longleftrightarrow> f \<le> FamilyMax"
  by (auto simp: SetFamilyRoots_def Let_def not_le)

definition root_set_ok :: "bytes list \<Rightarrow> bool" where
  "root_set_ok roots \<longleftrightarrow> length roots < 2 ^ 32 \<and> [] \<notin> set roots"

definition family_rep :: "att_val kv \<Rightarrow> u8 \<Rightarrow> bytes list \<Rightarrow> bool" where
  "family_rep st f roots \<longleftrightarrow>
     (\<forall>i. kv_get st (RootKey f i) = (if unat i < length roots then Some (ABytes (roots ! unat i)) else None)) \<and>
     (kv_get st (RootCountKey f) = Some (ABytes (u32_be (word_of_nat (length roots)))) \<or>
      roots = [] \<and> kv_get st (RootCountKey f) = None)"

definition params_rep :: "att_val kv \<Rightarrow> bool" where
  "params_rep st \<longleftrightarrow>
     (case kv_get st att_ParamsKey of
        None \<Rightarrow> True | Some (AParams p) \<Rightarrow> att_Params_Validate p = Inr () | Some (ABytes _) \<Rightarrow> False)"

text \<open>The store holds the map \<open>T\<close> from families to root sets.\<close>

definition roots_rep :: "actx \<Rightarrow> (u8 \<Rightarrow> bytes list) \<Rightarrow> bool" where
  "roots_rep ctx T \<longleftrightarrow>
     kv_wf (a_store ctx) \<and> params_rep (a_store ctx) \<and>
     (\<forall>f. if f \<le> FamilyMax then root_set_ok (T f) \<and> family_rep (a_store ctx) f (T f) else T f = [])"

lemma roots_rep_empty: "roots_rep (ctx\<lparr>a_store := []\<rparr>) (\<lambda>_. [])"
  by (simp add: roots_rep_def params_rep_def family_rep_def root_set_ok_def kv_get_def)

lemma roots_repD:
  assumes "roots_rep ctx T"
  shows "f \<le> FamilyMax \<Longrightarrow> root_set_ok (T f)" "f \<le> FamilyMax \<Longrightarrow> family_rep (a_store ctx) f (T f)"
    "FamilyMax < f \<Longrightarrow> T f = []"
  using assms unfolding roots_rep_def by (metis linorder_not_le)+

lemma roots_rep_cong: "a_store ctx = a_store ctx' \<Longrightarrow> roots_rep ctx T = roots_rep ctx' T"
  by (simp add: roots_rep_def)

lemma RootOf_rep:
  assumes "roots_rep ctx T"
  shows "RootOf ctx f i = (if unat i < length (T f) then Some (T f ! unat i) else None)"
  using roots_repD [OF assms, of f] by (cases "FamilyMax < f") (auto simp: RootOf_def family_rep_def)

lemma RootCount_rep:
  assumes "roots_rep ctx T"
  shows "RootCount ctx f = word_of_nat (length (T f))"
  using roots_repD [OF assms, of f] by (cases "FamilyMax < f") (auto simp: RootCount_def family_rep_def not_less)

lemma roots_rep_length:
  assumes "roots_rep ctx T"
  shows "length (T f) < 2 ^ 32"
  using roots_repD [OF assms, of f] by (cases "FamilyMax < f") (auto simp: root_set_ok_def)

lemma RootsForFamily_rep:
  assumes "roots_rep ctx T"
  shows "RootsForFamily ctx f = T f"
proof -
  have l: "unat (word_of_nat i :: u32) = i" if "i \<le> length (T f)" for i
    using roots_rep_length [OF assms, of f] that by (simp add: unat_of_nat)
  have "RootsForFamily ctx f = List.map_filter (\<lambda>i. Some (T f ! i)) [0..<length (T f)]"
    unfolding RootsForFamily_def RootCount_rep [OF assms] l [OF order.refl]
    by (simp add: List.map_filter_def RootOf_rep [OF assms] l cong: filter_cong map_cong)
  also have "\<dots> = T f"
    by (simp add: List.map_filter_def comp_def map_nth)
  finally show ?thesis .
qed

lemma SetFamilyRoots_rep:
  assumes rep: "roots_rep ctx T" and ok: "root_set_ok roots" and set: "SetFamilyRoots ctx f roots = Inr ctx'"
  shows "roots_rep ctx' (T(f := roots))"
proof -
  have f: "f \<le> FamilyMax"
    using SetFamilyRoots_ok set by blast
  have wf: "kv_wf (a_store ctx)" and len: "length roots < 2 ^ 32"
    using rep ok by (auto simp: roots_rep_def root_set_ok_def)
  note st = SetFamilyRoots_store [OF set wf]
  have roots: "kv_get (a_store ctx') (RootKey g i) =
      (if g = f then (if unat i < length roots then Some (ABytes (roots ! unat i)) else None)
       else kv_get (a_store ctx) (RootKey g i))" for g i
    unfolding st(2) map_of_root_entries [OF len] by auto
  have count: "kv_get (a_store ctx') (RootCountKey g) =
      (if g = f then Some (ABytes (u32_be (word_of_nat (length roots)))) else kv_get (a_store ctx) (RootCountKey g))" for g
    unfolding st(2) by (simp add: map_of_root_entries_other)
  have "kv_get (a_store ctx') att_ParamsKey = kv_get (a_store ctx) att_ParamsKey"
    unfolding st(2) by (simp add: map_of_root_entries_other)
  then show ?thesis
    using rep f ok st(1) unfolding roots_rep_def params_rep_def family_rep_def by (simp add: roots count)
qed

section \<open>The trust store as an interface\<close>

text \<open>What the verifier relies on: a lookup of root sets by family and an update that replaces the set of one family.  \<open>rep\<close>
  relates a state to the map it stands for.\<close>

locale trust_store =
  fixes lookup :: "'s \<Rightarrow> u8 \<Rightarrow> bytes list"
    and update :: "'s \<Rightarrow> u8 \<Rightarrow> bytes list \<Rightarrow> ('e, 's) result"
    and rep :: "'s \<Rightarrow> (u8 \<Rightarrow> bytes list) \<Rightarrow> bool"
    and ok :: "bytes list \<Rightarrow> bool"
    and known :: "u8 \<Rightarrow> bool"
  assumes lookup_rep: "rep s T \<Longrightarrow> lookup s f = T f"
    and update_rep: "rep s T \<Longrightarrow> ok roots \<Longrightarrow> update s f roots = Inr s' \<Longrightarrow> rep s' (T(f := roots))"
    and update_known: "(\<exists>s'. update s f roots = Inr s') \<longleftrightarrow> known f"
begin

lemma lookup_update:
  "rep s T \<Longrightarrow> ok roots \<Longrightarrow> update s f roots = Inr s' \<Longrightarrow> lookup s' g = (if g = f then roots else lookup s g)"
  using lookup_rep update_rep by fastforce

lemma update_unknown: "\<not> known f \<Longrightarrow> \<exists>e. update s f roots = Inl e"
  using update_known [of s f roots] by (cases "update s f roots") auto

end

interpretation att_trust: trust_store RootsForFamily SetFamilyRoots roots_rep root_set_ok "\<lambda>f. f \<le> FamilyMax"
  by unfold_locales (simp_all add: RootsForFamily_rep SetFamilyRoots_rep SetFamilyRoots_ok)

section \<open>Messages\<close>

text \<open>The updates that go through: signed by the module authority, for a known family, with no empty root.\<close>

definition accepted :: "AttKeeper \<Rightarrow> MsgUpdateTEERoots \<Rightarrow> bool" where
  "accepted k msg \<longleftrightarrow>
     ak_AccAddressFromBech32 k (mt_Authority msg) = Some (ak_authority k) \<and> mt_Family msg \<le> 3 \<and> [] \<notin> set (mt_Roots msg)"

lemma FamilyByte_known: "mt_Family msg \<le> 3 \<Longrightarrow> FamilyByte msg \<le> FamilyMax"
  using order.trans [OF take_bit_nat_less_eq_self [of 8 "unat (mt_Family msg)"]]
  by (simp add: FamilyByte_def family_defs word_le_nat_alt unsigned_ucast_eq)

lemma UpdateTEERoots_accepted:
  assumes "accepted k msg"
  obtains ctx' where "SetFamilyRoots ctx (FamilyByte msg) (mt_Roots msg) = Inr ctx'"
    "a_store (fst (UpdateTEERoots k ctx msg)) = a_store ctx'" "snd (UpdateTEERoots k ctx msg) = Inr ()"
proof -
  have "FamilyByte msg \<le> FamilyMax"
    using assms FamilyByte_known by (simp add: accepted_def)
  then obtain ctx' where "SetFamilyRoots ctx (FamilyByte msg) (mt_Roots msg) = Inr ctx'"
    using SetFamilyRoots_ok by blast
  moreover have "mt_ValidateBasic k msg = Inr ()"
    using assms by (auto simp: mt_ValidateBasic_def accepted_def family_defs list_ex_iff not_less)
  moreover have "ak_AccAddressFromBech32 k (mt_Authority msg) = Some (ak_authority k)"
    using assms by (simp add: accepted_def)
  ultimately show thesis
    using that [of ctx'] by (simp add: UpdateTEERoots_def Let_def)
qed

lemma UpdateTEERoots_rejected:
  "\<not> accepted k msg \<Longrightarrow> fst (UpdateTEERoots k ctx msg) = ctx \<and> (\<exists>e. snd (UpdateTEERoots k ctx msg) = Inl e)"
  by (auto simp: UpdateTEERoots_def mt_ValidateBasic_def accepted_def family_defs list_ex_iff not_less
      split: option.splits sum.splits)

lemma UpdateTEERoots_rep:
  assumes "roots_rep ctx T" "length (mt_Roots msg) < 2 ^ 32"
  shows "roots_rep (fst (UpdateTEERoots k ctx msg)) (if accepted k msg then T(FamilyByte msg := mt_Roots msg) else T)"
proof (cases "accepted k msg")
  case True
  obtain ctx' where set: "SetFamilyRoots ctx (FamilyByte msg) (mt_Roots msg) = Inr ctx'"
    and st: "a_store (fst (UpdateTEERoots k ctx msg)) = a_store ctx'"
    by (rule UpdateTEERoots_accepted [OF True])
  have "root_set_ok (mt_Roots msg)"
    using True assms(2) by (simp add: accepted_def root_set_ok_def)
  from att_trust.update_rep [OF assms(1) this set] True show ?thesis
    by (simp add: roots_rep_cong [OF st])
qed (use assms UpdateTEERoots_rejected in simp)

section \<open>Genesis and queries\<close>

definition put_family :: "(u8 \<Rightarrow> bytes list) \<Rightarrow> FamilyRoots \<Rightarrow> u8 \<Rightarrow> bytes list" where
  "put_family T fr = T(fr_Family fr := fr_Roots fr)"

lemma init_families_rep:
  "roots_rep ctx T \<Longrightarrow> list_all (\<lambda>fr. fr_Family fr \<le> FamilyMax \<and> root_set_ok (fr_Roots fr)) frs \<Longrightarrow>
   \<exists>ctx'. init_families ctx frs = Inr ctx' \<and> roots_rep ctx' (foldl put_family T frs) \<and>
     att_GetParams ctx' = att_GetParams ctx"
proof (induction frs arbitrary: ctx T)
  case (Cons fr frs)
  then obtain ctx1 where c1: "SetFamilyRoots ctx (fr_Family fr) (fr_Roots fr) = Inr ctx1"
    using SetFamilyRoots_ok by fastforce
  then have "roots_rep ctx1 (put_family T fr)"
    using Cons.prems by (auto simp: put_family_def intro: att_trust.update_rep)
  from Cons.IH [OF this] have "\<exists>ctx'. init_families ctx1 frs = Inr ctx' \<and>
      roots_rep ctx' (foldl put_family (put_family T fr) frs) \<and>
      att_GetParams ctx' = att_GetParams ctx1"
    using Cons.prems(2) by simp
  then obtain ctx' where "init_families ctx1 frs = Inr ctx'"
    "roots_rep ctx' (foldl put_family (put_family T fr) frs)"
    "att_GetParams ctx' = att_GetParams ctx1"
    by blast
  moreover have "att_GetParams ctx1 = att_GetParams ctx"
    using SetFamilyRoots_store(2) [OF c1, of att_ParamsKey] Cons.prems(1)
    by (simp add: att_GetParams_def roots_rep_def map_of_root_entries_other)
  ultimately show ?case
    by (simp add: c1)
qed simp

definition family_record :: "(u8 \<Rightarrow> bytes list) \<Rightarrow> u8 \<Rightarrow> FamilyRoots option" where
  "family_record T f = (if 0 < length (T f) then Some \<lparr>fr_Family = f, fr_Roots = T f\<rparr> else None)"

lemma foldl_family_records:
  "foldl put_family (\<lambda>_. []) (List.map_filter (family_record T) fs) =
     (\<lambda>f. if f \<in> set fs then T f else [])"
proof (induction fs rule: rev_induct)
  case (snoc f fs)
  have "List.map_filter (family_record T) (fs @ [f]) =
      List.map_filter (family_record T) fs @ (case family_record T f of None \<Rightarrow> [] | Some fr \<Rightarrow> [fr])"
    by (cases "family_record T f") (simp_all add: List.map_filter_def)
  then show ?case
    by (cases "T f = []") (auto simp: snoc.IH family_record_def [of T f] put_family_def [of _ "\<lparr>fr_Family = f, fr_Roots = T f\<rparr>"])
qed (simp add: List.map_filter_def)

abbreviation families :: "u8 list" where
  "families \<equiv> map word_of_nat [0..<Suc (unat FamilyMax)]"

lemma families_eq: "families = [0, 1, 2, 3]"
  by (simp add: family_defs upt_rec)

lemma set_families: "f \<in> set families \<longleftrightarrow> f \<le> FamilyMax"
proof -
  have "f \<le> 3 \<longleftrightarrow> unat f \<in> {0, 1, 2, 3}"
    by (auto simp: word_le_nat_alt)
  also have "\<dots> \<longleftrightarrow> f \<in> {0, 1, 2, 3}"
    by (auto simp: word_unat_eq_iff)
  finally show ?thesis
    unfolding families_eq by (simp add: family_defs)
qed

lemma AllFamilyRoots_rep: "roots_rep ctx T \<Longrightarrow> AllFamilyRoots ctx = List.map_filter (family_record T) families"
  unfolding AllFamilyRoots_def family_record_def Let_def by (simp only: RootsForFamily_rep)

lemma AllFamilyRoots_foldl:
  assumes "roots_rep ctx T"
  shows "foldl put_family (\<lambda>_. []) (AllFamilyRoots ctx) = T"
  unfolding AllFamilyRoots_rep [OF assms] foldl_family_records set_families
  using roots_repD(3) [OF assms] by (force simp: not_le)

lemma validate_families_ok:
  "(\<forall>f \<in> set fs. f \<le> FamilyMax \<and> [] \<notin> set (T f)) \<Longrightarrow> distinct fs \<Longrightarrow> seen \<inter> set fs = {} \<Longrightarrow>
   att_validate_families seen (List.map_filter (family_record T) fs) = Inr ()"
  by (induction fs arbitrary: seen) (auto simp: map_filter_simps family_record_def list_ex_iff not_less)

lemma att_DefaultParams_valid: "att_Params_Validate att_DefaultParams = Inr ()"
  by (simp add: att_Params_Validate_def att_DefaultParams_def)

lemma att_GetParams_valid: "roots_rep ctx T \<Longrightarrow> att_Params_Validate (att_GetParams ctx) = Inr ()"
  by (auto simp: roots_rep_def params_rep_def att_GetParams_def att_DefaultParams_valid
      split: option.splits att_val.splits)

lemma roots_rep_SetParams:
  assumes "roots_rep ctx T" "att_Params_Validate p = Inr ()"
  shows "roots_rep (ctx\<lparr>a_store := kv_set (a_store ctx) att_ParamsKey (AParams p)\<rparr>) T"
proof -
  have "family_rep (kv_set st att_ParamsKey v) f roots = family_rep st f roots" for st v f roots
    by (simp add: family_rep_def kv.get_set)
  with assms show ?thesis
    by (simp add: roots_rep_def params_rep_def kv.get_set kv.wf_set)
qed

text \<open>The root sets a sequence of messages should leave: the last accepted update of each family.\<close>

definition governed :: "AttKeeper \<Rightarrow> (u8 \<Rightarrow> bytes list) \<Rightarrow> MsgUpdateTEERoots list \<Rightarrow> u8 \<Rightarrow> bytes list" where
  "governed k T msgs f =
     (let ms = filter (\<lambda>msg. accepted k msg \<and> FamilyByte msg = f) msgs in
      if ms = [] then T f else mt_Roots (last ms))"

definition deliver_msgs :: "AttKeeper \<Rightarrow> actx \<Rightarrow> MsgUpdateTEERoots list \<Rightarrow> actx" where
  "deliver_msgs k ctx msgs = foldl (\<lambda>ctx msg. fst (UpdateTEERoots k ctx msg)) ctx msgs"

lemma governed_snoc:
  "governed k T (msgs @ [msg]) = (if accepted k msg then (governed k T msgs)(FamilyByte msg := mt_Roots msg) else governed k T msgs)"
  by (auto simp: governed_def fun_eq_iff Let_def)

lemma deliver_msgs_rep:
  "roots_rep ctx T \<Longrightarrow> (\<And>msg. msg \<in> set msgs \<Longrightarrow> length (mt_Roots msg) < 2 ^ 32) \<Longrightarrow>
   roots_rep (deliver_msgs k ctx msgs) (governed k T msgs)"
proof (induction msgs rule: rev_induct)
  case (snoc msg msgs)
  then have "roots_rep (deliver_msgs k ctx msgs) (governed k T msgs)" "length (mt_Roots msg) < 2 ^ 32"
    by auto
  from UpdateTEERoots_rep [OF this, of k] show ?case
    by (simp add: governed_snoc deliver_msgs_def)
qed (simp add: governed_def [abs_def] deliver_msgs_def)

lemma distinct_families: "distinct families"
  unfolding families_eq by simp

section \<open>A concrete instance\<close>

definition ademo :: AttKeeper where
  "ademo = \<lparr>ak_authority = replicate 20 7,
     ak_AccAddressFromBech32 = (\<lambda>s. if s = ''gov'' then Some (replicate 20 7) else if s = ''eve'' then Some (replicate 20 9) else None),
     ak_AccAddress_String = (\<lambda>a. if a = replicate 20 7 then ''gov'' else ''eve'')\<rparr>"

definition ademo_ctx :: actx where
  "ademo_ctx = \<lparr>a_store = [], a_BlockTime = 1000, a_events = []\<rparr>"

definition ademo_msgs :: "MsgUpdateTEERoots list" where
  "ademo_msgs = [NewMsgUpdateTEERoots ''gov'' 2 [[1, 2], [3]], NewMsgUpdateTEERoots ''eve'' 2 [[9]],
     NewMsgUpdateTEERoots ''gov'' 2 [replicate 32 5], NewMsgUpdateTEERoots ''gov'' 0 [[4]]]"

lemma ademo_rep: "roots_rep ademo_ctx (\<lambda>_. [])"
  using roots_rep_empty [of ademo_ctx] by (simp add: ademo_ctx_def)

section \<open>Properties\<close>

text \<open>C29. The trusted roots are those governance set.  After any sequence of update messages, from whoever, each family has the
  roots of the last message for it that was signed by the module authority, named a known family and had no empty root, and
  what it had before if there was none; a shorter set leaves no root of a longer one behind.  \<open>RootsForFamily\<close>, \<open>RootCount\<close>
  and \<open>RootOf\<close> read exactly these sets, and a message succeeds just when it satisfies the three conditions.\<close>

theorem tee_roots_governed:
  assumes "roots_rep ctx T" "\<And>msg. msg \<in> set msgs \<Longrightarrow> length (mt_Roots msg) < 2 ^ 32"
  shows "RootsForFamily (deliver_msgs k ctx msgs) f = governed k T msgs f \<and>
    unat (RootCount (deliver_msgs k ctx msgs) f) = length (governed k T msgs f) \<and>
    RootOf (deliver_msgs k ctx msgs) f i =
      (if unat i < length (governed k T msgs f) then Some (governed k T msgs f ! unat i) else None) \<and>
    (snd (UpdateTEERoots k (deliver_msgs k ctx msgs) msg) = Inr () \<longleftrightarrow> accepted k msg)"
proof -
  have rep: "roots_rep (deliver_msgs k ctx msgs) (governed k T msgs)"
    using assms by (rule deliver_msgs_rep)
  have "snd (UpdateTEERoots k (deliver_msgs k ctx msgs) msg) = Inr () \<longleftrightarrow> accepted k msg"
    using UpdateTEERoots_rejected [of k msg "deliver_msgs k ctx msgs"] by (cases "accepted k msg") (auto elim: UpdateTEERoots_accepted)
  then show ?thesis
    using roots_rep_length [OF rep, of f]
    by (simp add: RootsForFamily_rep [OF rep] RootCount_rep [OF rep] RootOf_rep [OF rep] unat_of_nat)
qed

theorem tee_roots_governed_witness:
  "RootsForFamily (deliver_msgs ademo ademo_ctx ademo_msgs) 2 = [replicate 32 5] \<and>
   unat (RootCount (deliver_msgs ademo ademo_ctx ademo_msgs) 2) = 1 \<and>
   RootOf (deliver_msgs ademo ademo_ctx ademo_msgs) 2 1 = None"
proof -
  have g: "governed ademo (\<lambda>_. []) ademo_msgs 2 = [replicate 32 5]"
    by code_simp
  have "length (mt_Roots msg) < 2 ^ 32" if "msg \<in> set ademo_msgs" for msg
    using that by (auto simp: ademo_msgs_def NewMsgUpdateTEERoots_def)
  from tee_roots_governed [OF ademo_rep this, where k = ademo and f = 2 and i = 1] show ?thesis
    by (simp add: g)
qed

text \<open>C32. Export and import of the roots.  The state exported from any context that holds a map of root sets passes genesis
  validation, its import into an empty store does not panic, and the imported module has the same roots in every family,
  the same parameters, and exports the same state.\<close>

theorem att_genesis_roundtrip:
  assumes rep: "roots_rep ctx T"
  shows "att_Genesis_Validate (att_ExportGenesis ctx) = Inr () \<and>
    (\<exists>ctx'. att_InitGenesis (ctx0\<lparr>a_store := []\<rparr>) (att_ExportGenesis ctx) = Inr ctx' \<and>
       RootsForFamily ctx' = RootsForFamily ctx \<and> att_GetParams ctx' = att_GetParams ctx \<and>
       att_ExportGenesis ctx' = att_ExportGenesis ctx)"
proof -
  have ok: "root_set_ok (T f)" if "f \<le> FamilyMax" for f
    using roots_repD [OF rep] that by blast
  have "att_validate_families {} (AllFamilyRoots ctx) = Inr ()"
    unfolding AllFamilyRoots_rep [OF rep] by (rule validate_families_ok)
      (use ok set_families distinct_families in \<open>auto simp: root_set_ok_def simp del: upt_Suc\<close>)
  then have v: "att_Genesis_Validate (att_ExportGenesis ctx) = Inr ()"
    by (simp add: att_Genesis_Validate_def att_ExportGenesis_def att_GetParams_valid [OF rep])
  let ?p = "att_GetParams ctx"
  let ?c = "ctx0\<lparr>a_store := kv_set [] att_ParamsKey (AParams ?p)\<rparr>"
  have rep1: "roots_rep ?c (\<lambda>_. [])"
    using roots_rep_SetParams [OF roots_rep_empty att_GetParams_valid [OF rep]] by simp
  have all: "list_all (\<lambda>fr. fr_Family fr \<le> FamilyMax \<and> root_set_ok (fr_Roots fr)) (AllFamilyRoots ctx)"
    unfolding AllFamilyRoots_rep [OF rep] list_all_iff using ok set_families
    by (auto simp: List.map_filter_def family_record_def)
  obtain ctx' where c': "init_families ?c (AllFamilyRoots ctx) = Inr ctx'" and rep': "roots_rep ctx' T"
    and p: "att_GetParams ctx' = att_GetParams ?c"
    using init_families_rep [OF rep1 all] unfolding AllFamilyRoots_foldl [OF rep] by blast
  have "att_GetParams ctx' = ?p"
    unfolding p by (simp add: att_GetParams_def kv_get_def)
  moreover have "AllFamilyRoots ctx' = AllFamilyRoots ctx"
    by (simp only: AllFamilyRoots_rep [OF rep] AllFamilyRoots_rep [OF rep'])
  ultimately show ?thesis
    using v c' by (auto simp: att_InitGenesis_def att_SetParams_def att_ExportGenesis_def att_GetParams_valid [OF rep]
        RootsForFamily_rep [OF rep] RootsForFamily_rep [OF rep'])
qed

theorem att_genesis_roundtrip_witness:
  "\<exists>ctx'. att_InitGenesis ademo_ctx (att_ExportGenesis (deliver_msgs ademo ademo_ctx ademo_msgs)) = Inr ctx' \<and>
     RootsForFamily ctx' 2 = [replicate 32 5]"
proof -
  have "length (mt_Roots msg) < 2 ^ 32" if "msg \<in> set ademo_msgs" for msg
    using that by (auto simp: ademo_msgs_def NewMsgUpdateTEERoots_def)
  then have rep: "roots_rep (deliver_msgs ademo ademo_ctx ademo_msgs) (governed ademo (\<lambda>_. []) ademo_msgs)"
    by (rule deliver_msgs_rep [OF ademo_rep])
  have "governed ademo (\<lambda>_. []) ademo_msgs 2 = [replicate 32 5]"
    by code_simp
  with att_genesis_roundtrip [OF rep, of ademo_ctx] RootsForFamily_rep [OF rep] show ?thesis
    by (auto simp: ademo_ctx_def)
qed

end
