(* ===== verification/Tee_Attestor.thy ===== *)
theory Tee_Attestor
  imports Attestor Precompile_Common
begin

text \<open>
  The TEE attestation precompile (\<open>precompiles/teeattestor\<close>): the attestation envelope and its parser, the verifiers of
  the four families, the dispatch with the module policy, and the four methods.

  The signature primitives of \<open>crypto/ed25519\<close> and \<open>crypto/x509\<close> are the record \<open>TeeCrypto\<close>, an argument of the
  verifiers; \<open>'k\<close> is the type of parsed public keys.  Nothing is assumed of them.  ABI encoding of the outputs belongs to
  go-ethereum; an output is the value that is packed.
\<close>

section \<open>Attestations and envelopes\<close>

record Attestation =
  at_Family :: u8
  at_MRTD :: bytes
  at_ReportData :: bytes
  at_Timestamp :: u64
  at_Debug :: bool

record envelope =
  ev_family :: u8
  ev_debug :: bool
  ev_mrtd :: bytes
  ev_reportData :: bytes
  ev_timestamp :: u64
  ev_nonce :: bytes
  ev_signature :: bytes
  ev_pubkey :: bytes
  ev_signedPrefix :: bytes

text \<open>The Go slice \<open>data[i:j]\<close>, for indices in range.\<close>

definition go_slice :: "nat \<Rightarrow> nat \<Rightarrow> bytes \<Rightarrow> bytes" where
  "go_slice i j data = take (j - i) (drop i data)"

definition envelopeMagic :: bytes where
  "envelopeMagic = [0x50, 0x58, 0x56, 0x45, 0x01]"

definition envelopeMagicLen :: nat where "envelopeMagicLen = 5"
definition envelopeMRTDOffset :: nat where "envelopeMRTDOffset = 7"
definition envelopeReportOffset :: nat where "envelopeReportOffset = envelopeMRTDOffset + 32"
definition envelopeTSOffset :: nat where "envelopeTSOffset = envelopeReportOffset + 32"
definition envelopeNonceOffset :: nat where "envelopeNonceOffset = envelopeTSOffset + 8"
definition envelopeSigLenOffset :: nat where "envelopeSigLenOffset = envelopeNonceOffset + 16"
definition envelopeMinLen :: nat where "envelopeMinLen = envelopeSigLenOffset + 2 + 2"

lemmas envelope_offsets =
  envelopeMagicLen_def envelopeMRTDOffset_def envelopeReportOffset_def envelopeTSOffset_def envelopeNonceOffset_def
  envelopeSigLenOffset_def envelopeMinLen_def

definition parseEnvelope :: "u8 \<Rightarrow> bytes \<Rightarrow> (AttErr, envelope) result" where
  "parseEnvelope family data =
     (if length data < envelopeMinLen then Inl (AErrInvalidQuote ''envelope too short'')
      else if take envelopeMagicLen data \<noteq> envelopeMagic then Inl (AErrInvalidQuote ''magic mismatch'')
      else
        let famByte = data ! envelopeMagicLen in
        if famByte \<noteq> family then Inl (AErrInvalidQuote ''family mismatch'')
        else
          let debugByte = data ! (envelopeMagicLen + 1) in
          if 1 < debugByte then Inl (AErrInvalidQuote ''debug byte must be 0 or 1'')
          else
            let sigLen = be_decode (go_slice envelopeSigLenOffset (envelopeSigLenOffset + 2) data);
                pkLenOffset = envelopeSigLenOffset + 2 + sigLen
            in
            if length data < pkLenOffset + 2 then Inl (AErrInvalidQuote ''signature exceeds envelope length'')
            else
              let pkLen = be_decode (go_slice pkLenOffset (pkLenOffset + 2) data);
                  pkEnd = pkLenOffset + 2 + pkLen
              in
              if length data < pkEnd then Inl (AErrInvalidQuote ''pubkey exceeds envelope length'')
              else Inr \<lparr>ev_family = famByte, ev_debug = (debugByte = 1),
                        ev_mrtd = go_slice envelopeMRTDOffset (envelopeMRTDOffset + 32) data,
                        ev_reportData = go_slice envelopeReportOffset (envelopeReportOffset + 32) data,
                        ev_timestamp = word_of_nat (be_decode (go_slice envelopeTSOffset (envelopeTSOffset + 8) data)),
                        ev_nonce = go_slice envelopeNonceOffset (envelopeNonceOffset + 16) data,
                        ev_signature = go_slice (envelopeSigLenOffset + 2) pkLenOffset data,
                        ev_pubkey = go_slice (pkLenOffset + 2) pkEnd data,
                        ev_signedPrefix = take envelopeSigLenOffset data\<rparr>)"

definition rootsContain :: "bytes list \<Rightarrow> bytes \<Rightarrow> bool" where
  "rootsContain roots pubkey = list_ex (\<lambda>r. r = pubkey) roots"

section \<open>Signatures\<close>

record 'k Certificate =
  PublicKey :: 'k
  SignatureAlgorithm :: nat

record 'k TeeCrypto =
  ed25519_Verify :: "bytes \<Rightarrow> bytes \<Rightarrow> bytes \<Rightarrow> bool"
  ParseCertificate :: "bytes \<Rightarrow> 'k Certificate option"
  ParsePKIXPublicKey :: "bytes \<Rightarrow> 'k option"
  CheckSignature :: "'k Certificate \<Rightarrow> nat \<Rightarrow> bytes \<Rightarrow> bytes \<Rightarrow> bool"

text \<open>\<open>x509.ECDSAWithSHA256\<close>.\<close>

definition ECDSAWithSHA256 :: nat where "ECDSAWithSHA256 = 10"

definition verifyEd25519 :: "'k TeeCrypto \<Rightarrow> envelope \<Rightarrow> (string, unit) result" where
  "verifyEd25519 C env =
     (if length (ev_pubkey env) \<noteq> 32 then Inl ''pubkey is not 32 bytes (Ed25519)''
      else if length (ev_signature env) \<noteq> 64 then Inl ''signature is not 64 bytes (Ed25519)''
      else if \<not> ed25519_Verify C (ev_pubkey env) (ev_signedPrefix env) (ev_signature env)
      then Inl ''Ed25519 signature verification failed''
      else Inr ())"

definition verifyECDSAOverDER :: "'k TeeCrypto \<Rightarrow> envelope \<Rightarrow> (string, unit) result" where
  "verifyECDSAOverDER C env =
     (if (case ParseCertificate C (ev_pubkey env) of
            Some cert \<Rightarrow> CheckSignature C cert (SignatureAlgorithm cert) (ev_signedPrefix env) (ev_signature env)
          | None \<Rightarrow> False)
      then Inr ()
      else
        (case ParsePKIXPublicKey C (ev_pubkey env) of
           None \<Rightarrow> Inl ''pubkey is neither a parseable certificate nor a PKIX SubjectPublicKeyInfo''
         | Some pub \<Rightarrow>
             let checker = \<lparr>PublicKey = pub, SignatureAlgorithm = ECDSAWithSHA256\<rparr> in
             if CheckSignature C checker ECDSAWithSHA256 (ev_signedPrefix env) (ev_signature env) then Inr ()
             else Inl ''x509: signature check failed''))"

definition extractAttestation :: "envelope \<Rightarrow> Attestation" where
  "extractAttestation env =
     \<lparr>at_Family = ev_family env, at_MRTD = ev_mrtd env, at_ReportData = ev_reportData env,
      at_Timestamp = ev_timestamp env, at_Debug = ev_debug env\<rparr>"

definition verifyIntelTDX :: "'k TeeCrypto \<Rightarrow> bytes list \<Rightarrow> bytes \<Rightarrow> (AttErr, Attestation) result" where
  "verifyIntelTDX C roots quote =
     (case parseEnvelope FamilyIntelTDX quote of
        Inl err \<Rightarrow> Inl err
      | Inr env \<Rightarrow>
          if \<not> rootsContain roots (ev_pubkey env) then Inl (AErrUntrustedChain ''TDX: envelope pubkey not in trusted roots'')
          else (case verifyECDSAOverDER C env of
                  Inl err \<Rightarrow> Inl (AErrInvalidQuote (''TDX: '' @ err))
                | Inr _ \<Rightarrow> Inr (extractAttestation env)))"

definition verifyAMDSEVSNP :: "'k TeeCrypto \<Rightarrow> bytes list \<Rightarrow> bytes \<Rightarrow> (AttErr, Attestation) result" where
  "verifyAMDSEVSNP C roots quote =
     (case parseEnvelope FamilyAMDSEVSNP quote of
        Inl err \<Rightarrow> Inl err
      | Inr env \<Rightarrow>
          if \<not> rootsContain roots (ev_pubkey env) then Inl (AErrUntrustedChain ''SEV-SNP: envelope pubkey not in trusted roots'')
          else (case verifyECDSAOverDER C env of
                  Inl err \<Rightarrow> Inl (AErrInvalidQuote (''SEV-SNP: '' @ err))
                | Inr _ \<Rightarrow> Inr (extractAttestation env)))"

definition verifyNVIDIA :: "'k TeeCrypto \<Rightarrow> bytes list \<Rightarrow> bytes \<Rightarrow> (AttErr, Attestation) result" where
  "verifyNVIDIA C roots quote =
     (case parseEnvelope FamilyNVIDIAH100 quote of
        Inl err \<Rightarrow> Inl err
      | Inr env \<Rightarrow>
          if \<not> rootsContain roots (ev_pubkey env) then Inl (AErrUntrustedChain ''NVIDIA: envelope pubkey not in trusted roots'')
          else (case verifyEd25519 C env of
                  Inl err \<Rightarrow> Inl (AErrInvalidQuote (''NVIDIA: '' @ err))
                | Inr _ \<Rightarrow> Inr (extractAttestation env)))"

definition verifyIntelSGX :: "'k TeeCrypto \<Rightarrow> bytes list \<Rightarrow> bytes \<Rightarrow> (AttErr, Attestation) result" where
  "verifyIntelSGX C roots quote =
     (case parseEnvelope FamilyIntelSGX quote of
        Inl err \<Rightarrow> Inl err
      | Inr env \<Rightarrow>
          if \<not> rootsContain roots (ev_pubkey env) then Inl (AErrUntrustedChain ''SGX: envelope pubkey not in trusted roots'')
          else (case verifyECDSAOverDER C env of
                  Inl err \<Rightarrow> Inl (AErrInvalidQuote (''SGX: '' @ err))
                | Inr _ \<Rightarrow> Inr (extractAttestation env)))"

section \<open>Dispatch and policy\<close>

definition dispatchVerify :: "'k TeeCrypto \<Rightarrow> actx \<Rightarrow> u8 \<Rightarrow> bytes \<Rightarrow> (AttErr, Attestation) result" where
  "dispatchVerify C ctx family quote =
     (if FamilyMax < family then Inl AErrUnknownFamily
      else
        let roots = RootsForFamily ctx family in
        if length roots = 0 then Inl AErrNoRootsLoaded
        else
          (case (if family = FamilyIntelTDX then verifyIntelTDX C roots quote
                 else if family = FamilyAMDSEVSNP then verifyAMDSEVSNP C roots quote
                 else if family = FamilyNVIDIAH100 then verifyNVIDIA C roots quote
                 else if family = FamilyIntelSGX then verifyIntelSGX C roots quote
                 else Inl AErrUnknownFamily) of
             Inl err \<Rightarrow> Inl err
           | Inr att \<Rightarrow>
               let params = att_GetParams ctx in
               if at_Debug att \<and> \<not> ap_DebugAllowed params then Inl AErrDebugRejected
               else
                 let now = a_BlockTime ctx; age = now - at_Timestamp att in
                 if sint (ap_MaxAttestationAge params) < sint age then Inl AErrAttestationStale
                 else Inr att))"

section \<open>Methods\<close>

datatype tee_output = OutAttestation Attestation | OutRoot bytes | OutCount int

definition handleVerify :: "'k TeeCrypto \<Rightarrow> actx \<Rightarrow> abi_val list \<Rightarrow> (AttErr, tee_output) result" where
  "handleVerify C ctx args =
     (if length args \<noteq> 2 then Inl (AErrOther ''verify: expected 2 args'')
      else case args ! 0 of
        VU8 family \<Rightarrow>
          (case args ! 1 of
             VBytes quote \<Rightarrow>
               (case dispatchVerify C ctx family quote of Inl err \<Rightarrow> Inl err | Inr att \<Rightarrow> Inr (OutAttestation att))
           | _ \<Rightarrow> Inl (AErrOther ''verify: invalid quote type''))
      | _ \<Rightarrow> Inl (AErrOther ''verify: invalid family type''))"

definition handleVerifyAndExpect :: "'k TeeCrypto \<Rightarrow> actx \<Rightarrow> abi_val list \<Rightarrow> (AttErr, tee_output) result" where
  "handleVerifyAndExpect C ctx args =
     (if length args \<noteq> 3 then Inl (AErrOther ''verifyAndExpect: expected 3 args'')
      else case args ! 0 of
        VU8 family \<Rightarrow>
          (case args ! 1 of
             VBytes quote \<Rightarrow>
               (case args ! 2 of
                  VBytes32 expected \<Rightarrow>
                    (case dispatchVerify C ctx family quote of
                       Inl err \<Rightarrow> Inl err
                     | Inr att \<Rightarrow>
                         if at_ReportData att \<noteq> expected then Inl AErrReportDataMismatch else Inr (OutAttestation att))
                | _ \<Rightarrow> Inl (AErrOther ''verifyAndExpect: invalid expectedReportData type''))
           | _ \<Rightarrow> Inl (AErrOther ''verifyAndExpect: invalid quote type''))
      | _ \<Rightarrow> Inl (AErrOther ''verifyAndExpect: invalid family type''))"

definition handleRootOf :: "actx \<Rightarrow> abi_val list \<Rightarrow> (AttErr, tee_output) result" where
  "handleRootOf ctx args =
     (if length args \<noteq> 2 then Inl (AErrOther ''rootOf: expected 2 args'')
      else case args ! 0 of
        VU8 family \<Rightarrow>
          (case args ! 1 of
             VBig index \<Rightarrow>
               if \<not> IsUint64 index then Inl (AErrOther ''rootOf: index out of uint64 range'')
               else Inr (OutRoot (case RootOf ctx family (ucast (Uint64 index)) of Some root \<Rightarrow> root | None \<Rightarrow> []))
           | _ \<Rightarrow> Inl (AErrOther ''rootOf: invalid index type''))
      | _ \<Rightarrow> Inl (AErrOther ''rootOf: invalid family type''))"

definition handleRootCount :: "actx \<Rightarrow> abi_val list \<Rightarrow> (AttErr, tee_output) result" where
  "handleRootCount ctx args =
     (if length args \<noteq> 1 then Inl (AErrOther ''rootCount: expected 1 arg'')
      else case args ! 0 of
        VU8 family \<Rightarrow> Inr (OutCount (uint (RootCount ctx family)))
      | _ \<Rightarrow> Inl (AErrOther ''rootCount: invalid family type''))"

definition tee_IsTransaction :: "string \<Rightarrow> bool" where
  "tee_IsTransaction m = False"

definition tee_RequiredGas :: "Abi \<Rightarrow> bytes \<Rightarrow> u64" where
  "tee_RequiredGas p input =
     (if length input < 4 then 0
      else case MethodById p (take 4 input) of
        Inl _ \<Rightarrow> 0
      | Inr method \<Rightarrow>
          if Name method = ''verify'' \<or> Name method = ''verifyAndExpect'' then 30000 + 15000
          else if Name method = ''rootOf'' \<or> Name method = ''rootCount'' then 200
          else 0)"

definition tee_Run ::
  "'k TeeCrypto \<Rightarrow> Abi \<Rightarrow> actx \<Rightarrow> Contract \<Rightarrow> bool \<Rightarrow> (AttErr, tee_output) result" where
  "tee_Run C p ctx contract readOnly =
     (case RunSetup p contract readOnly tee_IsTransaction of
        Inl err \<Rightarrow> Inl (AErrOther err)
      | Inr (method, args) \<Rightarrow>
          if method = ''verify'' then handleVerify C ctx args
          else if method = ''verifyAndExpect'' then handleVerifyAndExpect C ctx args
          else if method = ''rootOf'' then handleRootOf ctx args
          else if method = ''rootCount'' then handleRootCount ctx args
          else Inl (AErrOther ''unknown method''))"

section \<open>The envelope layout\<close>

definition u16_be :: "nat \<Rightarrow> bytes" where
  "u16_be n = be_encode 2 n"

text \<open>The documented layout, written out.  The signed prefix is everything before the signature length.\<close>

definition envelope_prefix :: "envelope \<Rightarrow> bytes" where
  "envelope_prefix env =
     envelopeMagic @ [ev_family env, if ev_debug env then 1 else 0] @ ev_mrtd env @ ev_reportData env @
     u64_be (ev_timestamp env) @ ev_nonce env"

definition envelope_bytes :: "envelope \<Rightarrow> bytes" where
  "envelope_bytes env =
     envelope_prefix env @ u16_be (length (ev_signature env)) @ ev_signature env @
     u16_be (length (ev_pubkey env)) @ ev_pubkey env"

definition envelope_wf :: "envelope \<Rightarrow> bool" where
  "envelope_wf env \<longleftrightarrow>
     length (ev_mrtd env) = 32 \<and> length (ev_reportData env) = 32 \<and> length (ev_nonce env) = 16 \<and>
     length (ev_signature env) < 65536 \<and> length (ev_pubkey env) < 65536 \<and> ev_signedPrefix env = envelope_prefix env"

lemma take_go_slice: "i \<le> j \<Longrightarrow> take j data = take i data @ go_slice i j data"
  unfolding go_slice_def by (metis le_add_diff_inverse take_add)

lemma length_go_slice: "i \<le> j \<Longrightarrow> j \<le> length data \<Longrightarrow> length (go_slice i j data) = j - i"
  by (simp add: go_slice_def)

lemma go_slice_append:
  "length xs = i \<Longrightarrow> length ys = j - i \<Longrightarrow> i \<le> j \<Longrightarrow> go_slice i j (xs @ ys @ zs) = ys"
  by (simp add: go_slice_def)

lemma u16_be_decode: "n < 65536 \<Longrightarrow> be_decode (u16_be n) = n"
  by (simp add: u16_be_def be_decode_encode)

lemma length_u16_be [simp]: "length (u16_be n) = 2"
  by (simp add: u16_be_def)

lemma u16_be_of_decode: "length bs = 2 \<Longrightarrow> u16_be (be_decode bs) = bs"
  using be_encode_decode [of bs] by (simp add: u16_be_def)

lemma u64_be_of_decode: "length bs = 8 \<Longrightarrow> u64_be (word_of_nat (be_decode bs)) = bs"
proof -
  assume l: "length bs = 8"
  then have "be_decode bs < 2 ^ 64"
    using be_decode_less [of bs] by simp
  then show ?thesis
    using be_encode_decode [of bs] by (simp add: u64_be_def l unat_of_nat)
qed

lemma length_envelope_prefix: "envelope_wf env \<Longrightarrow> length (envelope_prefix env) = 95"
  by (simp add: envelope_wf_def envelope_prefix_def envelopeMagic_def)

lemma prefix_slices:
  assumes "envelope_wf env"
  shows "take 5 (envelope_prefix env @ zs) = envelopeMagic" "(envelope_prefix env @ zs) ! 5 = ev_family env"
    "(envelope_prefix env @ zs) ! 6 = (if ev_debug env then 1 else 0)"
    "go_slice 7 39 (envelope_prefix env @ zs) = ev_mrtd env" "go_slice 39 71 (envelope_prefix env @ zs) = ev_reportData env"
    "go_slice 71 79 (envelope_prefix env @ zs) = u64_be (ev_timestamp env)"
    "go_slice 79 95 (envelope_prefix env @ zs) = ev_nonce env" "take 95 (envelope_prefix env @ zs) = envelope_prefix env"
  using assms
  by (simp_all add: envelope_wf_def envelope_prefix_def envelopeMagic_def go_slice_def)

lemma parse_layout:
  assumes wf: "envelope_wf env" and fam: "ev_family env = family"
  shows "parseEnvelope family (envelope_bytes env @ rest) = Inr env"
proof -
  let ?p = "envelope_prefix env" and ?s = "ev_signature env" and ?k = "ev_pubkey env"
  define tl where "tl = u16_be (length ?s) @ ?s @ u16_be (length ?k) @ ?k @ rest"
  define d where "d = ?p @ tl"
  have p: "length ?p = 95"
    using wf by (rule length_envelope_prefix)
  have pre: "take 5 d = envelopeMagic" "d ! 5 = family" "d ! 6 = (if ev_debug env then 1 else 0)"
    "go_slice 7 39 d = ev_mrtd env" "go_slice 39 71 d = ev_reportData env"
    "go_slice 71 79 d = u64_be (ev_timestamp env)" "go_slice 79 95 d = ev_nonce env" "take 95 d = ?p"
    unfolding d_def using prefix_slices [OF wf, of tl] fam by simp_all
  have sl: "go_slice 95 97 d = u16_be (length ?s)"
    unfolding d_def tl_def by (rule go_slice_append) (simp_all add: p)
  have s: "go_slice 97 (97 + length ?s) d = ?s"
    using go_slice_append [of "?p @ u16_be (length ?s)" 97 ?s "97 + length ?s"] by (simp add: d_def tl_def p)
  have kl: "go_slice (97 + length ?s) (97 + length ?s + 2) d = u16_be (length ?k)"
    using go_slice_append [of "?p @ u16_be (length ?s) @ ?s" _ "u16_be (length ?k)"] by (simp add: d_def tl_def p)
  have k: "go_slice (97 + length ?s + 2) (97 + length ?s + 2 + length ?k) d = ?k"
    using go_slice_append [of "?p @ u16_be (length ?s) @ ?s @ u16_be (length ?k)" "97 + length ?s + 2" ?k
        "97 + length ?s + 2 + length ?k"] by (simp add: d_def tl_def p)
  have len: "97 + length ?s + 2 + length ?k \<le> length d"
    by (simp add: d_def tl_def p)
  have wf': "length ?s < 65536" "length ?k < 65536" "ev_signedPrefix env = ?p"
    using wf by (simp_all add: envelope_wf_def)
  have "parseEnvelope family d = Inr \<lparr>ev_family = ev_family env, ev_debug = ev_debug env, ev_mrtd = ev_mrtd env,
      ev_reportData = ev_reportData env, ev_timestamp = ev_timestamp env, ev_nonce = ev_nonce env,
      ev_signature = ?s, ev_pubkey = ?k, ev_signedPrefix = ev_signedPrefix env\<rparr>"
    using pre sl s kl k len fam wf'
    by (simp add: parseEnvelope_def envelope_offsets u16_be_decode Let_def not_less)
  then show ?thesis
    by (simp add: d_def tl_def envelope_bytes_def)
qed

lemma parse_success:
  assumes parse: "parseEnvelope family data = Inr env"
  shows "envelope_wf env" "ev_family env = family" "\<exists>rest. data = envelope_bytes env @ rest"
proof -
  define sl where "sl = be_decode (go_slice 95 97 data)"
  define kl where "kl = be_decode (go_slice (97 + sl) (97 + sl + 2) data)"
  have magic: "take 5 data = envelopeMagic" and fam: "data ! 5 = family" and dbg: "\<not> 1 < data ! 6"
    and len: "97 + sl + 2 + kl \<le> length data"
    and env: "env = \<lparr>ev_family = data ! 5, ev_debug = (data ! 6 = 1), ev_mrtd = go_slice 7 39 data,
      ev_reportData = go_slice 39 71 data, ev_timestamp = word_of_nat (be_decode (go_slice 71 79 data)),
      ev_nonce = go_slice 79 95 data, ev_signature = go_slice 97 (97 + sl) data,
      ev_pubkey = go_slice (97 + sl + 2) (97 + sl + 2 + kl) data, ev_signedPrefix = take 95 data\<rparr>"
    using parse by (auto simp: parseEnvelope_def envelope_offsets Let_def sl_def kl_def not_less split: if_splits)
  have two: "length (go_slice 95 97 data) = 2" "length (go_slice (97 + sl) (97 + sl + 2) data) = 2"
    using len by (simp_all add: length_go_slice)
  have small: "sl < 65536" "kl < 65536"
    using be_decode_less [of "go_slice 95 97 data"] be_decode_less [of "go_slice (97 + sl) (97 + sl + 2) data"]
    unfolding two by (simp_all add: sl_def kl_def)
  have dbyte: "(if data ! 6 = 1 then 1 else 0) = data ! 6"
    using dbg by (auto simp: not_less word_le_nat_alt word_unat_eq_iff le_Suc_eq)
  have "take 7 data = take 5 data @ [data ! 5, data ! 6]"
    using len by (simp add: take_Suc_conv_app_nth numeral_eq_Suc)
  then have pre: "take 95 data = envelope_prefix env"
    using len take_go_slice [of 7 39 data] take_go_slice [of 39 71 data] take_go_slice [of 71 79 data]
      take_go_slice [of 79 95 data]
    by (simp add: env envelope_prefix_def magic dbyte u64_be_of_decode length_go_slice)
  then show wf: "envelope_wf env"
    using len small by (simp add: envelope_wf_def env length_go_slice)
  show "ev_family env = family"
    by (simp add: env fam)
  have "take (97 + sl + 2 + kl) data = envelope_bytes env"
    using take_go_slice [of 95 97 data] take_go_slice [of 97 "97 + sl" data] take_go_slice [of "97 + sl" "97 + sl + 2" data]
      take_go_slice [of "97 + sl + 2" "97 + sl + 2 + kl" data] two u16_be_of_decode len
    by (simp add: envelope_bytes_def pre) (simp add: env sl_def kl_def length_go_slice)
  then show "\<exists>rest. data = envelope_bytes env @ rest"
    by (metis append_take_drop_id)
qed

section \<open>What a verified attestation means\<close>



lemma parse_iff:
  "parseEnvelope family data = Inr env \<longleftrightarrow>
   envelope_wf env \<and> ev_family env = family \<and> (\<exists>rest. data = envelope_bytes env @ rest)"
  using parse_layout parse_success by metis





text \<open>The module policy on a verified attestation.\<close>

definition policy_ok :: "actx \<Rightarrow> Attestation \<Rightarrow> bool" where
  "policy_ok ctx att \<longleftrightarrow>
     (at_Debug att \<longrightarrow> ap_DebugAllowed (att_GetParams ctx)) \<and>
     sint (a_BlockTime ctx - at_Timestamp att) \<le> sint (ap_MaxAttestationAge (att_GetParams ctx))"


lemma sint_diff_small:
  fixes a b :: "64 word"
  assumes "0 \<le> sint a" "uint b < 2 ^ 63"
  shows "sint (a - b) = sint a - uint b"
proof -
  have "- (2 ^ 63) \<le> uint b"
    by (rule order.trans [of _ 0]) simp_all
  with assms(2) have "signed_take_bit 63 (uint b) = uint b"
    by (intro signed_take_bit_int_eq_self)
  then have b: "sint b = uint b"
    by (simp add: sint_uint)
  have "sint a < 2 ^ 63"
    using sint_lt [of a] by simp
  moreover have "0 \<le> uint b"
    by simp
  ultimately have "- (2 ^ 63) \<le> sint a - uint b" "sint a - uint b < 2 ^ 63"
    using assms by linarith+
  then have "signed_take_bit 63 (sint a - uint b) = sint a - uint b"
    by (rule signed_take_bit_int_eq_self)
  then show ?thesis
    by (simp add: sint_word_diff b)
qed

section \<open>A concrete instance\<close>



definition tdemo_ctx :: actx where
  "tdemo_ctx = (deliver_msgs ademo ademo_ctx ademo_msgs)\<lparr>a_BlockTime := 1000\<rparr>"

section \<open>Properties\<close>

text \<open>C31. The envelope parser accepts exactly the documented layout.  It returns an envelope just when the data starts with the
  layout of that envelope, for the family it was called with: no field is cut or moved at the boundaries of the two
  variable parts, the signed prefix is everything before the signature length, and bytes after the key are ignored.\<close>

theorem envelope_parse_exact:
  "parseEnvelope family data = Inr env \<longleftrightarrow>
   envelope_wf env \<and> ev_family env = family \<and> (\<exists>rest. data = envelope_bytes env @ rest)"
  by (rule parse_iff)





text \<open>The limit holds for the past only: a quote dated in the future is never stale.\<close>

lemma future_not_stale:
  "0 \<le> sint (a_BlockTime ctx) \<Longrightarrow> at_Timestamp att < 2 ^ 63 \<Longrightarrow> sint (a_BlockTime ctx) \<le> uint (at_Timestamp att) \<Longrightarrow>
   \<not> at_Debug att \<Longrightarrow> att_Params_Validate (att_GetParams ctx) = Inr () \<Longrightarrow> policy_ok ctx att"
  by (auto simp: policy_ok_def sint_diff_small word_less_def att_Params_Validate_def split: if_splits)

text \<open>The index of \<open>rootOf\<close> is cut to 32 bits: index \<open>2 ^ 32\<close> reads the root at index 0, where the method promises no root.\<close>

lemma rootOf_index_wraps:
  "handleRootOf tdemo_ctx [VU8 2, VBig (2 ^ 32)] = Inr (OutRoot (replicate 32 5))"
  by code_simp

end
