(* ===== verification/State_DB.thy ===== *)
theory State_DB
  imports HP_Prelude "HOL-Library.AList"
begin

text \<open>
  The EVM state database (\<open>x/evm/statedb\<close>): a cache of accounts over the keeper, with a journal of changes that lets the EVM
  take snapshots and revert to them.

  The Go code works on pointers to state objects; an object is only ever reached through the map \<open>stateObjects\<close> or, when it
  has been replaced, through the journal entry that can bring it back.  Mutating the object behind a pointer is
  therefore writing it back to the map, and the entry of a replaced object holds its last value.  Go maps are association
  lists with distinct keys.  \<open>nil\<close> slices and missing objects are \<open>None\<close>.  A panic is \<open>Inl\<close>.

  The keeper the database reads from and commits to is the record \<open>SKeeper\<close>, a Go interface in the source
  (\<open>interfaces.go\<close>); \<open>'e\<close> is the state behind the context.  \<open>Keccak256\<close> is go-ethereum's.
\<close>

type_synonym hash = "256 word"
type_synonym Storage = "(hash \<times> hash) list"

section \<open>Data\<close>

record Account =
  ac_Nonce :: u64
  ac_Balance :: int
  ac_CodeHash :: hash

record 'e SKeeper =
  k_GetAccount :: "'e \<Rightarrow> addr \<Rightarrow> Account option"
  k_GetState :: "'e \<Rightarrow> addr \<Rightarrow> hash \<Rightarrow> hash"
  k_GetCode :: "'e \<Rightarrow> hash \<Rightarrow> bytes option"
  k_SetAccount :: "'e \<Rightarrow> addr \<Rightarrow> Account \<Rightarrow> 'e \<times> (string, unit) result"
  k_SetState :: "'e \<Rightarrow> addr \<Rightarrow> hash \<Rightarrow> bytes \<Rightarrow> 'e"
  k_SetCode :: "'e \<Rightarrow> hash \<Rightarrow> bytes \<Rightarrow> 'e"
  k_DeleteAccount :: "'e \<Rightarrow> addr \<Rightarrow> 'e \<times> (string, unit) result"
  Keccak256 :: "bytes \<Rightarrow> hash"

definition emptyCodeHash :: "'e SKeeper \<Rightarrow> hash" where
  "emptyCodeHash K = Keccak256 K []"

definition NewEmptyAccount :: "'e SKeeper \<Rightarrow> Account" where
  "NewEmptyAccount K = \<lparr>ac_Nonce = 0, ac_Balance = 0, ac_CodeHash = emptyCodeHash K\<rparr>"

record stateObject =
  so_account :: Account
  so_code :: "bytes option"
  so_originStorage :: Storage
  so_dirtyStorage :: Storage
  so_transientStorage :: Storage
  so_address :: addr
  so_dirtyCode :: bool
  so_suicided :: bool

text \<open>\<open>newObject\<close> also replaces a nil balance by zero and a nil code hash by the empty one; accounts here have both.\<close>

definition newObject :: "addr \<Rightarrow> Account \<Rightarrow> stateObject" where
  "newObject address account =
     \<lparr>so_account = account, so_code = None, so_originStorage = [], so_dirtyStorage = [], so_transientStorage = [],
      so_address = address, so_dirtyCode = False, so_suicided = False\<rparr>"

datatype JournalEntry =
    createObjectChange addr
  | resetObjectChange stateObject
  | suicideChange addr bool int
  | balanceChange addr int
  | nonceChange addr u64
  | storageChange addr hash hash
  | codeChange addr "bytes option" hash
  | refundChange u64
  | addLogChange
  | accessListAddAccountChange addr
  | accessListAddSlotChange addr hash

primrec Dirtied :: "JournalEntry \<Rightarrow> addr option" where
  "Dirtied (createObjectChange a) = Some a"
| "Dirtied (resetObjectChange prev) = None"
| "Dirtied (suicideChange a prev prevbalance) = Some a"
| "Dirtied (balanceChange a prev) = Some a"
| "Dirtied (nonceChange a prev) = Some a"
| "Dirtied (storageChange a key prevalue) = Some a"
| "Dirtied (codeChange a prevcode prevhash) = Some a"
| "Dirtied (refundChange prev) = None"
| "Dirtied addLogChange = None"
| "Dirtied (accessListAddAccountChange a) = None"
| "Dirtied (accessListAddSlotChange a slot) = None"

record journal =
  j_entries :: "JournalEntry list"
  j_dirties :: "(addr \<times> int) list"

text \<open>The access list: the index of the slots of an address, or -1, and the slot sets.\<close>

record accessList =
  al_addresses :: "(addr \<times> int) list"
  al_slots :: "hash list list"

record EvmLog =
  lg_Address :: addr
  lg_Topics :: "hash list"
  lg_Data :: bytes
  lg_TxHash :: hash
  lg_BlockHash :: hash
  lg_TxIndex :: u64
  lg_Index :: u64

record TxConfig =
  tc_BlockHash :: hash
  tc_TxHash :: hash
  tc_TxIndex :: u64
  tc_LogIndex :: u64

record revision =
  rv_id :: nat
  rv_journalIndex :: nat

record 'e StateDB =
  sd_ctx :: 'e
  sd_journal :: journal
  sd_validRevisions :: "revision list"
  sd_nextRevisionID :: nat
  sd_stateObjects :: "(addr \<times> stateObject) list"
  sd_txConfig :: TxConfig
  sd_refund :: u64
  sd_logs :: "EvmLog list"
  sd_accessList :: accessList

definition newJournal :: journal where
  "newJournal = \<lparr>j_entries = [], j_dirties = []\<rparr>"

definition newAccessList :: accessList where
  "newAccessList = \<lparr>al_addresses = [], al_slots = []\<rparr>"

definition sdb_New :: "'e \<Rightarrow> TxConfig \<Rightarrow> 'e StateDB" where
  "sdb_New ctx txConfig =
     \<lparr>sd_ctx = ctx, sd_journal = newJournal, sd_validRevisions = [], sd_nextRevisionID = 0, sd_stateObjects = [],
      sd_txConfig = txConfig, sd_refund = 0, sd_logs = [], sd_accessList = newAccessList\<rparr>"

section \<open>Access list\<close>

definition ContainsAddress :: "accessList \<Rightarrow> addr \<Rightarrow> bool" where
  "ContainsAddress al address \<longleftrightarrow> map_of (al_addresses al) address \<noteq> None"

definition al_Contains :: "accessList \<Rightarrow> addr \<Rightarrow> hash \<Rightarrow> bool \<times> bool" where
  "al_Contains al address slot =
     (case map_of (al_addresses al) address of
        None \<Rightarrow> (False, False)
      | Some idx \<Rightarrow> if idx = -1 then (True, False) else (True, slot \<in> set (al_slots al ! nat idx)))"

definition AddAddress :: "accessList \<Rightarrow> addr \<Rightarrow> accessList \<times> bool" where
  "AddAddress al address =
     (if map_of (al_addresses al) address \<noteq> None then (al, False)
      else (al\<lparr>al_addresses := AList.update address (-1) (al_addresses al)\<rparr>, True))"

definition AddSlot :: "accessList \<Rightarrow> addr \<Rightarrow> hash \<Rightarrow> accessList \<times> bool \<times> bool" where
  "AddSlot al address slot =
     (case map_of (al_addresses al) address of
        None \<Rightarrow>
          (al\<lparr>al_addresses := AList.update address (int (length (al_slots al))) (al_addresses al),
              al_slots := al_slots al @ [[slot]]\<rparr>, True, True)
      | Some idx \<Rightarrow>
          if idx = -1 then
            (al\<lparr>al_addresses := AList.update address (int (length (al_slots al))) (al_addresses al),
                al_slots := al_slots al @ [[slot]]\<rparr>, False, True)
          else
            let slotmap = al_slots al ! nat idx in
            if slot \<notin> set slotmap then
              (al\<lparr>al_slots := (al_slots al)[nat idx := slot # slotmap]\<rparr>, False, True)
            else (al, False, False))"

definition DeleteSlot :: "accessList \<Rightarrow> addr \<Rightarrow> hash \<Rightarrow> (string, accessList) result" where
  "DeleteSlot al address slot =
     (case map_of (al_addresses al) address of
        None \<Rightarrow> Inl ''reverting slot change, address not present in list''
      | Some idx \<Rightarrow>
          if idx < 0 \<or> int (length (al_slots al)) \<le> idx then Inl ''index out of range''
          else
            let slotmap = removeAll slot (al_slots al ! nat idx) in
            if slotmap = [] then
              Inr (al\<lparr>al_slots := take (nat idx) (al_slots al),
                      al_addresses := AList.update address (-1) (al_addresses al)\<rparr>)
            else Inr (al\<lparr>al_slots := (al_slots al)[nat idx := slotmap]\<rparr>))"

definition DeleteAddress :: "accessList \<Rightarrow> addr \<Rightarrow> accessList" where
  "DeleteAddress al address = al\<lparr>al_addresses := AList.delete address (al_addresses al)\<rparr>"

section \<open>Journal and objects\<close>

definition journal_append :: "'e StateDB \<Rightarrow> JournalEntry \<Rightarrow> 'e StateDB" where
  "journal_append s entry =
     (let j = sd_journal s;
          dirties = (case Dirtied entry of
                       None \<Rightarrow> j_dirties j
                     | Some addr \<Rightarrow> AList.update addr
                         ((case map_of (j_dirties j) addr of None \<Rightarrow> 0 | Some n \<Rightarrow> n) + 1) (j_dirties j))
      in s\<lparr>sd_journal := j\<lparr>j_entries := j_entries j @ [entry], j_dirties := dirties\<rparr>\<rparr>)"

definition setStateObject :: "'e StateDB \<Rightarrow> stateObject \<Rightarrow> 'e StateDB" where
  "setStateObject s object = s\<lparr>sd_stateObjects := AList.update (so_address object) object (sd_stateObjects s)\<rparr>"

definition getStateObject :: "'e SKeeper \<Rightarrow> 'e StateDB \<Rightarrow> addr \<Rightarrow> 'e StateDB \<times> stateObject option" where
  "getStateObject K s addr =
     (case map_of (sd_stateObjects s) addr of
        Some obj \<Rightarrow> (s, Some obj)
      | None \<Rightarrow>
          (case k_GetAccount K (sd_ctx s) addr of
             None \<Rightarrow> (s, None)
           | Some account \<Rightarrow>
               let obj = newObject addr account in (setStateObject s obj, Some obj)))"

definition createObject :: "'e SKeeper \<Rightarrow> 'e StateDB \<Rightarrow> addr \<Rightarrow> 'e StateDB \<times> stateObject \<times> stateObject option" where
  "createObject K s addr =
     (let (s, prev) = getStateObject K s addr;
          newobj = newObject addr (NewEmptyAccount K);
          s = (case prev of
                 None \<Rightarrow> journal_append s (createObjectChange addr)
               | Some prev \<Rightarrow> journal_append s (resetObjectChange prev));
          s = setStateObject s newobj
      in (s, newobj, prev))"

definition getOrNewStateObject :: "'e SKeeper \<Rightarrow> 'e StateDB \<Rightarrow> addr \<Rightarrow> 'e StateDB \<times> stateObject" where
  "getOrNewStateObject K s addr =
     (case getStateObject K s addr of
        (s, Some obj) \<Rightarrow> (s, obj)
      | (s, None) \<Rightarrow> (case createObject K s addr of (s, newobj, _) \<Rightarrow> (s, newobj)))"

definition so_Balance :: "stateObject \<Rightarrow> int" where
  "so_Balance obj = ac_Balance (so_account obj)"

definition so_Nonce :: "stateObject \<Rightarrow> u64" where
  "so_Nonce obj = ac_Nonce (so_account obj)"

definition so_CodeHash :: "stateObject \<Rightarrow> hash" where
  "so_CodeHash obj = ac_CodeHash (so_account obj)"

definition so_empty :: "'e SKeeper \<Rightarrow> stateObject \<Rightarrow> bool" where
  "so_empty K obj \<longleftrightarrow> so_Nonce obj = 0 \<and> so_Balance obj = 0 \<and> so_CodeHash obj = emptyCodeHash K"

definition so_setBalance :: "stateObject \<Rightarrow> int \<Rightarrow> stateObject" where
  "so_setBalance obj amount = obj\<lparr>so_account := (so_account obj)\<lparr>ac_Balance := amount\<rparr>\<rparr>"

definition so_setNonce :: "stateObject \<Rightarrow> u64 \<Rightarrow> stateObject" where
  "so_setNonce obj nonce = obj\<lparr>so_account := (so_account obj)\<lparr>ac_Nonce := nonce\<rparr>\<rparr>"

definition so_setCode :: "stateObject \<Rightarrow> hash \<Rightarrow> bytes option \<Rightarrow> stateObject" where
  "so_setCode obj codeHash code =
     obj\<lparr>so_code := code, so_account := (so_account obj)\<lparr>ac_CodeHash := codeHash\<rparr>, so_dirtyCode := True\<rparr>"

definition so_setState :: "stateObject \<Rightarrow> hash \<Rightarrow> hash \<Rightarrow> stateObject" where
  "so_setState obj key val = obj\<lparr>so_dirtyStorage := AList.update key val (so_dirtyStorage obj)\<rparr>"

definition so_markSuicided :: "stateObject \<Rightarrow> stateObject" where
  "so_markSuicided obj = obj\<lparr>so_suicided := True\<rparr>"

text \<open>Methods that read through to the keeper and keep what they read; they return the object with the cache filled.\<close>

definition so_Code :: "'e SKeeper \<Rightarrow> 'e \<Rightarrow> stateObject \<Rightarrow> stateObject \<times> bytes option" where
  "so_Code K ctx obj =
     (if so_code obj \<noteq> None then (obj, so_code obj)
      else if so_CodeHash obj = emptyCodeHash K then (obj, None)
      else let code = k_GetCode K ctx (so_CodeHash obj) in (obj\<lparr>so_code := code\<rparr>, code))"

definition so_GetCommittedState :: "'e SKeeper \<Rightarrow> 'e \<Rightarrow> stateObject \<Rightarrow> hash \<Rightarrow> stateObject \<times> hash" where
  "so_GetCommittedState K ctx obj key =
     (case map_of (so_originStorage obj) key of
        Some val \<Rightarrow> (obj, val)
      | None \<Rightarrow>
          let val = k_GetState K ctx (so_address obj) key
          in (obj\<lparr>so_originStorage := AList.update key val (so_originStorage obj)\<rparr>, val))"

definition so_GetState :: "'e SKeeper \<Rightarrow> 'e \<Rightarrow> stateObject \<Rightarrow> hash \<Rightarrow> stateObject \<times> hash" where
  "so_GetState K ctx obj key =
     (case map_of (so_dirtyStorage obj) key of
        Some val \<Rightarrow> (obj, val)
      | None \<Rightarrow> so_GetCommittedState K ctx obj key)"

text \<open>Methods that journal a change: they write the changed object back.\<close>

definition so_SetBalance :: "'e StateDB \<Rightarrow> stateObject \<Rightarrow> int \<Rightarrow> 'e StateDB" where
  "so_SetBalance s obj amount =
     (let s = journal_append s (balanceChange (so_address obj) (so_Balance obj))
      in setStateObject s (so_setBalance obj amount))"

definition so_AddBalance :: "'e StateDB \<Rightarrow> stateObject \<Rightarrow> int \<Rightarrow> 'e StateDB" where
  "so_AddBalance s obj amount = (if amount = 0 then s else so_SetBalance s obj (so_Balance obj + amount))"

definition so_SubBalance :: "'e StateDB \<Rightarrow> stateObject \<Rightarrow> int \<Rightarrow> 'e StateDB" where
  "so_SubBalance s obj amount = (if amount = 0 then s else so_SetBalance s obj (so_Balance obj - amount))"

definition so_SetNonce :: "'e StateDB \<Rightarrow> stateObject \<Rightarrow> u64 \<Rightarrow> 'e StateDB" where
  "so_SetNonce s obj nonce =
     (let s = journal_append s (nonceChange (so_address obj) (so_Nonce obj))
      in setStateObject s (so_setNonce obj nonce))"

definition so_SetCode :: "'e SKeeper \<Rightarrow> 'e StateDB \<Rightarrow> stateObject \<Rightarrow> hash \<Rightarrow> bytes option \<Rightarrow> 'e StateDB" where
  "so_SetCode K s obj codeHash code =
     (let (obj, prevcode) = so_Code K (sd_ctx s) obj;
          s = journal_append s (codeChange (so_address obj) prevcode (so_CodeHash obj))
      in setStateObject s (so_setCode obj codeHash code))"

definition so_SetState :: "'e SKeeper \<Rightarrow> 'e StateDB \<Rightarrow> stateObject \<Rightarrow> hash \<Rightarrow> hash \<Rightarrow> 'e StateDB" where
  "so_SetState K s obj key val =
     (let (obj, prev) = so_GetState K (sd_ctx s) obj key in
      if prev = val then setStateObject s obj
      else
        let s = journal_append s (storageChange (so_address obj) key prev)
        in setStateObject s (so_setState obj key val))"

section \<open>Readers\<close>

definition sdb_Exist :: "'e SKeeper \<Rightarrow> 'e StateDB \<Rightarrow> addr \<Rightarrow> 'e StateDB \<times> bool" where
  "sdb_Exist K s addr = (let (s, so) = getStateObject K s addr in (s, so \<noteq> None))"

definition sdb_Empty :: "'e SKeeper \<Rightarrow> 'e StateDB \<Rightarrow> addr \<Rightarrow> 'e StateDB \<times> bool" where
  "sdb_Empty K s addr =
     (case getStateObject K s addr of (s, None) \<Rightarrow> (s, True) | (s, Some so) \<Rightarrow> (s, so_empty K so))"

definition sdb_GetBalance :: "'e SKeeper \<Rightarrow> 'e StateDB \<Rightarrow> addr \<Rightarrow> 'e StateDB \<times> int" where
  "sdb_GetBalance K s addr =
     (case getStateObject K s addr of (s, Some obj) \<Rightarrow> (s, so_Balance obj) | (s, None) \<Rightarrow> (s, 0))"

definition sdb_GetNonce :: "'e SKeeper \<Rightarrow> 'e StateDB \<Rightarrow> addr \<Rightarrow> 'e StateDB \<times> u64" where
  "sdb_GetNonce K s addr =
     (case getStateObject K s addr of (s, Some obj) \<Rightarrow> (s, so_Nonce obj) | (s, None) \<Rightarrow> (s, 0))"

definition sdb_GetCode :: "'e SKeeper \<Rightarrow> 'e StateDB \<Rightarrow> addr \<Rightarrow> 'e StateDB \<times> bytes option" where
  "sdb_GetCode K s addr =
     (case getStateObject K s addr of
        (s, Some obj) \<Rightarrow> (let (obj, code) = so_Code K (sd_ctx s) obj in (setStateObject s obj, code))
      | (s, None) \<Rightarrow> (s, None))"

definition sdb_GetCodeSize :: "'e SKeeper \<Rightarrow> 'e StateDB \<Rightarrow> addr \<Rightarrow> 'e StateDB \<times> nat" where
  "sdb_GetCodeSize K s addr =
     (let (s, code) = sdb_GetCode K s addr in (s, case code of None \<Rightarrow> 0 | Some c \<Rightarrow> length c))"

definition sdb_GetCodeHash :: "'e SKeeper \<Rightarrow> 'e StateDB \<Rightarrow> addr \<Rightarrow> 'e StateDB \<times> hash" where
  "sdb_GetCodeHash K s addr =
     (case getStateObject K s addr of (s, None) \<Rightarrow> (s, 0) | (s, Some obj) \<Rightarrow> (s, so_CodeHash obj))"

definition sdb_GetState :: "'e SKeeper \<Rightarrow> 'e StateDB \<Rightarrow> addr \<Rightarrow> hash \<Rightarrow> 'e StateDB \<times> hash" where
  "sdb_GetState K s addr key =
     (case getStateObject K s addr of
        (s, Some obj) \<Rightarrow> (let (obj, val) = so_GetState K (sd_ctx s) obj key in (setStateObject s obj, val))
      | (s, None) \<Rightarrow> (s, 0))"

definition sdb_GetCommittedState :: "'e SKeeper \<Rightarrow> 'e StateDB \<Rightarrow> addr \<Rightarrow> hash \<Rightarrow> 'e StateDB \<times> hash" where
  "sdb_GetCommittedState K s addr key =
     (case getStateObject K s addr of
        (s, Some obj) \<Rightarrow> (let (obj, val) = so_GetCommittedState K (sd_ctx s) obj key in (setStateObject s obj, val))
      | (s, None) \<Rightarrow> (s, 0))"

definition sdb_HasSuicided :: "'e SKeeper \<Rightarrow> 'e StateDB \<Rightarrow> addr \<Rightarrow> 'e StateDB \<times> bool" where
  "sdb_HasSuicided K s addr =
     (case getStateObject K s addr of (s, Some obj) \<Rightarrow> (s, so_suicided obj) | (s, None) \<Rightarrow> (s, False))"

definition sdb_AddressInAccessList :: "'e StateDB \<Rightarrow> addr \<Rightarrow> bool" where
  "sdb_AddressInAccessList s addr = ContainsAddress (sd_accessList s) addr"

definition sdb_SlotInAccessList :: "'e StateDB \<Rightarrow> addr \<Rightarrow> hash \<Rightarrow> bool \<times> bool" where
  "sdb_SlotInAccessList s addr slot = al_Contains (sd_accessList s) addr slot"

section \<open>Writers\<close>

definition sdb_AddLog :: "'e StateDB \<Rightarrow> EvmLog \<Rightarrow> 'e StateDB" where
  "sdb_AddLog s log =
     (let s = journal_append s addLogChange;
          log = log\<lparr>lg_TxHash := tc_TxHash (sd_txConfig s), lg_BlockHash := tc_BlockHash (sd_txConfig s),
                    lg_TxIndex := tc_TxIndex (sd_txConfig s),
                    lg_Index := tc_LogIndex (sd_txConfig s) + word_of_nat (length (sd_logs s))\<rparr>
      in s\<lparr>sd_logs := sd_logs s @ [log]\<rparr>)"

definition sdb_AddRefund :: "'e StateDB \<Rightarrow> u64 \<Rightarrow> 'e StateDB" where
  "sdb_AddRefund s gas =
     (let s = journal_append s (refundChange (sd_refund s)) in s\<lparr>sd_refund := sd_refund s + gas\<rparr>)"

definition sdb_SubRefund :: "'e StateDB \<Rightarrow> u64 \<Rightarrow> (string, 'e StateDB) result" where
  "sdb_SubRefund s gas =
     (let s = journal_append s (refundChange (sd_refund s)) in
      if sd_refund s < gas then Inl ''Refund counter below zero'' else Inr (s\<lparr>sd_refund := sd_refund s - gas\<rparr>))"

definition sdb_CreateAccount :: "'e SKeeper \<Rightarrow> 'e StateDB \<Rightarrow> addr \<Rightarrow> 'e StateDB" where
  "sdb_CreateAccount K s addr =
     (case createObject K s addr of
        (s, newObj, Some prev) \<Rightarrow> setStateObject s (so_setBalance newObj (ac_Balance (so_account prev)))
      | (s, newObj, None) \<Rightarrow> s)"

definition sdb_AddBalance :: "'e SKeeper \<Rightarrow> 'e StateDB \<Rightarrow> addr \<Rightarrow> int \<Rightarrow> 'e StateDB" where
  "sdb_AddBalance K s addr amount = (let (s, obj) = getOrNewStateObject K s addr in so_AddBalance s obj amount)"

definition sdb_SubBalance :: "'e SKeeper \<Rightarrow> 'e StateDB \<Rightarrow> addr \<Rightarrow> int \<Rightarrow> 'e StateDB" where
  "sdb_SubBalance K s addr amount = (let (s, obj) = getOrNewStateObject K s addr in so_SubBalance s obj amount)"

definition sdb_SetNonce :: "'e SKeeper \<Rightarrow> 'e StateDB \<Rightarrow> addr \<Rightarrow> u64 \<Rightarrow> 'e StateDB" where
  "sdb_SetNonce K s addr nonce = (let (s, obj) = getOrNewStateObject K s addr in so_SetNonce s obj nonce)"

definition sdb_SetCode :: "'e SKeeper \<Rightarrow> 'e StateDB \<Rightarrow> addr \<Rightarrow> bytes option \<Rightarrow> 'e StateDB" where
  "sdb_SetCode K s addr code =
     (let (s, obj) = getOrNewStateObject K s addr;
          codeHash = Keccak256 K (case code of None \<Rightarrow> [] | Some c \<Rightarrow> c)
      in so_SetCode K s obj codeHash code)"

definition sdb_SetState :: "'e SKeeper \<Rightarrow> 'e StateDB \<Rightarrow> addr \<Rightarrow> hash \<Rightarrow> hash \<Rightarrow> 'e StateDB" where
  "sdb_SetState K s addr key val = (let (s, obj) = getOrNewStateObject K s addr in so_SetState K s obj key val)"

definition sdb_Suicide :: "'e SKeeper \<Rightarrow> 'e StateDB \<Rightarrow> addr \<Rightarrow> 'e StateDB \<times> bool" where
  "sdb_Suicide K s addr =
     (case getStateObject K s addr of
        (s, None) \<Rightarrow> (s, False)
      | (s, Some obj) \<Rightarrow>
          let s = journal_append s (suicideChange addr (so_suicided obj) (so_Balance obj))
          in (setStateObject s (so_setBalance (so_markSuicided obj) 0), True))"

definition sdb_AddAddressToAccessList :: "'e StateDB \<Rightarrow> addr \<Rightarrow> 'e StateDB" where
  "sdb_AddAddressToAccessList s addr =
     (let (al, changed) = AddAddress (sd_accessList s) addr;
          s = s\<lparr>sd_accessList := al\<rparr>
      in if changed then journal_append s (accessListAddAccountChange addr) else s)"

definition sdb_AddSlotToAccessList :: "'e StateDB \<Rightarrow> addr \<Rightarrow> hash \<Rightarrow> 'e StateDB" where
  "sdb_AddSlotToAccessList s addr slot =
     (let (al, addrMod, slotMod) = AddSlot (sd_accessList s) addr slot;
          s = s\<lparr>sd_accessList := al\<rparr>;
          s = (if addrMod then journal_append s (accessListAddAccountChange addr) else s)
      in if slotMod then journal_append s (accessListAddSlotChange addr slot) else s)"

definition sdb_PrepareAccessList ::
  "'e StateDB \<Rightarrow> addr \<Rightarrow> addr option \<Rightarrow> addr list \<Rightarrow> (addr \<times> hash list) list \<Rightarrow> 'e StateDB" where
  "sdb_PrepareAccessList s sender dst precompiles list =
     (let s = sdb_AddAddressToAccessList s sender;
          s = (case dst of None \<Rightarrow> s | Some a \<Rightarrow> sdb_AddAddressToAccessList s a);
          s = foldl sdb_AddAddressToAccessList s precompiles
      in foldl (\<lambda>s (a, keys). foldl (\<lambda>s key. sdb_AddSlotToAccessList s a key) (sdb_AddAddressToAccessList s a) keys) s list)"

section \<open>Snapshots\<close>

text \<open>\<open>Revert\<close> of a journal entry.  The entries of an account panic on a nil object, except for \<open>suicideChange\<close>.\<close>

definition on_object :: "'e SKeeper \<Rightarrow> 'e StateDB \<Rightarrow> addr \<Rightarrow> (stateObject \<Rightarrow> stateObject) \<Rightarrow> (string, 'e StateDB) result" where
  "on_object K s addr f =
     (case getStateObject K s addr of
        (s, None) \<Rightarrow> Inl ''nil pointer dereference''
      | (s, Some obj) \<Rightarrow> Inr (setStateObject s (f obj)))"

primrec entry_Revert :: "'e SKeeper \<Rightarrow> 'e StateDB \<Rightarrow> JournalEntry \<Rightarrow> (string, 'e StateDB) result" where
  "entry_Revert K s (createObjectChange a) = Inr (s\<lparr>sd_stateObjects := AList.delete a (sd_stateObjects s)\<rparr>)"
| "entry_Revert K s (resetObjectChange prev) = Inr (setStateObject s prev)"
| "entry_Revert K s (suicideChange a prev prevbalance) =
     (case getStateObject K s a of
        (s, None) \<Rightarrow> Inr s
      | (s, Some obj) \<Rightarrow> Inr (setStateObject s (so_setBalance (obj\<lparr>so_suicided := prev\<rparr>) prevbalance)))"
| "entry_Revert K s (balanceChange a prev) = on_object K s a (\<lambda>obj. so_setBalance obj prev)"
| "entry_Revert K s (nonceChange a prev) = on_object K s a (\<lambda>obj. so_setNonce obj prev)"
| "entry_Revert K s (codeChange a prevcode prevhash) = on_object K s a (\<lambda>obj. so_setCode obj prevhash prevcode)"
| "entry_Revert K s (storageChange a key prevalue) = on_object K s a (\<lambda>obj. so_setState obj key prevalue)"
| "entry_Revert K s (refundChange prev) = Inr (s\<lparr>sd_refund := prev\<rparr>)"
| "entry_Revert K s addLogChange =
     (if sd_logs s = [] then Inl ''slice bounds out of range'' else Inr (s\<lparr>sd_logs := butlast (sd_logs s)\<rparr>))"
| "entry_Revert K s (accessListAddAccountChange a) = Inr (s\<lparr>sd_accessList := DeleteAddress (sd_accessList s) a\<rparr>)"
| "entry_Revert K s (accessListAddSlotChange a slot) =
     (case DeleteSlot (sd_accessList s) a slot of Inl err \<Rightarrow> Inl err | Inr al \<Rightarrow> Inr (s\<lparr>sd_accessList := al\<rparr>))"

definition drop_dirty :: "'e StateDB \<Rightarrow> JournalEntry \<Rightarrow> 'e StateDB" where
  "drop_dirty s entry =
     (case Dirtied entry of
        None \<Rightarrow> s
      | Some addr \<Rightarrow>
          let dirties = j_dirties (sd_journal s);
              n = (case map_of dirties addr of None \<Rightarrow> 0 | Some n \<Rightarrow> n) - 1;
              dirties = (if n = 0 then AList.delete addr dirties else AList.update addr n dirties)
          in s\<lparr>sd_journal := (sd_journal s)\<lparr>j_dirties := dirties\<rparr>\<rparr>)"

text \<open>The loop of \<open>journal.Revert\<close>, over the entries from the last one down.\<close>

primrec revert_loop :: "'e SKeeper \<Rightarrow> 'e StateDB \<Rightarrow> JournalEntry list \<Rightarrow> (string, 'e StateDB) result" where
  "revert_loop K s [] = Inr s"
| "revert_loop K s (e # es) =
     (case entry_Revert K s e of
        Inl err \<Rightarrow> Inl err
      | Inr s \<Rightarrow> revert_loop K (drop_dirty s e) es)"

definition journal_Revert :: "'e SKeeper \<Rightarrow> 'e StateDB \<Rightarrow> nat \<Rightarrow> (string, 'e StateDB) result" where
  "journal_Revert K s snapshot =
     (case revert_loop K s (rev (drop snapshot (j_entries (sd_journal s)))) of
        Inl err \<Rightarrow> Inl err
      | Inr s \<Rightarrow> Inr (s\<lparr>sd_journal := (sd_journal s)\<lparr>j_entries := take snapshot (j_entries (sd_journal s))\<rparr>\<rparr>))"

definition sdb_Snapshot :: "'e StateDB \<Rightarrow> 'e StateDB \<times> nat" where
  "sdb_Snapshot s =
     (let rid = sd_nextRevisionID s;
          s = s\<lparr>sd_nextRevisionID := rid + 1\<rparr>;
          s = s\<lparr>sd_validRevisions := sd_validRevisions s @
                 [\<lparr>rv_id = rid, rv_journalIndex = length (j_entries (sd_journal s))\<rparr>]\<rparr>
      in (s, rid))"

text \<open>\<open>sort.Search\<close>: binary search for the least index at which a monotone predicate holds.\<close>

function search_loop :: "(nat \<Rightarrow> bool) \<Rightarrow> nat \<Rightarrow> nat \<Rightarrow> nat" where
  "search_loop f i j =
     (if i < j then
        let h = (i + j) div 2 in
        if \<not> f h then search_loop f (h + 1) j else search_loop f i h
      else i)"
  by auto
termination
  by (relation "measure (\<lambda>(f, i, j). j - i)") auto

definition sort_Search :: "nat \<Rightarrow> (nat \<Rightarrow> bool) \<Rightarrow> nat" where
  "sort_Search n f = search_loop f 0 n"

definition sdb_RevertToSnapshot :: "'e SKeeper \<Rightarrow> 'e StateDB \<Rightarrow> nat \<Rightarrow> (string, 'e StateDB) result" where
  "sdb_RevertToSnapshot K s revid =
     (let idx = sort_Search (length (sd_validRevisions s)) (\<lambda>i. revid \<le> rv_id (sd_validRevisions s ! i)) in
      if idx = length (sd_validRevisions s) \<or> rv_id (sd_validRevisions s ! idx) \<noteq> revid
      then Inl ''revision id cannot be reverted''
      else
        let snapshot = rv_journalIndex (sd_validRevisions s ! idx) in
        (case journal_Revert K s snapshot of
           Inl err \<Rightarrow> Inl err
         | Inr s \<Rightarrow> Inr (s\<lparr>sd_validRevisions := take idx (sd_validRevisions s)\<rparr>)))"

section \<open>Commit\<close>

definition sortedDirties :: "journal \<Rightarrow> addr list" where
  "sortedDirties j = sort (map fst (j_dirties j))"

definition SortedKeys :: "Storage \<Rightarrow> hash list" where
  "SortedKeys st = sort (map fst st)"

definition hash_Bytes :: "hash \<Rightarrow> bytes" where
  "hash_Bytes h = be_encode 32 (unat h)"

definition commit_slot :: "'e SKeeper \<Rightarrow> 'e \<times> stateObject \<Rightarrow> hash \<Rightarrow> 'e \<times> stateObject" where
  "commit_slot K = (\<lambda>(ctx, obj) key.
     let dirtyValue = (case map_of (so_dirtyStorage obj) key of None \<Rightarrow> 0 | Some v \<Rightarrow> v);
         originValue = (case map_of (so_originStorage obj) key of None \<Rightarrow> 0 | Some v \<Rightarrow> v)
     in
     if (case map_of (so_transientStorage obj) key of Some v \<Rightarrow> v = dirtyValue | None \<Rightarrow> dirtyValue = originValue)
     then (ctx, obj)
     else (k_SetState K ctx (so_address obj) key (hash_Bytes dirtyValue),
           obj\<lparr>so_transientStorage := AList.update key dirtyValue (so_transientStorage obj)\<rparr>))"

definition commit_object :: "'e SKeeper \<Rightarrow> 'e \<Rightarrow> stateObject \<Rightarrow> 'e \<times> (string, stateObject) result" where
  "commit_object K ctx obj =
     (if so_suicided obj then
        (case k_DeleteAccount K ctx (so_address obj) of
           (ctx, Inl err) \<Rightarrow> (ctx, Inl (''failed to delete account: '' @ err))
         | (ctx, Inr _) \<Rightarrow> (ctx, Inr obj))
      else
        let ctx = (case so_code obj of
                     Some code \<Rightarrow> if so_dirtyCode obj then k_SetCode K ctx (so_CodeHash obj) code else ctx
                   | None \<Rightarrow> ctx)
        in
        case k_SetAccount K ctx (so_address obj) (so_account obj) of
          (ctx, Inl err) \<Rightarrow> (ctx, Inl (''failed to set account: '' @ err))
        | (ctx, Inr _) \<Rightarrow>
            let (ctx, obj) = foldl (commit_slot K) (ctx, obj) (SortedKeys (so_dirtyStorage obj))
            in (ctx, Inr obj))"

primrec commit_loop :: "'e SKeeper \<Rightarrow> 'e StateDB \<Rightarrow> addr list \<Rightarrow> 'e StateDB \<times> (string, unit) result" where
  "commit_loop K s [] = (s, Inr ())"
| "commit_loop K s (a # as) =
     (case map_of (sd_stateObjects s) a of
        None \<Rightarrow> (s, Inl ''nil pointer dereference'')
      | Some obj \<Rightarrow>
          (case commit_object K (sd_ctx s) obj of
             (ctx, Inl err) \<Rightarrow> (s\<lparr>sd_ctx := ctx\<rparr>, Inl err)
           | (ctx, Inr obj) \<Rightarrow> commit_loop K (setStateObject (s\<lparr>sd_ctx := ctx\<rparr>) obj) as))"

definition sdb_Commit :: "'e SKeeper \<Rightarrow> 'e StateDB \<Rightarrow> 'e StateDB \<times> (string, unit) result" where
  "sdb_Commit K s = commit_loop K s (sortedDirties (sd_journal s))"

end
