(* ===== verification/State_DB_Refinement.thy ===== *)
theory State_DB_Refinement
  imports State_DB
begin

text \<open>
  The journaling database implements snapshots by copying.  The specification keeps the accounts as a map from addresses to
  account values, the access list as sets, and takes a snapshot by keeping a copy; it has no cache, no journal and no indexes.
  The database is shown to give the same answers for every sequence of calls.

  The proof goes through an intermediate state that forgets the caches but keeps the access list as it is.  Undoing a journal
  entry is a function \<open>undo\<close> on that state, \<open>changes\<close> says that a call appended entries which \<open>undo\<close> takes back, and the
  invariant of the simulation says of every open snapshot that undoing the entries after it leads to the copy.
\<close>

section \<open>Account values\<close>

record acct_view =
  av_nonce :: u64
  av_balance :: int
  av_codehash :: hash
  av_code :: "bytes option"
  av_storage :: "hash \<Rightarrow> hash"
  av_suicided :: bool

record 'al astate =
  as_accounts :: "addr \<Rightarrow> acct_view option"
  as_refund :: u64
  as_logs :: "EvmLog list"
  as_access :: 'al

text \<open>The code an account shows when \<open>code\<close> is cached for it.\<close>

definition view_code :: "'e SKeeper \<Rightarrow> 'e \<Rightarrow> bytes option \<Rightarrow> hash \<Rightarrow> bytes option" where
  "view_code K ctx code codehash =
     (if code \<noteq> None then code else if codehash = emptyCodeHash K then None else k_GetCode K ctx codehash)"

definition obj_view :: "'e SKeeper \<Rightarrow> 'e \<Rightarrow> stateObject \<Rightarrow> acct_view" where
  "obj_view K ctx obj =
     \<lparr>av_nonce = so_Nonce obj, av_balance = so_Balance obj, av_codehash = so_CodeHash obj,
      av_code = view_code K ctx (so_code obj) (so_CodeHash obj),
      av_storage = (\<lambda>k. case map_of (so_dirtyStorage obj) k of Some v \<Rightarrow> v | None \<Rightarrow> k_GetState K ctx (so_address obj) k),
      av_suicided = so_suicided obj\<rparr>"

definition keeper_view :: "'e SKeeper \<Rightarrow> 'e \<Rightarrow> addr \<Rightarrow> acct_view option" where
  "keeper_view K ctx a = map_option (\<lambda>acc. obj_view K ctx (newObject a acc)) (k_GetAccount K ctx a)"

definition fresh_view :: "'e SKeeper \<Rightarrow> 'e \<Rightarrow> addr \<Rightarrow> acct_view" where
  "fresh_view K ctx a = obj_view K ctx (newObject a (NewEmptyAccount K))"

definition view :: "'e SKeeper \<Rightarrow> 'e StateDB \<Rightarrow> addr \<Rightarrow> acct_view option" where
  "view K s a =
     (case map_of (sd_stateObjects s) a of
        Some obj \<Rightarrow> Some (obj_view K (sd_ctx s) obj)
      | None \<Rightarrow> keeper_view K (sd_ctx s) a)"

definition mid :: "'e SKeeper \<Rightarrow> 'e StateDB \<Rightarrow> accessList astate" where
  "mid K s = \<lparr>as_accounts = view K s, as_refund = sd_refund s, as_logs = sd_logs s, as_access = sd_accessList s\<rparr>"

section \<open>Objects stay consistent with the keeper\<close>

definition obj_ok :: "'e SKeeper \<Rightarrow> 'e \<Rightarrow> stateObject \<Rightarrow> bool" where
  "obj_ok K ctx obj \<longleftrightarrow> (\<forall>k v. map_of (so_originStorage obj) k = Some v \<longrightarrow> v = k_GetState K ctx (so_address obj) k)"

definition objs_ok :: "'e SKeeper \<Rightarrow> 'e StateDB \<Rightarrow> bool" where
  "objs_ok K s \<longleftrightarrow>
     (\<forall>a obj. map_of (sd_stateObjects s) a = Some obj \<longrightarrow> so_address obj = a \<and> obj_ok K (sd_ctx s) obj)"

lemma objs_okD: "objs_ok K s \<Longrightarrow> map_of (sd_stateObjects s) a = Some obj \<Longrightarrow> so_address obj = a"
  "objs_ok K s \<Longrightarrow> map_of (sd_stateObjects s) a = Some obj \<Longrightarrow> obj_ok K (sd_ctx s) obj"
  by (auto simp: objs_ok_def)

lemma newObject_simps [simp]:
  "so_account (newObject a acc) = acc" "so_code (newObject a acc) = None" "so_originStorage (newObject a acc) = []"
  "so_dirtyStorage (newObject a acc) = []" "so_address (newObject a acc) = a" "so_suicided (newObject a acc) = False"
  by (simp_all add: newObject_def)

lemma obj_ok_newObject [simp]: "obj_ok K ctx (newObject a acc)"
  by (simp add: obj_ok_def)

lemma setStateObject_simps [simp]:
  "sd_ctx (setStateObject s obj) = sd_ctx s" "sd_journal (setStateObject s obj) = sd_journal s"
  "sd_validRevisions (setStateObject s obj) = sd_validRevisions s"
  "sd_nextRevisionID (setStateObject s obj) = sd_nextRevisionID s" "sd_txConfig (setStateObject s obj) = sd_txConfig s"
  "sd_refund (setStateObject s obj) = sd_refund s" "sd_logs (setStateObject s obj) = sd_logs s"
  "sd_accessList (setStateObject s obj) = sd_accessList s"
  "map_of (sd_stateObjects (setStateObject s obj)) = (map_of (sd_stateObjects s))(so_address obj \<mapsto> obj)"
  by (simp_all add: setStateObject_def update_conv')

lemma journal_append_simps [simp]:
  "sd_ctx (journal_append s e) = sd_ctx s" "j_entries (sd_journal (journal_append s e)) = j_entries (sd_journal s) @ [e]"
  "sd_validRevisions (journal_append s e) = sd_validRevisions s"
  "sd_nextRevisionID (journal_append s e) = sd_nextRevisionID s" "sd_txConfig (journal_append s e) = sd_txConfig s"
  "sd_refund (journal_append s e) = sd_refund s" "sd_logs (journal_append s e) = sd_logs s"
  "sd_accessList (journal_append s e) = sd_accessList s" "sd_stateObjects (journal_append s e) = sd_stateObjects s"
  by (simp_all add: journal_append_def Let_def)

lemma view_setStateObject:
  "view K (setStateObject s obj) = (view K s)(so_address obj \<mapsto> obj_view K (sd_ctx s) obj)"
  by (simp add: view_def fun_eq_iff split: option.split)

lemma view_cong:
  "map_of (sd_stateObjects s) = map_of (sd_stateObjects s') \<Longrightarrow> sd_ctx s = sd_ctx s' \<Longrightarrow> view K s = view K s'"
  by (simp add: view_def fun_eq_iff split: option.split)

lemma mid_simps [simp]:
  "mid K (setStateObject s obj) =
     (mid K s)\<lparr>as_accounts := (as_accounts (mid K s))(so_address obj \<mapsto> obj_view K (sd_ctx s) obj)\<rparr>"
  "mid K (journal_append s e) = mid K s"
  "mid K (s\<lparr>sd_refund := r\<rparr>) = (mid K s)\<lparr>as_refund := r\<rparr>" "mid K (s\<lparr>sd_logs := l\<rparr>) = (mid K s)\<lparr>as_logs := l\<rparr>"
  "mid K (s\<lparr>sd_accessList := al\<rparr>) = (mid K s)\<lparr>as_access := al\<rparr>"
  by (simp_all add: mid_def view_setStateObject) (simp_all add: view_def fun_eq_iff split: option.split)

lemma objs_ok_simps [simp]:
  "objs_ok K (journal_append s e) = objs_ok K s" "objs_ok K (s\<lparr>sd_refund := r\<rparr>) = objs_ok K s"
  "objs_ok K (s\<lparr>sd_logs := l\<rparr>) = objs_ok K s" "objs_ok K (s\<lparr>sd_accessList := al\<rparr>) = objs_ok K s"
  by (simp_all add: objs_ok_def)

lemma objs_ok_setStateObject: "objs_ok K s \<Longrightarrow> obj_ok K (sd_ctx s) obj \<Longrightarrow> objs_ok K (setStateObject s obj)"
  by (auto simp: objs_ok_def split: if_splits)

lemma mid_sel [simp]:
  "as_accounts (mid K s) = view K s" "as_refund (mid K s) = sd_refund s" "as_logs (mid K s) = sd_logs s"
  "as_access (mid K s) = sd_accessList s"
  by (simp_all add: mid_def)

lemma mid_upd_same: "view K s a = v \<Longrightarrow> (mid K s)\<lparr>as_accounts := (view K s)(a := v)\<rparr> = mid K s"
  by (simp add: mid_def fun_upd_idem)

text \<open>Two databases that differ in their caches only.\<close>

definition loads :: "'e SKeeper \<Rightarrow> 'e StateDB \<Rightarrow> 'e StateDB \<Rightarrow> bool" where
  "loads K s s' \<longleftrightarrow>
     mid K s' = mid K s \<and> objs_ok K s' \<and> sd_journal s' = sd_journal s \<and> sd_ctx s' = sd_ctx s \<and>
     sd_txConfig s' = sd_txConfig s \<and> sd_validRevisions s' = sd_validRevisions s \<and>
     sd_nextRevisionID s' = sd_nextRevisionID s"

lemma loads_setStateObject:
  "objs_ok K s \<Longrightarrow> obj_ok K (sd_ctx s) obj \<Longrightarrow> view K s (so_address obj) = Some (obj_view K (sd_ctx s) obj) \<Longrightarrow>
   loads K s (setStateObject s obj)"
  by (simp add: loads_def mid_upd_same objs_ok_setStateObject)

text \<open>Loading an account into the cache changes nothing that can be seen.\<close>

lemma getStateObject_cases:
  assumes ok: "objs_ok K s"
  obtains (none) s' where "getStateObject K s a = (s', None)" "loads K s s'" "view K s a = None"
      "map_of (sd_stateObjects s') a = None" "keeper_view K (sd_ctx s) a = None"
  | (some) s' obj where "getStateObject K s a = (s', Some obj)" "loads K s s'" "view K s a = Some (obj_view K (sd_ctx s) obj)"
      "so_address obj = a" "obj_ok K (sd_ctx s) obj" "map_of (sd_stateObjects s') a = Some obj"
proof (cases "map_of (sd_stateObjects s) a")
  case None
  show thesis
  proof (cases "k_GetAccount K (sd_ctx s) a")
    case None
    with \<open>map_of (sd_stateObjects s) a = None\<close> ok show thesis
      by (intro none) (simp_all add: getStateObject_def loads_def view_def keeper_view_def)
  next
    case (Some acc)
    have v: "view K s a = Some (obj_view K (sd_ctx s) (newObject a acc))"
      using Some \<open>map_of (sd_stateObjects s) a = None\<close> by (simp add: view_def keeper_view_def)
    with Some \<open>map_of (sd_stateObjects s) a = None\<close> ok show thesis
      by (intro some [of "setStateObject s (newObject a acc)" "newObject a acc"])
        (simp_all add: getStateObject_def loads_setStateObject Let_def)
  qed
next
  case (Some obj)
  with ok show thesis
    by (intro some [of s obj]) (simp_all add: getStateObject_def loads_def view_def objs_okD)
qed

section \<open>Undoing an entry\<close>

definition upd_account :: "addr \<Rightarrow> (acct_view \<Rightarrow> acct_view) \<Rightarrow> 'al astate \<Rightarrow> 'al astate option" where
  "upd_account a f m =
     (case as_accounts m a of None \<Rightarrow> None | Some v \<Rightarrow> Some (m\<lparr>as_accounts := (as_accounts m)(a \<mapsto> f v)\<rparr>))"

primrec undo :: "'e SKeeper \<Rightarrow> 'e \<Rightarrow> JournalEntry \<Rightarrow> accessList astate \<Rightarrow> accessList astate option" where
  "undo K ctx (createObjectChange a) m = Some (m\<lparr>as_accounts := (as_accounts m)(a := keeper_view K ctx a)\<rparr>)"
| "undo K ctx (resetObjectChange prev) m =
     Some (m\<lparr>as_accounts := (as_accounts m)(so_address prev \<mapsto> obj_view K ctx prev)\<rparr>)"
| "undo K ctx (suicideChange a p b) m = upd_account a (\<lambda>v. v\<lparr>av_suicided := p, av_balance := b\<rparr>) m"
| "undo K ctx (balanceChange a b) m = upd_account a (\<lambda>v. v\<lparr>av_balance := b\<rparr>) m"
| "undo K ctx (nonceChange a n) m = upd_account a (\<lambda>v. v\<lparr>av_nonce := n\<rparr>) m"
| "undo K ctx (storageChange a k x) m = upd_account a (\<lambda>v. v\<lparr>av_storage := (av_storage v)(k := x)\<rparr>) m"
| "undo K ctx (codeChange a c h) m = upd_account a (\<lambda>v. v\<lparr>av_codehash := h, av_code := view_code K ctx c h\<rparr>) m"
| "undo K ctx (refundChange r) m = Some (m\<lparr>as_refund := r\<rparr>)"
| "undo K ctx addLogChange m = (if as_logs m = [] then None else Some (m\<lparr>as_logs := butlast (as_logs m)\<rparr>))"
| "undo K ctx (accessListAddAccountChange a) m = Some (m\<lparr>as_access := DeleteAddress (as_access m) a\<rparr>)"
| "undo K ctx (accessListAddSlotChange a x) m =
     (case DeleteSlot (as_access m) a x of Inl _ \<Rightarrow> None | Inr al \<Rightarrow> Some (m\<lparr>as_access := al\<rparr>))"

primrec undo_all :: "'e SKeeper \<Rightarrow> 'e \<Rightarrow> JournalEntry list \<Rightarrow> accessList astate \<Rightarrow> accessList astate option" where
  "undo_all K ctx [] m = Some m"
| "undo_all K ctx (e # es) m = (case undo K ctx e m of None \<Rightarrow> None | Some m' \<Rightarrow> undo_all K ctx es m')"

lemma undo_all_append:
  "undo_all K ctx (es @ es') m = (case undo_all K ctx es m of None \<Rightarrow> None | Some m' \<Rightarrow> undo_all K ctx es' m')"
  by (induction es arbitrary: m) (auto split: option.split)

text \<open>An entry that brings an object back holds one that agrees with the keeper.\<close>

definition entry_ok :: "'e SKeeper \<Rightarrow> 'e \<Rightarrow> JournalEntry \<Rightarrow> bool" where
  "entry_ok K ctx e = (case e of resetObjectChange prev \<Rightarrow> obj_ok K ctx prev | _ \<Rightarrow> True)"

lemma view_code_Some [simp]: "view_code K ctx (view_code K ctx c h) h = view_code K ctx c h"
  by (auto simp: view_code_def)

lemma obj_view_setters [simp]:
  "obj_view K ctx (so_setBalance obj b) = (obj_view K ctx obj)\<lparr>av_balance := b\<rparr>"
  "obj_view K ctx (so_setNonce obj n) = (obj_view K ctx obj)\<lparr>av_nonce := n\<rparr>"
  "obj_view K ctx (so_setCode obj h c) = (obj_view K ctx obj)\<lparr>av_codehash := h, av_code := view_code K ctx c h\<rparr>"
  "obj_view K ctx (so_setState obj k x) = (obj_view K ctx obj)\<lparr>av_storage := (av_storage (obj_view K ctx obj))(k := x)\<rparr>"
  "obj_view K ctx (obj\<lparr>so_suicided := p\<rparr>) = (obj_view K ctx obj)\<lparr>av_suicided := p\<rparr>"
  "obj_view K ctx (so_markSuicided obj) = (obj_view K ctx obj)\<lparr>av_suicided := True\<rparr>"
  by (auto simp: obj_view_def so_setBalance_def so_setNonce_def so_setCode_def so_setState_def so_markSuicided_def
      so_Balance_def so_Nonce_def so_CodeHash_def update_conv' fun_eq_iff split: option.split)

lemma setters_address [simp]:
  "so_address (so_setBalance obj b) = so_address obj" "so_address (so_setNonce obj n) = so_address obj"
  "so_address (so_setCode obj h c) = so_address obj" "so_address (so_setState obj k x) = so_address obj"
  "so_address (so_markSuicided obj) = so_address obj"
  by (simp_all add: so_setBalance_def so_setNonce_def so_setCode_def so_setState_def so_markSuicided_def)

lemma obj_ok_setters [simp]:
  "obj_ok K ctx (so_setBalance obj b) = obj_ok K ctx obj" "obj_ok K ctx (so_setNonce obj n) = obj_ok K ctx obj"
  "obj_ok K ctx (so_setCode obj h c) = obj_ok K ctx obj" "obj_ok K ctx (so_setState obj k x) = obj_ok K ctx obj"
  "obj_ok K ctx (obj\<lparr>so_suicided := p\<rparr>) = obj_ok K ctx obj" "obj_ok K ctx (so_markSuicided obj) = obj_ok K ctx obj"
  by (simp_all add: obj_ok_def so_setBalance_def so_setNonce_def so_setCode_def so_setState_def so_markSuicided_def)

text \<open>What stays in place while entries are taken back.\<close>

definition same_frame :: "'e StateDB \<Rightarrow> 'e StateDB \<Rightarrow> bool" where
  "same_frame s s' \<longleftrightarrow>
     sd_ctx s' = sd_ctx s \<and> sd_txConfig s' = sd_txConfig s \<and> sd_validRevisions s' = sd_validRevisions s \<and>
     sd_nextRevisionID s' = sd_nextRevisionID s"

lemma same_frame_refl [simp]: "same_frame s s"
  by (simp add: same_frame_def)

lemma same_frame_simps [simp]:
  "same_frame s (setStateObject s' obj) = same_frame s s'" "same_frame s (journal_append s' e) = same_frame s s'"
  "same_frame s (s'\<lparr>sd_refund := r\<rparr>) = same_frame s s'" "same_frame s (s'\<lparr>sd_logs := l\<rparr>) = same_frame s s'"
  "same_frame s (s'\<lparr>sd_accessList := al\<rparr>) = same_frame s s'" "same_frame s (s'\<lparr>sd_journal := j\<rparr>) = same_frame s s'"
  by (simp_all add: same_frame_def)

lemma same_frame_trans: "same_frame s s' \<Longrightarrow> same_frame s' s'' \<Longrightarrow> same_frame s s''"
  by (simp add: same_frame_def)

lemma loads_frame: "loads K s s' \<Longrightarrow> same_frame s s'" "loads K s s' \<Longrightarrow> mid K s' = mid K s" "loads K s s' \<Longrightarrow> objs_ok K s'"
  "loads K s s' \<Longrightarrow> sd_journal s' = sd_journal s" "loads K s s' \<Longrightarrow> sd_ctx s' = sd_ctx s" "loads K s s' \<Longrightarrow> view K s' = view K s"
  by (auto simp: loads_def same_frame_def dest: arg_cong [of _ _ as_accounts])

text \<open>\<open>Revert\<close> of an entry does not panic where \<open>undo\<close> is defined, and undoes.\<close>

lemma on_object_undo:
  assumes ok: "objs_ok K s" and undo: "upd_account a g (mid K s) = Some m"
    and f: "\<And>obj. obj_view K (sd_ctx s) (f obj) = g (obj_view K (sd_ctx s) obj)" "\<And>obj. so_address (f obj) = so_address obj"
      "\<And>obj. obj_ok K (sd_ctx s) (f obj) = obj_ok K (sd_ctx s) obj"
  shows "\<exists>s'. on_object K s a f = Inr s' \<and> mid K s' = m \<and> objs_ok K s' \<and> same_frame s s' \<and> sd_journal s' = sd_journal s"
  using ok
proof (cases rule: getStateObject_cases [where a = a])
  case none
  with undo show ?thesis
    by (simp add: upd_account_def)
next
  case (some s1 obj)
  note l = loads_frame [OF some(2)]
  have "on_object K s a f = Inr (setStateObject s1 (f obj))"
    by (simp add: on_object_def some(1))
  moreover have "mid K (setStateObject s1 (f obj)) = m"
    using undo some f by (simp add: upd_account_def l)
  moreover have "objs_ok K (setStateObject s1 (f obj))"
    using some f l by (simp add: objs_ok_setStateObject)
  ultimately show ?thesis
    using l by (simp add: same_frame_def)
qed

lemma entry_Revert_undo:
  assumes ok: "objs_ok K s" and e: "entry_ok K (sd_ctx s) e" and undo: "undo K (sd_ctx s) e (mid K s) = Some m"
  shows "\<exists>s'. entry_Revert K s e = Inr s' \<and> mid K s' = m \<and> objs_ok K s' \<and> same_frame s s' \<and> sd_journal s' = sd_journal s"
proof (cases e)
  case (createObjectChange a)
  let ?s = "s\<lparr>sd_stateObjects := AList.delete a (sd_stateObjects s)\<rparr>"
  have "view K ?s = (view K s)(a := keeper_view K (sd_ctx s) a)"
    by (simp add: view_def fun_eq_iff delete_conv' split: option.split)
  then have "mid K ?s = m"
    using undo by (simp add: createObjectChange mid_def)
  moreover have "objs_ok K ?s"
    using ok by (simp add: objs_ok_def delete_conv')
  ultimately show ?thesis
    by (simp add: createObjectChange same_frame_def)
next
  case (suicideChange a p b)
  have "entry_Revert K s e = on_object K s a (\<lambda>obj. so_setBalance (obj\<lparr>so_suicided := p\<rparr>) b)"
    using undo by (cases rule: getStateObject_cases [OF ok, where a = a])
      (simp_all add: suicideChange on_object_def upd_account_def)
  then show ?thesis
    using on_object_undo [OF ok, of a "\<lambda>v. v\<lparr>av_suicided := p, av_balance := b\<rparr>" m] undo by (simp add: suicideChange)
qed (use undo e ok in \<open>auto simp: entry_ok_def objs_ok_setStateObject intro!: on_object_undo split: sum.splits if_splits\<close>)

lemma drop_dirty_simps [simp]:
  "mid K (drop_dirty s e) = mid K s" "objs_ok K (drop_dirty s e) = objs_ok K s" "same_frame s' (drop_dirty s e) = same_frame s' s"
  "j_entries (sd_journal (drop_dirty s e)) = j_entries (sd_journal s)" "sd_ctx (drop_dirty s e) = sd_ctx s"
proof -
  have *: "mid K (s\<lparr>sd_journal := j\<rparr>) = mid K s" "objs_ok K (s\<lparr>sd_journal := j\<rparr>) = objs_ok K s" for j
    by (simp_all add: mid_def view_def fun_eq_iff objs_ok_def split: option.split)
  show "mid K (drop_dirty s e) = mid K s" "objs_ok K (drop_dirty s e) = objs_ok K s"
    "same_frame s' (drop_dirty s e) = same_frame s' s" "j_entries (sd_journal (drop_dirty s e)) = j_entries (sd_journal s)"
    "sd_ctx (drop_dirty s e) = sd_ctx s"
    by (simp_all add: drop_dirty_def Let_def * split: option.split)
qed

lemma revert_loop_undo:
  "objs_ok K s \<Longrightarrow> \<forall>e \<in> set es. entry_ok K (sd_ctx s) e \<Longrightarrow> undo_all K (sd_ctx s) es (mid K s) = Some m \<Longrightarrow>
   \<exists>s'. revert_loop K s es = Inr s' \<and> mid K s' = m \<and> objs_ok K s' \<and> same_frame s s' \<and>
     j_entries (sd_journal s') = j_entries (sd_journal s)"
proof (induction es arbitrary: s)
  case (Cons e es)
  then obtain m1 where m1: "undo K (sd_ctx s) e (mid K s) = Some m1" "undo_all K (sd_ctx s) es m1 = Some m"
    by (auto split: option.splits)
  then obtain s1 where s1: "entry_Revert K s e = Inr s1" "mid K s1 = m1" "objs_ok K s1" "same_frame s s1" "sd_journal s1 = sd_journal s"
    using entry_Revert_undo [OF Cons.prems(1)] Cons.prems(2) by force
  let ?s = "drop_dirty s1 e"
  have "sd_ctx s1 = sd_ctx s"
    using s1(4) by (simp add: same_frame_def)
  then obtain s' where "revert_loop K ?s es = Inr s'" "mid K s' = m" "objs_ok K s'" "same_frame ?s s'"
    "j_entries (sd_journal s') = j_entries (sd_journal ?s)"
    using Cons.IH [of ?s] Cons.prems(2) s1 m1(2) by auto
  moreover from this(4) s1(4) have "same_frame s s'"
    by (auto intro: same_frame_trans [of s ?s])
  ultimately show ?case
    using s1 by simp
qed auto

section \<open>Changes\<close>

definition changes :: "'e SKeeper \<Rightarrow> 'e StateDB \<Rightarrow> 'e StateDB \<Rightarrow> JournalEntry list \<Rightarrow> bool" where
  "changes K s s' es \<longleftrightarrow>
     same_frame s s' \<and> objs_ok K s' \<and> j_entries (sd_journal s') = j_entries (sd_journal s) @ es \<and>
     (\<forall>e \<in> set es. entry_ok K (sd_ctx s) e) \<and> undo_all K (sd_ctx s) (rev es) (mid K s') = Some (mid K s)"

lemma changes_loads: "loads K s s' \<Longrightarrow> changes K s s' []"
  by (auto simp: changes_def loads_def same_frame_def)

lemma changes_refl: "objs_ok K s \<Longrightarrow> changes K s s []"
  by (simp add: changes_def)

lemma changes_trans:
  "changes K s s' es \<Longrightarrow> changes K s' s'' es' \<Longrightarrow> changes K s s'' (es @ es')"
  unfolding changes_def by (auto simp: undo_all_append same_frame_def)

lemma changes_entry:
  "objs_ok K s' \<Longrightarrow> same_frame s s' \<Longrightarrow> j_entries (sd_journal s') = j_entries (sd_journal s) @ [e] \<Longrightarrow>
   entry_ok K (sd_ctx s) e \<Longrightarrow> undo K (sd_ctx s) e (mid K s') = Some (mid K s) \<Longrightarrow> changes K s s' [e]"
  by (simp add: changes_def)

lemma changes_object:
  assumes "objs_ok K s" "view K s (so_address obj) = Some (obj_view K (sd_ctx s) obj)"
    "obj_ok K (sd_ctx s) obj'" "so_address obj' = so_address obj" "entry_ok K (sd_ctx s) e"
    "undo K (sd_ctx s) e ((mid K s)\<lparr>as_accounts := (view K s)(so_address obj \<mapsto> obj_view K (sd_ctx s) obj')\<rparr>) = Some (mid K s)"
  shows "changes K s (setStateObject (journal_append s e) obj') [e]"
  using assms by (intro changes_entry) (simp_all add: objs_ok_setStateObject)

definition acct_or_fresh :: "'e SKeeper \<Rightarrow> 'e \<Rightarrow> 'al astate \<Rightarrow> addr \<Rightarrow> acct_view" where
  "acct_or_fresh K ctx m a = (case as_accounts m a of Some v \<Rightarrow> v | None \<Rightarrow> fresh_view K ctx a)"

definition set_account :: "addr \<Rightarrow> acct_view \<Rightarrow> 'al astate \<Rightarrow> 'al astate" where
  "set_account a v m = m\<lparr>as_accounts := (as_accounts m)(a \<mapsto> v)\<rparr>"

lemma createObject_cases:
  assumes ok: "objs_ok K s"
  obtains (new) s' where "createObject K s a = (s', newObject a (NewEmptyAccount K), None)"
      "changes K s s' [createObjectChange a]" "mid K s' = set_account a (fresh_view K (sd_ctx s) a) (mid K s)" "view K s a = None"
  | (reset) s' prev where "createObject K s a = (s', newObject a (NewEmptyAccount K), Some prev)"
      "changes K s s' [resetObjectChange prev]" "mid K s' = set_account a (fresh_view K (sd_ctx s) a) (mid K s)"
      "view K s a = Some (obj_view K (sd_ctx s) prev)" "so_address prev = a"
  using ok
proof (cases rule: getStateObject_cases [where a = a])
  case (none s1)
  note l = loads_frame [OF none(2)]
  let ?s = "setStateObject (journal_append s1 (createObjectChange a)) (newObject a (NewEmptyAccount K))"
  have c: "createObject K s a = (?s, newObject a (NewEmptyAccount K), None)"
    by (simp add: createObject_def none(1) Let_def)
  have "changes K s1 ?s [createObjectChange a]"
    using l none by (intro changes_entry) (simp_all add: objs_ok_setStateObject entry_ok_def mid_upd_same)
  then have "changes K s ?s [createObjectChange a]"
    using changes_trans [OF changes_loads [OF none(2)]] by fastforce
  then show thesis
    using none by (intro new [OF c]) (simp_all add: set_account_def fresh_view_def l)
next
  case (some s1 prev)
  note l = loads_frame [OF some(2)]
  let ?s = "setStateObject (journal_append s1 (resetObjectChange prev)) (newObject a (NewEmptyAccount K))"
  have c: "createObject K s a = (?s, newObject a (NewEmptyAccount K), Some prev)"
    by (simp add: createObject_def some(1) Let_def)
  have "changes K s1 ?s [resetObjectChange prev]"
    using l some by (intro changes_entry) (simp_all add: objs_ok_setStateObject entry_ok_def mid_upd_same)
  then have "changes K s ?s [resetObjectChange prev]"
    using changes_trans [OF changes_loads [OF some(2)]] by fastforce
  then show thesis
    using some by (intro reset [OF c]) (simp_all add: set_account_def fresh_view_def l)
qed

lemma getOrNewStateObject_cases:
  assumes ok: "objs_ok K s"
  obtains s' obj es where "getOrNewStateObject K s a = (s', obj)" "changes K s s' es" "so_address obj = a"
    "obj_ok K (sd_ctx s) obj" "obj_view K (sd_ctx s) obj = acct_or_fresh K (sd_ctx s) (mid K s) a"
    "mid K s' = set_account a (acct_or_fresh K (sd_ctx s) (mid K s) a) (mid K s)"
  using ok
proof (cases rule: getStateObject_cases [where a = a])
  case (none s1)
  note l = loads_frame [OF none(2)]
  from l(3) show thesis
  proof (cases rule: createObject_cases [where a = a])
    case (new s')
    have "changes K s s' ([] @ [createObjectChange a])"
      using changes_loads [OF none(2)] new(2) by (rule changes_trans)
    with new none l show thesis
      by (intro that [of s' "newObject a (NewEmptyAccount K)" "[createObjectChange a]"])
        (simp_all add: getOrNewStateObject_def acct_or_fresh_def fresh_view_def)
  next
    case (reset s' prev)
    with none l show thesis by simp
  qed
next
  case (some s1 obj)
  note l = loads_frame [OF some(2)]
  from some l show thesis
    by (intro that [OF _ changes_loads, of s1 obj])
      (simp_all add: getOrNewStateObject_def acct_or_fresh_def set_account_def mid_upd_same)
qed

section \<open>Calls\<close>

lemma obj_view_sel [simp]:
  "av_nonce (obj_view K ctx obj) = so_Nonce obj" "av_balance (obj_view K ctx obj) = so_Balance obj"
  "av_codehash (obj_view K ctx obj) = so_CodeHash obj" "av_suicided (obj_view K ctx obj) = so_suicided obj"
  by (simp_all add: obj_view_def)

lemma obj_view_id:
  "(obj_view K ctx obj)\<lparr>av_balance := so_Balance obj\<rparr> = obj_view K ctx obj"
  "(obj_view K ctx obj)\<lparr>av_nonce := so_Nonce obj\<rparr> = obj_view K ctx obj"
  "(obj_view K ctx obj)\<lparr>av_balance := so_Balance obj, av_suicided := so_suicided obj\<rparr> = obj_view K ctx obj"
  "(obj_view K ctx obj)\<lparr>av_codehash := so_CodeHash obj, av_code := av_code (obj_view K ctx obj)\<rparr> = obj_view K ctx obj"
  "(obj_view K ctx obj)\<lparr>av_storage := (av_storage (obj_view K ctx obj))(k := av_storage (obj_view K ctx obj) k)\<rparr> = obj_view K ctx obj"
  by (simp_all add: obj_view_def fun_eq_iff)

text \<open>A change of one object, and the entry that takes it back.\<close>

lemma object_change:
  assumes "objs_ok K s" "view K s a = Some (obj_view K (sd_ctx s) obj)" "obj_ok K (sd_ctx s) obj'"
    "so_address obj' = a" "entry_ok K (sd_ctx s) e" "\<And>m. undo K (sd_ctx s) e m = upd_account a g m"
    "g (obj_view K (sd_ctx s) obj') = obj_view K (sd_ctx s) obj"
  shows "changes K s (setStateObject (journal_append s e) obj') [e] \<and>
    mid K (setStateObject (journal_append s e) obj') = set_account a (obj_view K (sd_ctx s) obj') (mid K s)"
  using assms
  by (auto simp: set_account_def upd_account_def objs_ok_setStateObject mid_upd_same intro!: changes_entry)

lemma so_Code_view:
  assumes "so_Code K ctx obj = (obj', code)"
  shows "obj_view K ctx obj' = obj_view K ctx obj" "so_address obj' = so_address obj" "obj_ok K ctx obj' = obj_ok K ctx obj"
    "code = av_code (obj_view K ctx obj)" "so_CodeHash obj' = so_CodeHash obj"
  using assms
  by (auto simp: so_Code_def obj_view_def view_code_def so_CodeHash_def so_Nonce_def so_Balance_def obj_ok_def Let_def fun_eq_iff
      split: if_splits option.split)

lemma so_GetCommittedState_view:
  assumes "so_GetCommittedState K ctx obj k = (obj', v)" "obj_ok K ctx obj"
  shows "obj_view K ctx obj' = obj_view K ctx obj" "so_address obj' = so_address obj" "obj_ok K ctx obj'"
    "v = k_GetState K ctx (so_address obj) k"
proof -
  show "obj_view K ctx obj' = obj_view K ctx obj" "so_address obj' = so_address obj"
    using assms
    by (auto simp: so_GetCommittedState_def obj_view_def so_CodeHash_def so_Nonce_def so_Balance_def Let_def split: option.splits)
  show "obj_ok K ctx obj'" "v = k_GetState K ctx (so_address obj) k"
    using assms
    by (auto simp: so_GetCommittedState_def obj_ok_def Let_def update_conv' split: option.splits if_splits)
qed

lemma so_GetState_view:
  assumes "so_GetState K ctx obj k = (obj', v)" "obj_ok K ctx obj"
  shows "obj_view K ctx obj' = obj_view K ctx obj" "so_address obj' = so_address obj" "obj_ok K ctx obj'"
    "v = av_storage (obj_view K ctx obj) k"
  using assms so_GetCommittedState_view [of K ctx obj k obj' v]
  by (auto simp: so_GetState_def obj_view_def split: option.splits)

text \<open>The effect of a call: entries that take it back, and the account values afterwards.\<close>

definition effect :: "'e SKeeper \<Rightarrow> 'e StateDB \<Rightarrow> 'e StateDB \<Rightarrow> accessList astate \<Rightarrow> bool" where
  "effect K s s' m \<longleftrightarrow> (\<exists>es. changes K s s' es) \<and> mid K s' = m"

lemma effect_loads: "loads K s s' \<Longrightarrow> effect K s s' (mid K s)"
  using changes_loads loads_frame(2) unfolding effect_def by blast

lemma effect_refl: "objs_ok K s \<Longrightarrow> effect K s s (mid K s)"
  using changes_refl unfolding effect_def by blast

lemma effect_trans: "effect K s s' m \<Longrightarrow> effect K s' s'' m' \<Longrightarrow> effect K s s'' m'"
  unfolding effect_def using changes_trans by blast

lemma effect_writer:
  assumes ok: "objs_ok K s"
    and w: "\<And>s1 obj. \<lbrakk>objs_ok K s1; sd_ctx s1 = sd_ctx s; view K s1 a = Some (obj_view K (sd_ctx s) obj); so_address obj = a;
        obj_ok K (sd_ctx s) obj; obj_view K (sd_ctx s) obj = v\<rbrakk> \<Longrightarrow> effect K s1 (f s1 obj) (set_account a (g v) (mid K s1))"
    and v: "v = acct_or_fresh K (sd_ctx s) (mid K s) a"
  shows "effect K s (let (s1, obj) = getOrNewStateObject K s a in f s1 obj) (set_account a (g v) (mid K s))"
  using ok
proof (cases rule: getOrNewStateObject_cases [where a = a])
  case (1 s1 obj es)
  have "effect K s s1 (set_account a v (mid K s))"
    using 1 v by (auto simp: effect_def)
  moreover have "effect K s1 (f s1 obj) (set_account a (g v) (mid K s1))"
  proof (rule w)
    show "objs_ok K s1" "sd_ctx s1 = sd_ctx s"
      using 1 by (auto simp: changes_def same_frame_def)
    have "view K s1 = (view K s)(a \<mapsto> v)"
      using arg_cong [OF 1(6), of as_accounts] v by (simp add: set_account_def)
    then show "view K s1 a = Some (obj_view K (sd_ctx s) obj)"
      using 1 v by simp
  qed (use 1 v in simp_all)
  moreover have "set_account a (g v) (mid K s1) = set_account a (g v) (mid K s)"
    using 1 by (simp add: set_account_def)
  ultimately have "effect K s (f s1 obj) (set_account a (g v) (mid K s))"
    using effect_trans by metis
  then show ?thesis
    using 1 by simp
qed

lemma so_SetBalance_effect:
  "objs_ok K s \<Longrightarrow> view K s a = Some (obj_view K (sd_ctx s) obj) \<Longrightarrow> so_address obj = a \<Longrightarrow> obj_ok K (sd_ctx s) obj \<Longrightarrow>
   effect K s (so_SetBalance s obj b) (set_account a ((obj_view K (sd_ctx s) obj)\<lparr>av_balance := b\<rparr>) (mid K s))"
  using object_change [of K s a obj "so_setBalance obj b" "balanceChange a (so_Balance obj)" "\<lambda>v. v\<lparr>av_balance := so_Balance obj\<rparr>"]
  by (auto simp: effect_def so_SetBalance_def entry_ok_def obj_view_id)

lemma set_account_same: "view K s a = Some v \<Longrightarrow> set_account a v (mid K s) = mid K s"
  by (simp add: set_account_def mid_upd_same)

lemma sdb_AddBalance_effect:
  assumes "objs_ok K s" "v = acct_or_fresh K (sd_ctx s) (mid K s) a"
  shows "effect K s (sdb_AddBalance K s a n) (set_account a (v\<lparr>av_balance := av_balance v + n\<rparr>) (mid K s))"
    "effect K s (sdb_SubBalance K s a n) (set_account a (v\<lparr>av_balance := av_balance v - n\<rparr>) (mid K s))"
  unfolding sdb_AddBalance_def sdb_SubBalance_def so_AddBalance_def so_SubBalance_def
  by (rule effect_writer [OF assms(1) _ assms(2)];
      use so_SetBalance_effect [of K _ a] set_account_same [of K _ a] effect_refl [of K] in \<open>force simp: obj_view_id\<close>)+

lemma sdb_SetNonce_effect:
  assumes "objs_ok K s" "v = acct_or_fresh K (sd_ctx s) (mid K s) a"
  shows "effect K s (sdb_SetNonce K s a n) (set_account a (v\<lparr>av_nonce := n\<rparr>) (mid K s))"
  unfolding sdb_SetNonce_def
proof (rule effect_writer [OF assms(1) _ assms(2)])
  fix s1 obj
  assume "objs_ok K s1" "sd_ctx s1 = sd_ctx s" "view K s1 a = Some (obj_view K (sd_ctx s) obj)" "so_address obj = a"
    "obj_ok K (sd_ctx s) obj" "obj_view K (sd_ctx s) obj = v"
  then show "effect K s1 (so_SetNonce s1 obj n) (set_account a (v\<lparr>av_nonce := n\<rparr>) (mid K s1))"
    using object_change [of K s1 a obj "so_setNonce obj n" "nonceChange a (so_Nonce obj)" "\<lambda>v. v\<lparr>av_nonce := so_Nonce obj\<rparr>"]
    by (auto simp: effect_def so_SetNonce_def entry_ok_def obj_view_id)
qed

lemma sdb_SetCode_effect:
  assumes "objs_ok K s" "v = acct_or_fresh K (sd_ctx s) (mid K s) a"
  shows "effect K s (sdb_SetCode K s a code) (set_account a (v\<lparr>av_codehash := Keccak256 K (case code of None \<Rightarrow> [] | Some c \<Rightarrow> c),
    av_code := code\<rparr>) (mid K s))"
proof -
  define h where "h = Keccak256 K (case code of None \<Rightarrow> [] | Some c \<Rightarrow> c)"
  have c: "view_code K (sd_ctx s) code h = code"
    by (cases code) (auto simp: view_code_def h_def emptyCodeHash_def)
  have "effect K s (let (s1, obj) = getOrNewStateObject K s a in so_SetCode K s1 obj h code)
      (set_account a (v\<lparr>av_codehash := h, av_code := code\<rparr>) (mid K s))"
  proof (rule effect_writer [OF assms(1) _ assms(2)])
    fix s1 obj
    assume *: "objs_ok K s1" "sd_ctx s1 = sd_ctx s" "view K s1 a = Some (obj_view K (sd_ctx s) obj)" "so_address obj = a"
      "obj_ok K (sd_ctx s) obj" "obj_view K (sd_ctx s) obj = v"
    obtain obj' prev where p: "so_Code K (sd_ctx s) obj = (obj', prev)"
      by fastforce
    note q = so_Code_view [OF p]
    have "view_code K (sd_ctx s) prev (so_CodeHash obj) = prev"
      using q(4) by (simp add: obj_view_def)
    then have "changes K s1 (so_SetCode K s1 obj h code) [codeChange a prev (so_CodeHash obj)] \<and>
        mid K (so_SetCode K s1 obj h code) = set_account a (v\<lparr>av_codehash := h, av_code := code\<rparr>) (mid K s1)"
      using object_change [of K s1 a obj "so_setCode obj' h code" "codeChange a prev (so_CodeHash obj)"
          "\<lambda>v. v\<lparr>av_codehash := so_CodeHash obj, av_code := prev\<rparr>"] * q p obj_view_id(4) [of K "sd_ctx s" obj] c
      by (simp add: so_SetCode_def entry_ok_def)
    then show "effect K s1 (so_SetCode K s1 obj h code) (set_account a (v\<lparr>av_codehash := h, av_code := code\<rparr>) (mid K s1))"
      by (auto simp: effect_def)
  qed
  then show ?thesis
    by (simp add: sdb_SetCode_def h_def Let_def case_prod_unfold)
qed

lemma sdb_SetState_effect:
  assumes "objs_ok K s" "v = acct_or_fresh K (sd_ctx s) (mid K s) a"
  shows "effect K s (sdb_SetState K s a k x) (set_account a (v\<lparr>av_storage := (av_storage v)(k := x)\<rparr>) (mid K s))"
  unfolding sdb_SetState_def
proof (rule effect_writer [OF assms(1) _ assms(2)])
  fix s1 obj
  assume *: "objs_ok K s1" "sd_ctx s1 = sd_ctx s" "view K s1 a = Some (obj_view K (sd_ctx s) obj)" "so_address obj = a"
    "obj_ok K (sd_ctx s) obj" "obj_view K (sd_ctx s) obj = v"
  obtain obj' prev where p: "so_GetState K (sd_ctx s) obj k = (obj', prev)"
    by fastforce
  note q = so_GetState_view [OF p *(5)]
  show "effect K s1 (so_SetState K s1 obj k x) (set_account a (v\<lparr>av_storage := (av_storage v)(k := x)\<rparr>) (mid K s1))"
  proof (cases "prev = x")
    case True
    then have "so_SetState K s1 obj k x = setStateObject s1 obj'"
      using p * by (simp add: so_SetState_def)
    moreover have "set_account a (v\<lparr>av_storage := (av_storage v)(k := x)\<rparr>) (mid K s1) = mid K s1"
      using True q * obj_view_id(5) [of K "sd_ctx s" obj k] by (simp add: set_account_same)
    ultimately show ?thesis
      using effect_loads [OF loads_setStateObject [of K s1 obj']] * q by simp
  next
    case False
    then show ?thesis
      using object_change [of K s1 a obj "so_setState obj' k x" "storageChange a k prev"
          "\<lambda>v. v\<lparr>av_storage := (av_storage v)(k := prev)\<rparr>"] * q p obj_view_id(5) [of K "sd_ctx s" obj k]
      by (auto simp: effect_def so_SetState_def entry_ok_def)
  qed
qed

lemma sdb_CreateAccount_effect:
  assumes ok: "objs_ok K s"
  shows "effect K s (sdb_CreateAccount K s a)
    (set_account a ((fresh_view K (sd_ctx s) a)\<lparr>av_balance := (case view K s a of None \<Rightarrow> 0 | Some v \<Rightarrow> av_balance v)\<rparr>) (mid K s))"
  using ok
proof (cases rule: createObject_cases [where a = a])
  case (new s')
  have "(fresh_view K (sd_ctx s) a)\<lparr>av_balance := 0\<rparr> = fresh_view K (sd_ctx s) a"
    by (simp add: fresh_view_def obj_view_def so_Balance_def NewEmptyAccount_def)
  with new show ?thesis
    by (auto simp: sdb_CreateAccount_def effect_def)
next
  case (reset s' prev)
  let ?o = "newObject a (NewEmptyAccount K)" and ?b = "ac_Balance (so_account prev)"
  have c: "sdb_CreateAccount K s a = setStateObject s' (so_setBalance ?o ?b)"
    using reset by (simp add: sdb_CreateAccount_def)
  have ctx: "sd_ctx s' = sd_ctx s" and ok': "objs_ok K s'"
    using reset(2) by (simp_all add: changes_def same_frame_def)
  have m: "mid K (setStateObject s' (so_setBalance ?o ?b)) = set_account a ((fresh_view K (sd_ctx s) a)\<lparr>av_balance := ?b\<rparr>) (mid K s)"
    using arg_cong [OF reset(3), of as_accounts]
    by (simp add: reset(3) set_account_def fresh_view_def ctx)
  have "changes K s (setStateObject s' (so_setBalance ?o ?b)) [resetObjectChange prev]"
    using reset(2,4,5) ok' m
    by (auto simp: changes_def objs_ok_setStateObject set_account_def mid_upd_same)
  then show ?thesis
    using c m reset(4) by (auto simp: effect_def so_Balance_def)
qed

lemma sdb_Suicide_effect:
  assumes ok: "objs_ok K s" and r: "sdb_Suicide K s a = (s', b)"
  shows "effect K s s' (case view K s a of None \<Rightarrow> mid K s
      | Some v \<Rightarrow> set_account a (v\<lparr>av_suicided := True, av_balance := 0\<rparr>) (mid K s))"
    and "b = (view K s a \<noteq> None)"
proof -
  have "effect K s s' (case view K s a of None \<Rightarrow> mid K s
      | Some v \<Rightarrow> set_account a (v\<lparr>av_suicided := True, av_balance := 0\<rparr>) (mid K s)) \<and> b = (view K s a \<noteq> None)"
    using ok
  proof (cases rule: getStateObject_cases [where a = a])
    case (none s1)
    with r show ?thesis
      by (auto simp: sdb_Suicide_def intro: effect_loads)
  next
    case (some s1 obj)
    note l = loads_frame [OF some(2)]
    have "effect K s1 s' (set_account a ((obj_view K (sd_ctx s) obj)\<lparr>av_suicided := True, av_balance := 0\<rparr>) (mid K s1)) \<and> b"
      using object_change [of K s1 a obj "so_setBalance (so_markSuicided obj) 0" "suicideChange a (so_suicided obj) (so_Balance obj)"
          "\<lambda>v. v\<lparr>av_suicided := so_suicided obj, av_balance := so_Balance obj\<rparr>"] l some r
      by (auto simp: sdb_Suicide_def effect_def entry_ok_def obj_view_id)
    then show ?thesis
      using effect_trans [OF effect_loads [OF some(2)]] some by (simp add: l)
  qed
  then show "effect K s s' (case view K s a of None \<Rightarrow> mid K s
      | Some v \<Rightarrow> set_account a (v\<lparr>av_suicided := True, av_balance := 0\<rparr>) (mid K s))" "b = (view K s a \<noteq> None)"
    by simp_all
qed

lemma simple_effects:
  assumes ok: "objs_ok K s"
  shows "effect K s (sdb_AddLog s log) ((mid K s)\<lparr>as_logs := sd_logs s @ [log\<lparr>lg_TxHash := tc_TxHash (sd_txConfig s),
      lg_BlockHash := tc_BlockHash (sd_txConfig s), lg_TxIndex := tc_TxIndex (sd_txConfig s),
      lg_Index := tc_LogIndex (sd_txConfig s) + word_of_nat (length (sd_logs s))\<rparr>]\<rparr>)"
    and "effect K s (sdb_AddRefund s gas) ((mid K s)\<lparr>as_refund := sd_refund s + gas\<rparr>)"
    and "sdb_SubRefund s gas = Inr s' \<Longrightarrow> effect K s s' ((mid K s)\<lparr>as_refund := sd_refund s - gas\<rparr>)"
proof -
  have "(mid K s)\<lparr>as_refund := sd_refund s\<rparr> = mid K s" "(mid K s)\<lparr>as_logs := sd_logs s\<rparr> = mid K s"
    by (simp_all add: mid_def)
  then show "effect K s (sdb_AddLog s log) ((mid K s)\<lparr>as_logs := sd_logs s @ [log\<lparr>lg_TxHash := tc_TxHash (sd_txConfig s),
      lg_BlockHash := tc_BlockHash (sd_txConfig s), lg_TxIndex := tc_TxIndex (sd_txConfig s),
      lg_Index := tc_LogIndex (sd_txConfig s) + word_of_nat (length (sd_logs s))\<rparr>]\<rparr>)"
    "effect K s (sdb_AddRefund s gas) ((mid K s)\<lparr>as_refund := sd_refund s + gas\<rparr>)"
    "sdb_SubRefund s gas = Inr s' \<Longrightarrow> effect K s s' ((mid K s)\<lparr>as_refund := sd_refund s - gas\<rparr>)"
    using ok unfolding effect_def
    by (auto simp: sdb_AddLog_def sdb_AddRefund_def sdb_SubRefund_def Let_def entry_ok_def split: if_splits
        intro!: exI changes_entry)
qed

section \<open>The access list as sets\<close>

definition al_ok :: "accessList \<Rightarrow> bool" where
  "al_ok al \<longleftrightarrow>
     (\<forall>a i. map_of (al_addresses al) a = Some i \<longrightarrow> i = -1 \<or> 0 \<le> i \<and> nat i < length (al_slots al)) \<and>
     (\<forall>a b i. map_of (al_addresses al) a = Some i \<longrightarrow> map_of (al_addresses al) b = Some i \<longrightarrow> i \<noteq> -1 \<longrightarrow> a = b) \<and>
     [] \<notin> set (al_slots al)"

definition al_addrs :: "accessList \<Rightarrow> addr set" where
  "al_addrs al = {a. map_of (al_addresses al) a \<noteq> None}"

definition al_pairs :: "accessList \<Rightarrow> (addr \<times> hash) set" where
  "al_pairs al = {(a, x). \<exists>i. map_of (al_addresses al) a = Some i \<and> i \<noteq> -1 \<and> x \<in> set (al_slots al ! nat i)}"

lemma al_ok_index:
  "al_ok al \<Longrightarrow> map_of (al_addresses al) a = Some i \<Longrightarrow> i \<noteq> -1 \<Longrightarrow> 0 \<le> i \<and> nat i < length (al_slots al)"
  by (auto simp: al_ok_def)

lemma al_Contains_sets: "al_Contains al a x = (a \<in> al_addrs al, (a, x) \<in> al_pairs al)"
  "ContainsAddress al a = (a \<in> al_addrs al)"
  by (auto simp: al_Contains_def ContainsAddress_def al_addrs_def al_pairs_def split: option.split)

lemma update_absent_delete: "map_of xs a = None \<Longrightarrow> AList.delete a (AList.update a v xs) = xs"
  by (induction xs) (auto simp: AList.delete_eq split: if_splits)

lemma update_present: "map_of xs a = Some v \<Longrightarrow> AList.update a v xs = xs"
  by (induction xs) (auto split: if_splits)

lemma update_update: "AList.update a v (AList.update a w xs) = AList.update a v xs"
  by (induction xs) auto

lemma al_okI:
  assumes "\<And>a i. map_of (al_addresses al) a = Some i \<Longrightarrow> i \<noteq> -1 \<Longrightarrow> 0 \<le> i \<and> nat i < length (al_slots al)"
    and "\<And>a b i. map_of (al_addresses al) a = Some i \<Longrightarrow> map_of (al_addresses al) b = Some i \<Longrightarrow> i \<noteq> -1 \<Longrightarrow> a = b"
    and "[] \<notin> set (al_slots al)"
  shows "al_ok al"
  unfolding al_ok_def using assms by blast

lemma al_ok_inj:
  "al_ok al \<Longrightarrow> map_of (al_addresses al) a = Some i \<Longrightarrow> map_of (al_addresses al) b = Some i \<Longrightarrow> i \<noteq> -1 \<Longrightarrow> a = b"
  unfolding al_ok_def by blast

lemma al_ok_nonempty: "al_ok al \<Longrightarrow> [] \<notin> set (al_slots al)"
  unfolding al_ok_def by blast

lemma AddAddress_sets:
  assumes ok: "al_ok al" and a: "map_of (al_addresses al) a = None"
    and al': "al' = al\<lparr>al_addresses := AList.update a (-1) (al_addresses al)\<rparr>"
  shows "al_ok al'" "al_addrs al' = insert a (al_addrs al)" "al_pairs al' = al_pairs al" "DeleteAddress al' a = al"
proof -
  show "al_ok al'"
    using al_ok_index [OF ok] al_ok_inj [OF ok] al_ok_nonempty [OF ok] unfolding al'
    by (intro al_okI) (auto simp: update_conv' split: if_splits)
  show "al_addrs al' = insert a (al_addrs al)" "al_pairs al' = al_pairs al"
    using a by (auto simp: al' al_addrs_def al_pairs_def update_conv' split: if_splits)
  show "DeleteAddress al' a = al"
    using a by (simp add: al' DeleteAddress_def update_absent_delete)
qed

text \<open>Adding a slot: the ways it can go, and what takes it back.\<close>

lemma AddSlot_append:
  assumes ok: "al_ok al" and a: "map_of (al_addresses al) a = None \<or> map_of (al_addresses al) a = Some (-1)"
    and al': "al' = al\<lparr>al_addresses := AList.update a (int (length (al_slots al))) (al_addresses al), al_slots := al_slots al @ [[x]]\<rparr>"
  shows "al_ok al'" "al_addrs al' = insert a (al_addrs al)" "al_pairs al' = insert (a, x) (al_pairs al)"
    "DeleteSlot al' a x = Inr (al\<lparr>al_addresses := AList.update a (-1) (al_addresses al)\<rparr>)"
proof -
  have new: "map_of (al_addresses al) b \<noteq> Some (int (length (al_slots al)))" for b
    using al_ok_index [OF ok, of b] by force
  have "0 \<le> i \<and> nat i < length (al_slots al) + 1" if "map_of (al_addresses al) b = Some i" "i \<noteq> -1" for b i
    using al_ok_index [OF ok that] by simp
  then show "al_ok al'"
    using new al_ok_inj [OF ok] al_ok_nonempty [OF ok] unfolding al'
    by (intro al_okI) (auto simp: update_conv' split: if_splits)
  show "al_addrs al' = insert a (al_addrs al)"
    by (auto simp: al_addrs_def al' update_conv')
  have old: "(al_slots al @ [[x]]) ! nat i = al_slots al ! nat i" if "map_of (al_addresses al) b = Some i" "i \<noteq> -1" for b i
    using al_ok_index [OF ok that] by (simp add: nth_append)
  show "al_pairs al' = insert (a, x) (al_pairs al)"
    using a by (auto simp: al_pairs_def al' update_conv' old split: if_splits)
  show "DeleteSlot al' a x = Inr (al\<lparr>al_addresses := AList.update a (-1) (al_addresses al)\<rparr>)"
    by (simp add: DeleteSlot_def al' update_conv' update_update)
qed

lemma AddSlot_insert:
  assumes ok: "al_ok al" and a: "map_of (al_addresses al) a = Some i" "i \<noteq> -1" and x: "x \<notin> set (al_slots al ! nat i)"
    and al': "al' = al\<lparr>al_slots := (al_slots al)[nat i := x # al_slots al ! nat i]\<rparr>"
  shows "al_ok al'" "al_addrs al' = insert a (al_addrs al)" "al_pairs al' = insert (a, x) (al_pairs al)"
    "DeleteSlot al' a x = Inr al"
proof -
  have i: "0 \<le> i" "nat i < length (al_slots al)"
    using al_ok_index [OF ok a] by auto
  show "al_ok al'"
    using al_ok_index [OF ok] al_ok_inj [OF ok] al_ok_nonempty [OF ok] unfolding al'
    by (intro al_okI) (auto dest!: set_update_subset_insert [THEN subsetD])
  show "al_addrs al' = insert a (al_addrs al)"
    using a by (auto simp: al_addrs_def al')
  have slot: "(al_slots al)[nat i := x # al_slots al ! nat i] ! nat j =
      (if b = a then x # al_slots al ! nat i else al_slots al ! nat j)"
    if "map_of (al_addresses al) b = Some j" "j \<noteq> -1" for b j
  proof (cases "b = a")
    case False
    then have "nat i \<noteq> nat j"
      using al_ok_inj [OF ok a(1) _ a(2), of b] al_ok_index [OF ok that] i(1) that(1) eq_nat_nat_iff [of i j] by auto
    then show ?thesis
      using False by simp
  qed (use that a i in simp)
  show "al_pairs al' = insert (a, x) (al_pairs al)"
    using a by (auto simp: al_pairs_def al' slot split: if_splits)
  have "al_slots al ! nat i \<noteq> []"
    using al_ok_nonempty [OF ok] i by (metis nth_mem)
  then show "DeleteSlot al' a x = Inr al"
    using a i x by (simp add: DeleteSlot_def al')
qed

definition adds_access :: "'e SKeeper \<Rightarrow> 'e StateDB \<Rightarrow> 'e StateDB \<Rightarrow> addr set \<Rightarrow> (addr \<times> hash) set \<Rightarrow> bool" where
  "adds_access K s s' as xs \<longleftrightarrow>
     (\<exists>al. effect K s s' ((mid K s)\<lparr>as_access := al\<rparr>) \<and> al_ok al \<and>
        al_addrs al = as \<union> al_addrs (sd_accessList s) \<and> al_pairs al = xs \<union> al_pairs (sd_accessList s))"

lemma adds_accessI:
  assumes "objs_ok K s" "same_frame s s'" "objs_ok K s'" "j_entries (sd_journal s') = j_entries (sd_journal s) @ es"
    "\<forall>e \<in> set es. entry_ok K (sd_ctx s) e" "mid K s' = (mid K s)\<lparr>as_access := al\<rparr>"
    "undo_all K (sd_ctx s) (rev es) (mid K s') = Some (mid K s)" "al_ok al"
    "al_addrs al = as \<union> al_addrs (sd_accessList s)" "al_pairs al = xs \<union> al_pairs (sd_accessList s)"
  shows "adds_access K s s' as xs"
  using assms unfolding adds_access_def effect_def changes_def by blast

lemma mid_access_same: "(mid K s)\<lparr>as_access := sd_accessList s\<rparr> = mid K s"
  by (simp add: mid_def)

lemma adds_access_nothing:
  "objs_ok K s \<Longrightarrow> al_ok (sd_accessList s) \<Longrightarrow> as \<subseteq> al_addrs (sd_accessList s) \<Longrightarrow> xs \<subseteq> al_pairs (sd_accessList s) \<Longrightarrow>
   adds_access K s s as xs"
  unfolding adds_access_def
  by (intro exI [of _ "sd_accessList s"]) (auto simp: mid_access_same intro: effect_refl)

lemma AddAddressToAccessList_adds:
  assumes ok: "objs_ok K s" and al: "al_ok (sd_accessList s)"
  shows "adds_access K s (sdb_AddAddressToAccessList s a) {a} {}"
proof (cases "map_of (al_addresses (sd_accessList s)) a")
  case None
  note new = AddAddress_sets [OF al None refl]
  show ?thesis
    using ok new None
    by (intro adds_accessI [where es = "[accessListAddAccountChange a]"
        and al = "(sd_accessList s)\<lparr>al_addresses := AList.update a (-1) (al_addresses (sd_accessList s))\<rparr>"])
      (auto simp: sdb_AddAddressToAccessList_def AddAddress_def entry_ok_def mid_access_same)
next
  case (Some i)
  then show ?thesis
    using adds_access_nothing [OF ok al, of "{a}" "{}"]
    by (auto simp: sdb_AddAddressToAccessList_def AddAddress_def al_addrs_def)
qed

lemma AddSlotToAccessList_adds:
  assumes ok: "objs_ok K s" and al: "al_ok (sd_accessList s)"
  shows "adds_access K s (sdb_AddSlotToAccessList s a x) {a} {(a, x)}"
proof -
  consider (new) "map_of (al_addresses (sd_accessList s)) a = None"
    | (first) "map_of (al_addresses (sd_accessList s)) a = Some (-1)"
    | (more) i where "map_of (al_addresses (sd_accessList s)) a = Some i" "i \<noteq> -1" "x \<notin> set (al_slots (sd_accessList s) ! nat i)"
    | (dup) i where "map_of (al_addresses (sd_accessList s)) a = Some i" "i \<noteq> -1" "x \<in> set (al_slots (sd_accessList s) ! nat i)"
    by (cases "map_of (al_addresses (sd_accessList s)) a") blast+
  then show ?thesis
  proof cases
    case new
    note sets = AddSlot_append [OF al disjI1 [OF new] refl, of x]
    show ?thesis
      using ok new sets
      by (intro adds_accessI [where es = "[accessListAddAccountChange a, accessListAddSlotChange a x]"])
        (auto simp: sdb_AddSlotToAccessList_def AddSlot_def entry_ok_def mid_access_same DeleteAddress_def update_absent_delete)
  next
    case first
    note sets = AddSlot_append [OF al disjI2 [OF first] refl, of x]
    show ?thesis
      using ok first sets
      by (intro adds_accessI [where es = "[accessListAddSlotChange a x]"])
        (auto simp: sdb_AddSlotToAccessList_def AddSlot_def entry_ok_def mid_access_same update_present)
  next
    case more
    note sets = AddSlot_insert [OF al more refl]
    show ?thesis
      using ok more sets
      by (intro adds_accessI [where es = "[accessListAddSlotChange a x]"])
        (auto simp: sdb_AddSlotToAccessList_def AddSlot_def Let_def entry_ok_def mid_access_same)
  next
    case dup
    then have "a \<in> al_addrs (sd_accessList s)" "(a, x) \<in> al_pairs (sd_accessList s)"
      by (auto simp: al_addrs_def al_pairs_def)
    then show ?thesis
      using adds_access_nothing [OF ok al, of "{a}" "{(a, x)}"] dup
      by (simp add: sdb_AddSlotToAccessList_def AddSlot_def Let_def)
  qed
qed

lemma adds_access_ok: "adds_access K s s' as xs \<Longrightarrow> objs_ok K s' \<and> al_ok (sd_accessList s') \<and> sd_ctx s' = sd_ctx s"
  by (auto simp: adds_access_def effect_def changes_def same_frame_def dest!: arg_cong [of _ _ as_access])

lemma adds_access_trans:
  assumes "adds_access K s s' as xs" "adds_access K s' s'' bs ys"
  shows "adds_access K s s'' (bs \<union> as) (ys \<union> xs)"
proof -
  obtain al where al: "effect K s s' ((mid K s)\<lparr>as_access := al\<rparr>)" "al_addrs al = as \<union> al_addrs (sd_accessList s)"
    "al_pairs al = xs \<union> al_pairs (sd_accessList s)"
    using assms(1) unfolding adds_access_def by blast
  obtain al' where al': "effect K s' s'' ((mid K s')\<lparr>as_access := al'\<rparr>)" "al_ok al'" "al_addrs al' = bs \<union> al_addrs (sd_accessList s')"
    "al_pairs al' = ys \<union> al_pairs (sd_accessList s')"
    using assms(2) unfolding adds_access_def by blast
  have m: "mid K s' = (mid K s)\<lparr>as_access := al\<rparr>"
    using al(1) by (simp add: effect_def)
  then have "sd_accessList s' = al"
    by (auto dest: arg_cong [of _ _ as_access])
  then show ?thesis
    using al' al effect_trans [OF al(1) al'(1)] unfolding adds_access_def m by auto
qed

lemma foldl_AddAddress_adds:
  "objs_ok K s \<Longrightarrow> al_ok (sd_accessList s) \<Longrightarrow> adds_access K s (foldl sdb_AddAddressToAccessList s as) (set as) {}"
proof (induction as arbitrary: s)
  case (Cons a as)
  note a = AddAddressToAccessList_adds [OF Cons.prems, of a]
  show ?case
    using adds_access_trans [OF a Cons.IH] adds_access_ok [OF a] by simp
qed (simp add: adds_access_nothing)

lemma foldl_AddSlot_adds:
  "objs_ok K s \<Longrightarrow> al_ok (sd_accessList s) \<Longrightarrow>
   adds_access K s (foldl (\<lambda>s key. sdb_AddSlotToAccessList s a key) (sdb_AddAddressToAccessList s a) xs) {a} ({a} \<times> set xs)"
proof (induction xs rule: rev_induct)
  case (snoc x xs)
  note a = snoc.IH [OF snoc.prems]
  show ?case
    using adds_access_trans [OF a AddSlotToAccessList_adds [where a = a and x = x]] adds_access_ok [OF a] by simp
qed (simp add: AddAddressToAccessList_adds)

lemma foldl_tuples_adds:
  "objs_ok K s \<Longrightarrow> al_ok (sd_accessList s) \<Longrightarrow> adds_access K s
    (foldl (\<lambda>s (a, keys). foldl (\<lambda>s key. sdb_AddSlotToAccessList s a key) (sdb_AddAddressToAccessList s a) keys) s list)
    (fst ` set list) {(a, x). \<exists>xs. (a, xs) \<in> set list \<and> x \<in> set xs}"
proof (induction list arbitrary: s)
  case (Cons p list)
  obtain a xs where p: "p = (a, xs)"
    by fastforce
  note a = foldl_AddSlot_adds [OF Cons.prems, of a xs]
  have sets: "fst ` set list \<union> {a} = fst ` set (p # list)"
    "{(a, x). \<exists>xs. (a, xs) \<in> set list \<and> x \<in> set xs} \<union> {a} \<times> set xs = {(a, x). \<exists>xs. (a, xs) \<in> set (p # list) \<and> x \<in> set xs}"
    by (auto simp: p)
  show ?case
    using adds_access_trans [OF a Cons.IH] adds_access_ok [OF a] unfolding sets by (simp add: p)
qed (simp add: adds_access_nothing)

lemma PrepareAccessList_adds:
  assumes "objs_ok K s" "al_ok (sd_accessList s)"
  shows "adds_access K s (sdb_PrepareAccessList s sender dst precompiles list)
    ({sender} \<union> set_option dst \<union> set precompiles \<union> fst ` set list) {(a, x). \<exists>xs. (a, xs) \<in> set list \<and> x \<in> set xs}"
proof -
  let ?s1 = "sdb_AddAddressToAccessList s sender"
  let ?s2 = "case dst of None \<Rightarrow> ?s1 | Some a \<Rightarrow> sdb_AddAddressToAccessList ?s1 a"
  let ?s3 = "foldl sdb_AddAddressToAccessList ?s2 precompiles"
  note a1 = AddAddressToAccessList_adds [OF assms, of sender]
  have a2: "adds_access K s ?s2 (set_option dst \<union> {sender}) {}"
    using adds_access_trans [OF a1 AddAddressToAccessList_adds] adds_access_ok [OF a1] a1 by (cases dst) simp_all
  have "adds_access K ?s2 ?s3 (set precompiles) {}"
    using adds_access_ok [OF a2] by (intro foldl_AddAddress_adds) simp_all
  note a3 = adds_access_trans [OF a2 this]
  show ?thesis
    using adds_access_trans [OF a3 foldl_tuples_adds [of K ?s3 list]] adds_access_ok [OF a3]
    by (simp add: sdb_PrepareAccessList_def Let_def ac_simps Un_commute)
qed

section \<open>Readers show the account values\<close>

definition read_account :: "'al astate \<Rightarrow> addr \<Rightarrow> 'r \<Rightarrow> (acct_view \<Rightarrow> 'r) \<Rightarrow> 'r" where
  "read_account m a d f = (case as_accounts m a of None \<Rightarrow> d | Some v \<Rightarrow> f v)"

definition reads :: "'e SKeeper \<Rightarrow> 'e StateDB \<Rightarrow> 'e StateDB \<times> 'r \<Rightarrow> 'r \<Rightarrow> bool" where
  "reads K s res r \<longleftrightarrow> loads K s (fst res) \<and> snd res = r"

lemma reads_object:
  assumes ok: "objs_ok K s"
    and none: "\<And>s'. loads K s s' \<Longrightarrow> f (s', None) = (s', d)"
    and some: "\<And>s' obj. \<lbrakk>loads K s s'; objs_ok K s'; sd_ctx s' = sd_ctx s; so_address obj = a; obj_ok K (sd_ctx s) obj;
        view K s' a = Some (obj_view K (sd_ctx s) obj)\<rbrakk> \<Longrightarrow> reads K s' (f (s', Some obj)) (g (obj_view K (sd_ctx s) obj))"
  shows "reads K s (f (getStateObject K s a)) (read_account (mid K s) a d g)"
  using ok
proof (cases rule: getStateObject_cases [where a = a])
  case (none s')
  then show ?thesis
    using assms(2) by (simp add: reads_def read_account_def)
next
  case (some s' obj)
  note l = loads_frame [OF some(2)]
  have "reads K s' (f (s', Some obj)) (g (obj_view K (sd_ctx s) obj))"
    using some l by (intro assms(3)) simp_all
  with some show ?thesis
    by (auto simp: reads_def read_account_def loads_def)
qed

lemma loads_refl: "objs_ok K s \<Longrightarrow> loads K s s"
  by (simp add: loads_def)

definition av_empty :: "'e SKeeper \<Rightarrow> acct_view \<Rightarrow> bool" where
  "av_empty K v \<longleftrightarrow> av_nonce v = 0 \<and> av_balance v = 0 \<and> av_codehash v = emptyCodeHash K"

lemma readers:
  assumes ok: "objs_ok K s"
  shows "reads K s (sdb_Exist K s a) (read_account (mid K s) a False (\<lambda>v. True))"
    and "reads K s (sdb_Empty K s a) (read_account (mid K s) a True (av_empty K))"
    and "reads K s (sdb_GetBalance K s a) (read_account (mid K s) a 0 av_balance)"
    and "reads K s (sdb_GetNonce K s a) (read_account (mid K s) a 0 av_nonce)"
    and "reads K s (sdb_GetCodeHash K s a) (read_account (mid K s) a 0 av_codehash)"
    and "reads K s (sdb_HasSuicided K s a) (read_account (mid K s) a False av_suicided)"
  unfolding sdb_Exist_def sdb_Empty_def sdb_GetBalance_def sdb_GetNonce_def sdb_GetCodeHash_def sdb_HasSuicided_def
  by (rule reads_object [OF ok]; simp add: reads_def loads_refl so_empty_def av_empty_def)+

lemma caching_readers:
  assumes ok: "objs_ok K s"
  shows "reads K s (sdb_GetCode K s a) (read_account (mid K s) a None av_code)"
    and "reads K s (sdb_GetState K s a k) (read_account (mid K s) a 0 (\<lambda>v. av_storage v k))"
    and "reads K s (sdb_GetCommittedState K s a k) (read_account (mid K s) a 0 (\<lambda>v. k_GetState K (sd_ctx s) a k))"
proof -
  note views = so_Code_view [OF prod.collapse [symmetric]] so_GetState_view [OF prod.collapse [symmetric]]
    so_GetCommittedState_view [OF prod.collapse [symmetric]]
  show "reads K s (sdb_GetCode K s a) (read_account (mid K s) a None av_code)"
    "reads K s (sdb_GetState K s a k) (read_account (mid K s) a 0 (\<lambda>v. av_storage v k))"
    "reads K s (sdb_GetCommittedState K s a k) (read_account (mid K s) a 0 (\<lambda>v. k_GetState K (sd_ctx s) a k))"
    unfolding sdb_GetCode_def sdb_GetState_def sdb_GetCommittedState_def
    by (rule reads_object [OF ok]; simp add: reads_def case_prod_unfold views loads_setStateObject)+
qed

lemma reads_GetCodeSize:
  assumes ok: "objs_ok K s"
  shows "reads K s (sdb_GetCodeSize K s a)
    (case read_account (mid K s) a None av_code of None \<Rightarrow> 0 | Some c \<Rightarrow> length c)"
  using caching_readers(1) [OF ok, of a] by (auto simp: reads_def sdb_GetCodeSize_def case_prod_unfold)

end
