(* ===== verification/State_DB_Simulation.thy ===== *)
theory State_DB_Simulation
  imports State_DB_Refinement
begin

text \<open>
  The calls of the StateDB interface as data, their specification, and the simulation between the two.  A state of the
  specification is the present account values and the copies that the open snapshots took; a snapshot appends a copy and
  \<open>RevertToSnapshot\<close> takes one back.  The relation \<open>sim\<close> says that the cache shows the present values and that undoing the
  journal down to the index of an open revision leads to its copy.
\<close>

section \<open>The calls and their specification\<close>

datatype sdb_op =
    OpExist addr | OpEmpty addr | OpGetBalance addr | OpGetNonce addr | OpGetCode addr | OpGetCodeSize addr | OpGetCodeHash addr
  | OpGetState addr hash | OpGetCommittedState addr hash | OpHasSuicided addr | OpGetRefund | OpLogs
  | OpAddressInAccessList addr | OpSlotInAccessList addr hash
  | OpAddLog EvmLog | OpAddRefund u64 | OpSubRefund u64 | OpCreateAccount addr | OpAddBalance addr int | OpSubBalance addr int
  | OpSetNonce addr u64 | OpSetCode addr "bytes option" | OpSetState addr hash hash | OpSuicide addr
  | OpPrepareAccessList addr "addr option" "addr list" "(addr \<times> hash list) list"
  | OpAddAddressToAccessList addr | OpAddSlotToAccessList addr hash
  | OpSnapshot | OpRevertToSnapshot nat

datatype sdb_out =
    OUnit | OBool bool | OInt int | OUint64 u64 | OBytes "bytes option" | OSize nat | OHash hash | OBools bool bool
  | OLogs "EvmLog list" | ORevision nat

primrec sdb_exec :: "'e SKeeper \<Rightarrow> 'e StateDB \<Rightarrow> sdb_op \<Rightarrow> (string, 'e StateDB \<times> sdb_out) result" where
  "sdb_exec K s (OpExist a) = Inr (apsnd OBool (sdb_Exist K s a))"
| "sdb_exec K s (OpEmpty a) = Inr (apsnd OBool (sdb_Empty K s a))"
| "sdb_exec K s (OpGetBalance a) = Inr (apsnd OInt (sdb_GetBalance K s a))"
| "sdb_exec K s (OpGetNonce a) = Inr (apsnd OUint64 (sdb_GetNonce K s a))"
| "sdb_exec K s (OpGetCode a) = Inr (apsnd OBytes (sdb_GetCode K s a))"
| "sdb_exec K s (OpGetCodeSize a) = Inr (apsnd OSize (sdb_GetCodeSize K s a))"
| "sdb_exec K s (OpGetCodeHash a) = Inr (apsnd OHash (sdb_GetCodeHash K s a))"
| "sdb_exec K s (OpGetState a k) = Inr (apsnd OHash (sdb_GetState K s a k))"
| "sdb_exec K s (OpGetCommittedState a k) = Inr (apsnd OHash (sdb_GetCommittedState K s a k))"
| "sdb_exec K s (OpHasSuicided a) = Inr (apsnd OBool (sdb_HasSuicided K s a))"
| "sdb_exec K s OpGetRefund = Inr (s, OUint64 (sd_refund s))"
| "sdb_exec K s OpLogs = Inr (s, OLogs (sd_logs s))"
| "sdb_exec K s (OpAddressInAccessList a) = Inr (s, OBool (sdb_AddressInAccessList s a))"
| "sdb_exec K s (OpSlotInAccessList a x) = Inr (s, case sdb_SlotInAccessList s a x of (p, q) \<Rightarrow> OBools p q)"
| "sdb_exec K s (OpAddLog log) = Inr (sdb_AddLog s log, OUnit)"
| "sdb_exec K s (OpAddRefund gas) = Inr (sdb_AddRefund s gas, OUnit)"
| "sdb_exec K s (OpSubRefund gas) = (case sdb_SubRefund s gas of Inl e \<Rightarrow> Inl e | Inr s' \<Rightarrow> Inr (s', OUnit))"
| "sdb_exec K s (OpCreateAccount a) = Inr (sdb_CreateAccount K s a, OUnit)"
| "sdb_exec K s (OpAddBalance a n) = Inr (sdb_AddBalance K s a n, OUnit)"
| "sdb_exec K s (OpSubBalance a n) = Inr (sdb_SubBalance K s a n, OUnit)"
| "sdb_exec K s (OpSetNonce a n) = Inr (sdb_SetNonce K s a n, OUnit)"
| "sdb_exec K s (OpSetCode a c) = Inr (sdb_SetCode K s a c, OUnit)"
| "sdb_exec K s (OpSetState a k x) = Inr (sdb_SetState K s a k x, OUnit)"
| "sdb_exec K s (OpSuicide a) = Inr (apsnd OBool (sdb_Suicide K s a))"
| "sdb_exec K s (OpPrepareAccessList sender dst precompiles list) =
     Inr (sdb_PrepareAccessList s sender dst precompiles list, OUnit)"
| "sdb_exec K s (OpAddAddressToAccessList a) = Inr (sdb_AddAddressToAccessList s a, OUnit)"
| "sdb_exec K s (OpAddSlotToAccessList a x) = Inr (sdb_AddSlotToAccessList s a x, OUnit)"
| "sdb_exec K s OpSnapshot = Inr (apsnd ORevision (sdb_Snapshot s))"
| "sdb_exec K s (OpRevertToSnapshot revid) = (case sdb_RevertToSnapshot K s revid of Inl e \<Rightarrow> Inl e | Inr s' \<Rightarrow> Inr (s', OUnit))"

text \<open>The state of the specification: the present state, the copies that snapshots took, and the next id.\<close>

type_synonym sstate = "(addr set \<times> (addr \<times> hash) set) astate"

record spec =
  sp_now :: sstate
  sp_saved :: "(nat \<times> sstate) list"
  sp_next :: nat

definition spec_init :: "'e SKeeper \<Rightarrow> 'e \<Rightarrow> spec" where
  "spec_init K ctx =
     \<lparr>sp_now = \<lparr>as_accounts = keeper_view K ctx, as_refund = 0, as_logs = [], as_access = ({}, {})\<rparr>, sp_saved = [], sp_next = 0\<rparr>"

text \<open>A call that changes one account, created empty where there is none.\<close>

definition spec_put :: "'e SKeeper \<Rightarrow> 'e \<Rightarrow> spec \<Rightarrow> addr \<Rightarrow> (acct_view \<Rightarrow> acct_view) \<Rightarrow> (string, spec \<times> sdb_out) result" where
  "spec_put K ctx w a f = Inr (w\<lparr>sp_now := set_account a (f (acct_or_fresh K ctx (sp_now w) a)) (sp_now w)\<rparr>, OUnit)"

definition spec_access :: "spec \<Rightarrow> addr set \<Rightarrow> (addr \<times> hash) set \<Rightarrow> (string, spec \<times> sdb_out) result" where
  "spec_access w as xs = Inr (w\<lparr>sp_now := (sp_now w)\<lparr>as_access := (as \<union> fst (as_access (sp_now w)), xs \<union> snd (as_access (sp_now w)))\<rparr>\<rparr>, OUnit)"

definition stamp_log :: "TxConfig \<Rightarrow> nat \<Rightarrow> EvmLog \<Rightarrow> EvmLog" where
  "stamp_log tc n log = log\<lparr>lg_TxHash := tc_TxHash tc, lg_BlockHash := tc_BlockHash tc, lg_TxIndex := tc_TxIndex tc,
     lg_Index := tc_LogIndex tc + word_of_nat n\<rparr>"

primrec spec_exec :: "'e SKeeper \<Rightarrow> 'e \<Rightarrow> TxConfig \<Rightarrow> spec \<Rightarrow> sdb_op \<Rightarrow> (string, spec \<times> sdb_out) result" where
  "spec_exec K ctx tc w (OpExist a) = Inr (w, OBool (read_account (sp_now w) a False (\<lambda>v. True)))"
| "spec_exec K ctx tc w (OpEmpty a) = Inr (w, OBool (read_account (sp_now w) a True (av_empty K)))"
| "spec_exec K ctx tc w (OpGetBalance a) = Inr (w, OInt (read_account (sp_now w) a 0 av_balance))"
| "spec_exec K ctx tc w (OpGetNonce a) = Inr (w, OUint64 (read_account (sp_now w) a 0 av_nonce))"
| "spec_exec K ctx tc w (OpGetCode a) = Inr (w, OBytes (read_account (sp_now w) a None av_code))"
| "spec_exec K ctx tc w (OpGetCodeSize a) =
     Inr (w, OSize (case read_account (sp_now w) a None av_code of None \<Rightarrow> 0 | Some c \<Rightarrow> length c))"
| "spec_exec K ctx tc w (OpGetCodeHash a) = Inr (w, OHash (read_account (sp_now w) a 0 av_codehash))"
| "spec_exec K ctx tc w (OpGetState a k) = Inr (w, OHash (read_account (sp_now w) a 0 (\<lambda>v. av_storage v k)))"
| "spec_exec K ctx tc w (OpGetCommittedState a k) = Inr (w, OHash (read_account (sp_now w) a 0 (\<lambda>v. k_GetState K ctx a k)))"
| "spec_exec K ctx tc w (OpHasSuicided a) = Inr (w, OBool (read_account (sp_now w) a False av_suicided))"
| "spec_exec K ctx tc w OpGetRefund = Inr (w, OUint64 (as_refund (sp_now w)))"
| "spec_exec K ctx tc w OpLogs = Inr (w, OLogs (as_logs (sp_now w)))"
| "spec_exec K ctx tc w (OpAddressInAccessList a) = Inr (w, OBool (a \<in> fst (as_access (sp_now w))))"
| "spec_exec K ctx tc w (OpSlotInAccessList a x) =
     Inr (w, OBools (a \<in> fst (as_access (sp_now w))) ((a, x) \<in> snd (as_access (sp_now w))))"
| "spec_exec K ctx tc w (OpAddLog log) =
     Inr (w\<lparr>sp_now := (sp_now w)\<lparr>as_logs := as_logs (sp_now w) @ [stamp_log tc (length (as_logs (sp_now w))) log]\<rparr>\<rparr>, OUnit)"
| "spec_exec K ctx tc w (OpAddRefund gas) = Inr (w\<lparr>sp_now := (sp_now w)\<lparr>as_refund := as_refund (sp_now w) + gas\<rparr>\<rparr>, OUnit)"
| "spec_exec K ctx tc w (OpSubRefund gas) =
     (if as_refund (sp_now w) < gas then Inl ''Refund counter below zero''
      else Inr (w\<lparr>sp_now := (sp_now w)\<lparr>as_refund := as_refund (sp_now w) - gas\<rparr>\<rparr>, OUnit))"
| "spec_exec K ctx tc w (OpCreateAccount a) =
     spec_put K ctx w a (\<lambda>_. (fresh_view K ctx a)\<lparr>av_balance := read_account (sp_now w) a 0 av_balance\<rparr>)"
| "spec_exec K ctx tc w (OpAddBalance a n) = spec_put K ctx w a (\<lambda>v. v\<lparr>av_balance := av_balance v + n\<rparr>)"
| "spec_exec K ctx tc w (OpSubBalance a n) = spec_put K ctx w a (\<lambda>v. v\<lparr>av_balance := av_balance v - n\<rparr>)"
| "spec_exec K ctx tc w (OpSetNonce a n) = spec_put K ctx w a (\<lambda>v. v\<lparr>av_nonce := n\<rparr>)"
| "spec_exec K ctx tc w (OpSetCode a c) = spec_put K ctx w a
     (\<lambda>v. v\<lparr>av_codehash := Keccak256 K (case c of None \<Rightarrow> [] | Some c \<Rightarrow> c), av_code := c\<rparr>)"
| "spec_exec K ctx tc w (OpSetState a k x) = spec_put K ctx w a (\<lambda>v. v\<lparr>av_storage := (av_storage v)(k := x)\<rparr>)"
| "spec_exec K ctx tc w (OpSuicide a) =
     (case as_accounts (sp_now w) a of
        None \<Rightarrow> Inr (w, OBool False)
      | Some v \<Rightarrow> Inr (w\<lparr>sp_now := set_account a (v\<lparr>av_suicided := True, av_balance := 0\<rparr>) (sp_now w)\<rparr>, OBool True))"
| "spec_exec K ctx tc w (OpPrepareAccessList sender dst precompiles list) = spec_access w
     ({sender} \<union> set_option dst \<union> set precompiles \<union> fst ` set list) (\<Union>(a, xs) \<in> set list. {a} \<times> set xs)"
| "spec_exec K ctx tc w (OpAddAddressToAccessList a) = spec_access w {a} {}"
| "spec_exec K ctx tc w (OpAddSlotToAccessList a x) = spec_access w {a} {(a, x)}"
| "spec_exec K ctx tc w OpSnapshot =
     Inr (w\<lparr>sp_saved := sp_saved w @ [(sp_next w, sp_now w)], sp_next := sp_next w + 1\<rparr>, ORevision (sp_next w))"
| "spec_exec K ctx tc w (OpRevertToSnapshot revid) =
     (case map_of (sp_saved w) revid of
        None \<Rightarrow> Inl ''revision id cannot be reverted''
      | Some m \<Rightarrow> Inr (w\<lparr>sp_now := m, sp_saved := takeWhile (\<lambda>p. fst p \<noteq> revid) (sp_saved w)\<rparr>, OUnit))"

text \<open>The answers to a sequence of calls; a panic is the last one.\<close>

primrec sdb_trace :: "'e SKeeper \<Rightarrow> 'e StateDB \<Rightarrow> sdb_op list \<Rightarrow> (string, sdb_out) result list" where
  "sdb_trace K s [] = []"
| "sdb_trace K s (c # cs) =
     (case sdb_exec K s c of Inl e \<Rightarrow> [Inl e] | Inr (s', r) \<Rightarrow> Inr r # sdb_trace K s' cs)"

primrec spec_trace :: "'e SKeeper \<Rightarrow> 'e \<Rightarrow> TxConfig \<Rightarrow> spec \<Rightarrow> sdb_op list \<Rightarrow> (string, sdb_out) result list" where
  "spec_trace K ctx tc w [] = []"
| "spec_trace K ctx tc w (c # cs) =
     (case spec_exec K ctx tc w c of Inl e \<Rightarrow> [Inl e] | Inr (w', r) \<Rightarrow> Inr r # spec_trace K ctx tc w' cs)"

declare search_loop.simps [simp del]

section \<open>The simulation\<close>

definition abs_state :: "accessList astate \<Rightarrow> sstate" where
  "abs_state m = \<lparr>as_accounts = as_accounts m, as_refund = as_refund m, as_logs = as_logs m,
     as_access = (al_addrs (as_access m), al_pairs (as_access m))\<rparr>"

text \<open>Undoing the entries since a revision leads to the copy that the specification kept for it.\<close>

definition revision_ok :: "'e SKeeper \<Rightarrow> 'e \<Rightarrow> JournalEntry list \<Rightarrow> accessList astate \<Rightarrow> revision \<Rightarrow> nat \<times> sstate \<Rightarrow> bool" where
  "revision_ok K ctx es m rv saved \<longleftrightarrow>
     rv_id rv = fst saved \<and> rv_journalIndex rv \<le> length es \<and>
     (\<exists>m'. undo_all K ctx (rev (drop (rv_journalIndex rv) es)) m = Some m' \<and> al_ok (as_access m') \<and> abs_state m' = snd saved)"

definition revisions_ordered :: "nat \<Rightarrow> revision list \<Rightarrow> bool" where
  "revisions_ordered n rvs \<longleftrightarrow>
     sorted_wrt (\<lambda>r r'. rv_id r < rv_id r' \<and> rv_journalIndex r \<le> rv_journalIndex r') rvs \<and> (\<forall>r \<in> set rvs. rv_id r < n)"

definition sim :: "'e SKeeper \<Rightarrow> 'e \<Rightarrow> TxConfig \<Rightarrow> 'e StateDB \<Rightarrow> spec \<Rightarrow> bool" where
  "sim K ctx tc s w \<longleftrightarrow>
     sd_ctx s = ctx \<and> sd_txConfig s = tc \<and> objs_ok K s \<and> al_ok (sd_accessList s) \<and>
     (\<forall>e \<in> set (j_entries (sd_journal s)). entry_ok K ctx e) \<and>
     sp_now w = abs_state (mid K s) \<and> sp_next w = sd_nextRevisionID s \<and>
     list_all2 (revision_ok K ctx (j_entries (sd_journal s)) (mid K s)) (sd_validRevisions s) (sp_saved w) \<and>
     revisions_ordered (sd_nextRevisionID s) (sd_validRevisions s)"

lemma abs_state_sel [simp]:
  "as_accounts (abs_state m) = as_accounts m" "as_refund (abs_state m) = as_refund m" "as_logs (abs_state m) = as_logs m"
  "as_access (abs_state m) = (al_addrs (as_access m), al_pairs (as_access m))"
  by (simp_all add: abs_state_def)

lemma abs_state_simps [simp]:
  "abs_state (set_account a v m) = set_account a v (abs_state m)" "abs_state (m\<lparr>as_refund := r\<rparr>) = (abs_state m)\<lparr>as_refund := r\<rparr>"
  "abs_state (m\<lparr>as_logs := l\<rparr>) = (abs_state m)\<lparr>as_logs := l\<rparr>"
  "abs_state (m\<lparr>as_access := al\<rparr>) = (abs_state m)\<lparr>as_access := (al_addrs al, al_pairs al)\<rparr>"
  "read_account (abs_state m) a d f = read_account m a d f" "acct_or_fresh K ctx (abs_state m) a = acct_or_fresh K ctx m a"
  by (simp_all add: abs_state_def set_account_def read_account_def acct_or_fresh_def)

lemma set_account_access [simp]: "as_access (set_account a v m) = as_access m"
  by (simp add: set_account_def)

lemma sim_init: "sim K ctx tc (sdb_New ctx tc) (spec_init K ctx)"
  by (simp add: sim_def sdb_New_def spec_init_def objs_ok_def al_ok_def newAccessList_def newJournal_def revisions_ordered_def
      abs_state_def mid_def view_def al_addrs_def al_pairs_def fun_eq_iff)

lemma sim_effect:
  assumes sim: "sim K ctx tc s w" and eff: "effect K s s' m" and al: "al_ok (as_access m)"
  shows "sim K ctx tc s' (w\<lparr>sp_now := abs_state m\<rparr>)"
proof -
  obtain es where es: "changes K s s' es" and m: "mid K s' = m"
    using eff by (auto simp: effect_def)
  have "revision_ok K ctx (j_entries (sd_journal s')) m rv sv" if "revision_ok K ctx (j_entries (sd_journal s)) (mid K s) rv sv" for rv sv
    using that es sim m by (auto simp: revision_ok_def changes_def undo_all_append sim_def)
  then have "list_all2 (revision_ok K ctx (j_entries (sd_journal s')) m) (sd_validRevisions s) (sp_saved w)"
    using sim list_all2_mono unfolding sim_def by blast
  moreover have "al_ok (sd_accessList s')"
    using al m by auto
  ultimately show ?thesis
    using sim es m by (auto simp: sim_def changes_def same_frame_def)
qed

lemma sim_loads: "sim K ctx tc s w \<Longrightarrow> loads K s s' \<Longrightarrow> sim K ctx tc s' w"
  using sim_effect [of K ctx tc s w s' "mid K s"] effect_loads [of K s s'] by (simp add: sim_def)

lemma sim_Snapshot:
  assumes "sim K ctx tc s w"
  shows "sim K ctx tc (fst (sdb_Snapshot s)) (w\<lparr>sp_saved := sp_saved w @ [(sp_next w, sp_now w)], sp_next := sp_next w + 1\<rparr>)"
proof -
  have m: "mid K (s\<lparr>sd_nextRevisionID := n, sd_validRevisions := rvs\<rparr>) = mid K s" for n rvs
    by (simp add: mid_def view_def fun_eq_iff split: option.split)
  have "\<forall>rv \<in> set (sd_validRevisions s). rv_journalIndex rv \<le> length (j_entries (sd_journal s))"
    using assms by (auto simp: sim_def revision_ok_def list_all2_conv_all_nth in_set_conv_nth)
  then show ?thesis
    using assms by (auto simp: sim_def sdb_Snapshot_def Let_def m objs_ok_def revisions_ordered_def sorted_wrt_append revision_ok_def
        intro!: list_all2_appendI)
qed

section \<open>Reverting to a snapshot\<close>

text \<open>The binary search finds the threshold of a predicate that holds from some index on.\<close>

lemma search_loop_threshold:
  "\<forall>k < j. f k \<longleftrightarrow> t \<le> k \<Longrightarrow> i \<le> t \<Longrightarrow> t \<le> j \<Longrightarrow> search_loop f i j = t"
proof (induction f i j rule: search_loop.induct)
  case (1 f i j)
  show ?case
  proof (cases "i < j")
    case True
    let ?h = "(i + j) div 2"
    have h: "i \<le> ?h" "?h < j"
      using True by auto
    then have f: "f ?h \<longleftrightarrow> t \<le> ?h"
      using 1(3) by blast
    have "search_loop f i j = (if \<not> f ?h then search_loop f (?h + 1) j else search_loop f i ?h)"
      using True by (subst search_loop.simps) (simp add: Let_def)
    also have "\<dots> = t"
      using 1(1,2) [OF True refl] 1(3-5) f h by (auto simp: not_le Suc_le_eq)
    finally show ?thesis .
  next
    case False
    then have "search_loop f i j = i"
      by (subst search_loop.simps) simp
    then show ?thesis
      using False 1(4,5) by linarith
  qed
qed

lemma search_revision:
  assumes ord: "revisions_ordered n rvs"
  shows "sort_Search (length rvs) (\<lambda>i. revid \<le> rv_id (rvs ! i)) = length (takeWhile (\<lambda>rv. rv_id rv < revid) rvs)"
    (is "_ = ?t")
proof -
  have "revid \<le> rv_id (rvs ! k) \<longleftrightarrow> ?t \<le> k" if "k < length rvs" for k
  proof (cases "k < ?t")
    case True
    then have "rv_id (rvs ! k) < revid"
      using nth_length_takeWhile set_takeWhileD [OF nth_mem [OF True]] takeWhile_nth [OF True] by metis
    then show ?thesis
      using True by simp
  next
    case False
    then have "revid \<le> rv_id (rvs ! ?t)"
      using nth_length_takeWhile [of "\<lambda>rv. rv_id rv < revid" rvs] that by simp
    moreover have "rv_id (rvs ! ?t) \<le> rv_id (rvs ! k)"
      using ord that False by (cases "?t = k") (auto simp: revisions_ordered_def sorted_wrt_iff_nth_less order.strict_implies_order)
    ultimately show ?thesis
      using False by simp
  qed
  then show ?thesis
    unfolding sort_Search_def by (intro search_loop_threshold) (simp_all add: length_takeWhile_le)
qed

lemma journal_Revert_undo:
  assumes "objs_ok K s" "\<forall>e \<in> set (j_entries (sd_journal s)). entry_ok K (sd_ctx s) e"
    "undo_all K (sd_ctx s) (rev (drop n (j_entries (sd_journal s)))) (mid K s) = Some m"
  shows "\<exists>s'. journal_Revert K s n = Inr s' \<and> mid K s' = m \<and> objs_ok K s' \<and> same_frame s s' \<and>
    j_entries (sd_journal s') = take n (j_entries (sd_journal s))"
proof -
  have "\<forall>e \<in> set (rev (drop n (j_entries (sd_journal s)))). entry_ok K (sd_ctx s) e"
    using assms(2) by (auto dest: in_set_dropD)
  from revert_loop_undo [OF assms(1) this assms(3)]
  obtain s' where s': "revert_loop K s (rev (drop n (j_entries (sd_journal s)))) = Inr s'" "mid K s' = m" "objs_ok K s'"
    "same_frame s s'" "j_entries (sd_journal s') = j_entries (sd_journal s)"
    by blast
  moreover have "mid K (s'\<lparr>sd_journal := j\<rparr>) = mid K s'" "objs_ok K (s'\<lparr>sd_journal := j\<rparr>) = objs_ok K s'" for j
    by (simp_all add: mid_def view_def fun_eq_iff objs_ok_def split: option.split)
  ultimately show ?thesis
    by (simp add: journal_Revert_def)
qed

lemma ascending_lookup:
  fixes x :: "'k :: linorder"
  shows "sorted_wrt (<) (map fst ps) \<Longrightarrow> i = length (takeWhile (\<lambda>p. fst p < x) ps) \<Longrightarrow>
   (if i < length ps \<and> fst (ps ! i) = x
    then map_of ps x = Some (snd (ps ! i)) \<and> takeWhile (\<lambda>p. fst p \<noteq> x) ps = take i ps
    else map_of ps x = None)"
proof (induction ps arbitrary: i)
  case (Cons p ps)
  show ?case
  proof (cases "fst p < x")
    case True
    then show ?thesis
      using Cons.IH [OF _ refl] Cons.prems by (auto split: if_splits)
  next
    case False
    moreover have "map_of ps x = None" if "x < fst p"
      using Cons.prems(1) that by (auto simp: map_of_eq_None_iff)
    ultimately show ?thesis
      using Cons.prems(2) by (cases p) (auto simp: not_less less_le)
  qed
qed simp

lemma sim_saved_ids:
  assumes "sim K ctx tc s w"
  shows "map fst (sp_saved w) = map rv_id (sd_validRevisions s)" "sorted_wrt (<) (map fst (sp_saved w))"
proof -
  show ids: "map fst (sp_saved w) = map rv_id (sd_validRevisions s)"
    using assms by (auto simp: sim_def revision_ok_def list_all2_conv_all_nth intro!: nth_equalityI)
  have "sorted_wrt (\<lambda>r r'. rv_id r < rv_id r') (sd_validRevisions s)"
    using assms sorted_wrt_mono_rel [of "sd_validRevisions s" "\<lambda>r r'. rv_id r < rv_id r' \<and> rv_journalIndex r \<le> rv_journalIndex r'"]
    by (simp add: sim_def revisions_ordered_def)
  then show "sorted_wrt (<) (map fst (sp_saved w))"
    by (simp add: ids sorted_wrt_map)
qed

text \<open>A revision taken before another one stays valid when the later one is reverted to.\<close>

lemma revision_ok_take:
  assumes "revision_ok K ctx es m rv sv" "undo_all K ctx (rev (drop n es)) m = Some m'" "rv_journalIndex rv \<le> n" "n \<le> length es"
  shows "revision_ok K ctx (take n es) m' rv sv"
proof -
  have "drop (rv_journalIndex rv) es = drop (rv_journalIndex rv) (take n es) @ drop n es"
    using assms(3,4) by (metis append_take_drop_id drop_append diff_is_0_eq drop0 length_take min.absorb2)
  then show ?thesis
    using assms by (auto simp: revision_ok_def undo_all_append)
qed

lemma sim_Revert:
  assumes sim: "sim K ctx tc s w" and i: "i < length (sd_validRevisions s)" and n: "n = rv_journalIndex (sd_validRevisions s ! i)"
  shows "\<exists>s'. journal_Revert K s n = Inr s' \<and> sd_validRevisions s' = sd_validRevisions s \<and>
    sim K ctx tc (s'\<lparr>sd_validRevisions := take i (sd_validRevisions s)\<rparr>)
      (w\<lparr>sp_now := snd (sp_saved w ! i), sp_saved := take i (sp_saved w)\<rparr>)"
proof -
  let ?rvs = "sd_validRevisions s" and ?es = "j_entries (sd_journal s)"
  note sim' = sim [unfolded sim_def]
  have len: "length (sp_saved w) = length ?rvs" and revs: "revision_ok K ctx ?es (mid K s) (?rvs ! k) (sp_saved w ! k)"
    if "k < length ?rvs" for k
    using sim' that by (auto simp: list_all2_conv_all_nth)
  from revs [OF i] n obtain m where m: "undo_all K ctx (rev (drop n ?es)) (mid K s) = Some m" "al_ok (as_access m)"
    "abs_state m = snd (sp_saved w ! i)" "n \<le> length ?es"
    by (auto simp: revision_ok_def)
  obtain s' where s': "journal_Revert K s n = Inr s'" "mid K s' = m" "objs_ok K s'" "same_frame s s'"
    "j_entries (sd_journal s') = take n ?es"
    using journal_Revert_undo [of K s n m] sim' m(1) by auto
  have earlier: "rv_journalIndex (?rvs ! k) \<le> n" if "k < i" for k
    using sim' that i by (auto simp: revisions_ordered_def sorted_wrt_iff_nth_less n)
  have "list_all2 (revision_ok K ctx (take n ?es) m) (take i ?rvs) (take i (sp_saved w))"
    using i len [OF i] revs m(1,4) earlier by (auto simp: list_all2_conv_all_nth intro!: revision_ok_take)
  moreover have "revisions_ordered (sd_nextRevisionID s) (take i ?rvs)"
    using sim' by (auto simp: revisions_ordered_def sorted_wrt_take dest: in_set_takeD)
  moreover have "mid K (s'\<lparr>sd_validRevisions := rvs\<rparr>) = mid K s'" "objs_ok K (s'\<lparr>sd_validRevisions := rvs\<rparr>) = objs_ok K s'" for rvs
    by (simp_all add: mid_def view_def fun_eq_iff objs_ok_def split: option.split)
  moreover have "al_ok (sd_accessList s')"
    using m(2) s'(2) by auto
  ultimately show ?thesis
    using s' sim' m(3) by (auto simp: sim_def same_frame_def dest: in_set_takeD)
qed

text \<open>One call: both sides panic with the same message, or give the same answer and stay related.\<close>

definition step_sim :: "'e SKeeper \<Rightarrow> 'e \<Rightarrow> TxConfig \<Rightarrow> (string, 'e StateDB \<times> sdb_out) result \<Rightarrow> (string, spec \<times> sdb_out) result \<Rightarrow> bool" where
  "step_sim K ctx tc res res' =
     (case (res, res') of
        (Inl e, Inl e') \<Rightarrow> e = e'
      | (Inr (s, r), Inr (w, r')) \<Rightarrow> r = r' \<and> sim K ctx tc s w
      | _ \<Rightarrow> False)"

lemma step_sim_Inr [simp]: "step_sim K ctx tc (Inr (s, r)) (Inr (w, r')) \<longleftrightarrow> r = r' \<and> sim K ctx tc s w"
  by (simp add: step_sim_def)

lemma step_RevertToSnapshot:
  assumes sim: "sim K ctx tc s w"
  shows "step_sim K ctx tc (sdb_exec K s (OpRevertToSnapshot revid)) (spec_exec K ctx tc w (OpRevertToSnapshot revid))"
proof -
  let ?rvs = "sd_validRevisions s" and ?i = "length (takeWhile (\<lambda>p. fst p < revid) (sp_saved w))"
  note ids = sim_saved_ids [OF sim]
  have len: "length (sp_saved w) = length ?rvs" and fst: "\<And>k. k < length ?rvs \<Longrightarrow> fst (sp_saved w ! k) = rv_id (?rvs ! k)"
    using arg_cong [OF ids(1), of length] arg_cong [OF ids(1), of "\<lambda>l. l ! _"] by (simp, metis length_map nth_map)
  have "length (takeWhile (\<lambda>rv. rv_id rv < revid) ?rvs) = length (takeWhile (\<lambda>x. x < revid) (map rv_id ?rvs))"
    by (simp add: takeWhile_map comp_def)
  also have "\<dots> = ?i"
    by (simp add: ids(1) [symmetric] takeWhile_map comp_def)
  finally have idx: "sort_Search (length ?rvs) (\<lambda>i. revid \<le> rv_id (?rvs ! i)) = ?i"
    using search_revision [of "sd_nextRevisionID s" ?rvs revid] sim by (simp add: sim_def)
  note look = ascending_lookup [OF ids(2) refl, of revid]
  show ?thesis
  proof (cases "?i < length ?rvs \<and> rv_id (?rvs ! ?i) = revid")
    case True
    then show ?thesis
      using look len fst [of ?i] sim_Revert [OF sim _ refl, of ?i] by (auto simp: sdb_RevertToSnapshot_def idx Let_def)
  next
    case False
    have "?i \<le> length ?rvs"
      unfolding len [symmetric] by (rule length_takeWhile_le)
    then show ?thesis
      using False look len fst [of ?i] by (auto simp: sdb_RevertToSnapshot_def idx Let_def step_sim_def split: if_splits)
  qed
qed

lemma step_reads:
  assumes "sim K ctx tc s w" "reads K s res r"
  shows "step_sim K ctx tc (Inr (apsnd f res)) (Inr (w, f r))"
  using assms sim_loads [of K ctx tc s w "fst res"] by (cases res) (simp add: reads_def)

lemma step_put:
  assumes "sim K ctx tc s w"
    and "effect K s s' (set_account a (f (acct_or_fresh K ctx (mid K s) a)) (mid K s))"
  shows "step_sim K ctx tc (Inr (s', OUnit)) (spec_put K ctx w a f)"
  using sim_effect [OF assms] assms(1) by (simp add: spec_put_def sim_def)

lemma step_access:
  assumes sim: "sim K ctx tc s w" and adds: "adds_access K s s' as xs"
  shows "step_sim K ctx tc (Inr (s', OUnit)) (spec_access w as xs)"
proof -
  obtain al where "effect K s s' ((mid K s)\<lparr>as_access := al\<rparr>)" "al_ok al" "al_addrs al = as \<union> al_addrs (sd_accessList s)"
    "al_pairs al = xs \<union> al_pairs (sd_accessList s)"
    using adds by (auto simp: adds_access_def)
  moreover have "sp_now w = abs_state (mid K s)"
    using sim by (simp add: sim_def)
  ultimately show ?thesis
    using sim_effect [OF sim, of s' "(mid K s)\<lparr>as_access := al\<rparr>"] by (simp add: spec_access_def)
qed

lemma sim_same:
  assumes "sim K ctx tc s w" "effect K s s' m" "as_access m = sd_accessList s"
  shows "sim K ctx tc s' (w\<lparr>sp_now := abs_state m\<rparr>)"
  using sim_effect [OF assms(1,2)] assms by (simp add: sim_def)

lemma step_SubRefund:
  assumes sim: "sim K ctx tc s w"
  shows "step_sim K ctx tc (sdb_exec K s (OpSubRefund gas)) (spec_exec K ctx tc w (OpSubRefund gas))"
proof (cases "sd_refund s < gas")
  case True
  then show ?thesis
    using sim by (simp add: step_sim_def sdb_SubRefund_def sim_def)
next
  case False
  then obtain s' where "sdb_SubRefund s gas = Inr s'"
    by (simp add: sdb_SubRefund_def)
  with False show ?thesis
    using sim_same [OF sim simple_effects(3)] sim by (simp add: sim_def)
qed

lemma step_Suicide:
  assumes sim: "sim K ctx tc s w"
  shows "step_sim K ctx tc (sdb_exec K s (OpSuicide a)) (spec_exec K ctx tc w (OpSuicide a))"
proof -
  obtain s' b where r: "sdb_Suicide K s a = (s', b)"
    by fastforce
  have ok: "objs_ok K s" and now: "sp_now w = abs_state (mid K s)"
    using sim by (simp_all add: sim_def)
  note eff = sdb_Suicide_effect [OF ok r]
  show ?thesis
  proof (cases "view K s a")
    case None
    have same: "w\<lparr>sp_now := abs_state (mid K s)\<rparr> = w"
      by (simp add: now [symmetric])
    have "sim K ctx tc s' w"
      using sim_same [OF sim, of s' "mid K s"] eff None unfolding same by simp
    then show ?thesis
      using eff r None by (simp add: now)
  next
    case (Some v)
    with eff r now show ?thesis
      using sim_same [OF sim, of s' "set_account a (v\<lparr>av_suicided := True, av_balance := 0\<rparr>) (mid K s)"] by simp
  qed
qed

lemma step_readers:
  assumes sim: "sim K ctx tc s w"
    and c: "c \<in> {OpExist a, OpEmpty a, OpGetBalance a, OpGetNonce a, OpGetCode a, OpGetCodeSize a, OpGetCodeHash a, OpGetState a k,
      OpGetCommittedState a k, OpHasSuicided a}"
  shows "step_sim K ctx tc (sdb_exec K s c) (spec_exec K ctx tc w c)"
proof -
  have ok: "objs_ok K s" and ctx: "sd_ctx s = ctx" and now: "sp_now w = abs_state (mid K s)"
    using sim by (simp_all add: sim_def)
  note reads = readers [OF ok, of a] caching_readers [OF ok, of a] reads_GetCodeSize [OF ok, of a]
  show ?thesis
    using c by (auto simp: now ctx reads [unfolded ctx] intro!: step_reads [OF sim])
qed

lemma step_writers:
  assumes sim: "sim K ctx tc s w"
    and c: "c \<in> {OpAddBalance a n, OpSubBalance a n, OpSetNonce a u, OpSetCode a code, OpSetState a k x, OpCreateAccount a}"
  shows "step_sim K ctx tc (sdb_exec K s c) (spec_exec K ctx tc w c)"
proof -
  have ok: "objs_ok K s" and ctx: "sd_ctx s = ctx" and now: "sp_now w = abs_state (mid K s)"
    using sim by (simp_all add: sim_def)
  have b: "read_account (sp_now w) a 0 av_balance = (case view K s a of None \<Rightarrow> 0 | Some v \<Rightarrow> av_balance v)"
    by (simp add: now read_account_def)
  note writes = sdb_AddBalance_effect [OF ok refl] sdb_SetNonce_effect [OF ok refl] sdb_SetCode_effect [OF ok refl]
    sdb_SetState_effect [OF ok refl] sdb_CreateAccount_effect [OF ok]
  show ?thesis
    using c by (auto simp: b writes [unfolded ctx] intro!: step_put [OF sim])
qed

lemma step_access_calls:
  assumes sim: "sim K ctx tc s w"
    and c: "c \<in> {OpPrepareAccessList sender dst precompiles list, OpAddAddressToAccessList a, OpAddSlotToAccessList a x,
      OpAddressInAccessList a, OpSlotInAccessList a x}"
  shows "step_sim K ctx tc (sdb_exec K s c) (spec_exec K ctx tc w c)"
proof -
  have ok: "objs_ok K s" "al_ok (sd_accessList s)" and now: "sp_now w = abs_state (mid K s)"
    using sim by (simp_all add: sim_def)
  have pairs: "(\<Union>(a, xs) \<in> set list. {a} \<times> set xs) = {(a, x). \<exists>xs. (a, xs) \<in> set list \<and> x \<in> set xs}"
    by auto
  note adds = AddAddressToAccessList_adds [OF ok] AddSlotToAccessList_adds [OF ok] PrepareAccessList_adds [OF ok]
  show ?thesis
    using c sim step_access [OF sim adds(1)] step_access [OF sim adds(2)] step_access [OF sim adds(3)]
    by (auto simp: now pairs sdb_AddressInAccessList_def sdb_SlotInAccessList_def al_Contains_sets)
qed

lemma step_simulation:
  assumes sim: "sim K ctx tc s w"
  shows "step_sim K ctx tc (sdb_exec K s c) (spec_exec K ctx tc w c)"
proof -
  have ok: "objs_ok K s" and ctx: "sd_txConfig s = tc" and now: "sp_now w = abs_state (mid K s)"
    using sim by (simp_all add: sim_def)
  note steps = step_readers [OF sim] step_writers [OF sim] step_access_calls [OF sim] step_SubRefund [OF sim] step_Suicide [OF sim]
    step_RevertToSnapshot [OF sim]
  show ?thesis
  proof (cases c)
    case (OpAddLog log)
    show ?thesis
      using sim_same [OF sim simple_effects(1) [OF ok, of log]] by (simp add: OpAddLog now ctx stamp_log_def)
  next
    case (OpAddRefund gas)
    show ?thesis
      using sim_same [OF sim simple_effects(2) [OF ok, of gas]] by (simp add: OpAddRefund now)
  next
    case OpSnapshot
    have "snd (sdb_Snapshot s) = sp_next w"
      using sim by (simp add: sdb_Snapshot_def Let_def sim_def)
    then show ?thesis
      using sim_Snapshot [OF sim] by (cases "sdb_Snapshot s") (simp add: OpSnapshot)
  next
    case OpGetRefund
    show ?thesis
      using sim by (simp add: OpGetRefund now)
  next
    case OpLogs
    show ?thesis
      using sim by (simp add: OpLogs now)
  qed (blast intro: steps)+
qed

lemma trace_simulation: "sim K ctx tc s w \<Longrightarrow> sdb_trace K s cs = spec_trace K ctx tc w cs"
proof (induction cs arbitrary: s w)
  case (Cons c cs)
  show ?case
    using step_simulation [OF Cons.prems, of c] Cons.IH by (auto simp: step_sim_def split: sum.splits)
qed simp

text \<open>C34. The journaling database of the virtual machine refines snapshots by copying.  For every keeper, every context and
  every sequence of calls to a new StateDB - reads, balance, nonce, code and storage writes, account creation, self destruction,
  logs, refunds, access list, \<open>Snapshot\<close> and \<open>RevertToSnapshot\<close> with any ids, nested in any way - the answers are
  those of the specification that keeps plain account values and copies the whole state at a snapshot.  That covers the
  panics: a refund below zero and an id that is not open are the only ones, and undoing the journal never fails.\<close>

theorem statedb_refines_copying:
  "sdb_trace K (sdb_New ctx tc) cs = spec_trace K ctx tc (spec_init K ctx) cs"
  by (rule trace_simulation [OF sim_init])

end
