(* ===== verification/Vesting_Schedule.thy ===== *)
theory Vesting_Schedule
  imports HP_Prelude
begin

text \<open>
  Vesting schedules (\<open>x/vesting/types/schedule.go\<close>).  A schedule is a start time and a list of periods; the coins of a period
  are due at its end.  The file reads a schedule at a time, counts the periods that have passed, and combines two schedules:
  their union (\<open>DisjunctPeriods\<close>) and their minimum (\<open>ConjunctPeriods\<close>).

  Times and lengths are \<open>int64\<close>: every sum and difference wraps around.  \<open>sdk.Coins\<close> and the helpers of \<open>sdkvesting.Periods\<close>
  belong to the SDK and are the record \<open>SdkCoins\<close>; \<open>coins_laws\<close> states what their documentation promises for valid coins,
  denomination by denomination.  The reference for all of it is \<open>steps\<close>, the sum of the amounts of the periods that ended by a time.
\<close>

section \<open>Coins and periods\<close>

record 'c Period =
  p_Length :: int
  p_Amount :: 'c

record 'c SdkCoins =
  NewCoins :: 'c
  c_Add :: "'c \<Rightarrow> 'c \<Rightarrow> 'c"
  c_Sub :: "'c \<Rightarrow> 'c \<Rightarrow> 'c option"
  c_SafeSub :: "'c \<Rightarrow> 'c \<Rightarrow> 'c \<times> bool"
  c_Min :: "'c \<Rightarrow> 'c \<Rightarrow> 'c"
  IsAllLTE :: "'c \<Rightarrow> 'c \<Rightarrow> bool"
  c_IsZero :: "'c \<Rightarrow> bool"
  c_IsValid :: "'c \<Rightarrow> bool"
  AmountOf :: "'c \<Rightarrow> string \<Rightarrow> int"
  CoinList :: "'c \<Rightarrow> (string \<times> int) list"
  OfCoin :: "string \<times> int \<Rightarrow> 'c"
  TotalLength :: "'c Period list \<Rightarrow> int"
  TotalAmount :: "'c Period list \<Rightarrow> 'c"

definition Max64 :: "int \<Rightarrow> int \<Rightarrow> int" where
  "Max64 i j = (if i > j then i else j)"

definition Min64 :: "int \<Rightarrow> int \<Rightarrow> int" where
  "Min64 i j = (if i < j then i else j)"

definition CoinEq :: "'c SdkCoins \<Rightarrow> 'c \<Rightarrow> 'c \<Rightarrow> bool" where
  "CoinEq C a b \<longleftrightarrow> IsAllLTE C a b \<and> IsAllLTE C b a"

section \<open>Reading a schedule\<close>

primrec read_loop :: "'c SdkCoins \<Rightarrow> int \<Rightarrow> 'c \<Rightarrow> int \<Rightarrow> 'c Period list \<Rightarrow> 'c" where
  "read_loop C readTime coins elapsedTime [] = coins"
| "read_loop C readTime coins elapsedTime (period # ps) =
     (if readTime < wrap64 (elapsedTime + p_Length period) then coins
      else read_loop C readTime (c_Add C coins (p_Amount period)) (wrap64 (elapsedTime + p_Length period)) ps)"

definition ReadSchedule :: "'c SdkCoins \<Rightarrow> int \<Rightarrow> int \<Rightarrow> 'c Period list \<Rightarrow> 'c \<Rightarrow> int \<Rightarrow> 'c" where
  "ReadSchedule C startTime endTime periods totalCoins readTime =
     (if readTime \<le> startTime then NewCoins C
      else if readTime \<ge> endTime then totalCoins
      else read_loop C readTime (NewCoins C) startTime periods)"

primrec count_loop :: "int \<Rightarrow> nat \<Rightarrow> int \<Rightarrow> 'c Period list \<Rightarrow> nat" where
  "count_loop readTime passedPeriods elapsedTime [] = passedPeriods"
| "count_loop readTime passedPeriods elapsedTime (period # ps) =
     (if readTime < wrap64 (elapsedTime + p_Length period) then passedPeriods
      else count_loop readTime (passedPeriods + 1) (wrap64 (elapsedTime + p_Length period)) ps)"

definition ReadPastPeriodCount :: "int \<Rightarrow> int \<Rightarrow> 'c Period list \<Rightarrow> int \<Rightarrow> nat" where
  "ReadPastPeriodCount startTime endTime periods readTime =
     (if readTime \<le> startTime then 0
      else if readTime \<ge> endTime then length periods
      else count_loop readTime 0 startTime periods)"

section \<open>Combining schedules\<close>

text \<open>The loops of \<open>DisjunctPeriods\<close>: while both schedules have events the next one is merged, then the rest of one of them.
  The result is the end time and the periods appended from here on.\<close>

definition disjunct_emit :: "int \<Rightarrow> int \<Rightarrow> 'c \<Rightarrow> int \<times> 'c Period list \<Rightarrow> int \<times> 'c Period list" where
  "disjunct_emit endTime nextTime amount rest =
     (case rest of (e, periods) \<Rightarrow> (e, \<lparr>p_Length = wrap64 (nextTime - endTime), p_Amount = amount\<rparr> # periods))"

fun disjunct_loop ::
  "'c SdkCoins \<Rightarrow> int \<Rightarrow> int \<Rightarrow> int \<Rightarrow> 'c Period list \<Rightarrow> 'c Period list \<Rightarrow> int \<times> 'c Period list" where
  "disjunct_loop C timeA timeB endTime (a # as) (b # bs) =
     (let nextA = wrap64 (timeA + p_Length a); nextB = wrap64 (timeB + p_Length b) in
      if nextA < nextB then disjunct_emit endTime nextA (p_Amount a) (disjunct_loop C nextA timeB nextA as (b # bs))
      else if nextA > nextB then disjunct_emit endTime nextB (p_Amount b) (disjunct_loop C timeA nextB nextB (a # as) bs)
      else disjunct_emit endTime nextA (c_Add C (p_Amount a) (p_Amount b)) (disjunct_loop C nextA nextA nextA as bs))"
| "disjunct_loop C timeA timeB endTime (a # as) [] =
     (let nextA = wrap64 (timeA + p_Length a) in disjunct_emit endTime nextA (p_Amount a) (disjunct_loop C nextA timeB nextA as []))"
| "disjunct_loop C timeA timeB endTime [] (b # bs) =
     (let nextB = wrap64 (timeB + p_Length b) in disjunct_emit endTime nextB (p_Amount b) (disjunct_loop C timeA nextB nextB [] bs))"
| "disjunct_loop C timeA timeB endTime [] [] = (endTime, [])"

definition DisjunctPeriods ::
  "'c SdkCoins \<Rightarrow> int \<Rightarrow> int \<Rightarrow> 'c Period list \<Rightarrow> 'c Period list \<Rightarrow> int \<times> int \<times> 'c Period list" where
  "DisjunctPeriods C startA startB periodsA periodsB =
     (let startTime = Min64 startA startB;
          (endTime, periods) = disjunct_loop C startA startB startTime periodsA periodsB
      in (startTime, endTime, periods))"

text \<open>The body that \<open>consumeA\<close>, \<open>consumeB\<close> and \<open>consumeBoth\<close> of \<open>ConjunctPeriods\<close> share: append the growth of the minimum, if
  any, and go on with the new end time and resulting amount.  \<open>Coins.Sub\<close> panics on a negative result: None.\<close>

definition conjunct_step ::
  "'c SdkCoins \<Rightarrow> 'c \<Rightarrow> 'c \<Rightarrow> 'c \<Rightarrow> int \<Rightarrow> int \<Rightarrow> (int \<Rightarrow> 'c \<Rightarrow> (int \<times> 'c Period list) option) \<Rightarrow> (int \<times> 'c Period list) option" where
  "conjunct_step C totA totB res endTime nextTime rest =
     (let mn = c_Min C totA totB in
      if IsAllLTE C res mn then
        (case c_Sub C mn res of
           None \<Rightarrow> None
         | Some diff \<Rightarrow>
             if \<not> c_IsZero C diff
             then map_option (\<lambda>(e, ps). (e, \<lparr>p_Length = wrap64 (nextTime - endTime), p_Amount = diff\<rparr> # ps))
                    (rest nextTime (c_Add C res diff))
             else rest endTime res)
      else rest endTime res)"

fun conjunct_loop ::
  "'c SdkCoins \<Rightarrow> int \<Rightarrow> int \<Rightarrow> 'c \<Rightarrow> 'c \<Rightarrow> 'c Period list \<Rightarrow> 'c Period list \<Rightarrow> int \<Rightarrow> 'c \<Rightarrow> (int \<times> 'c Period list) option" where
  "conjunct_loop C timeA timeB totA totB (a # as) (b # bs) endTime res =
     (let nextA = wrap64 (timeA + p_Length a); nextB = wrap64 (timeB + p_Length b) in
      if nextA < nextB then
        (let totA = c_Add C totA (p_Amount a)
         in conjunct_step C totA totB res endTime nextA (conjunct_loop C nextA timeB totA totB as (b # bs)))
      else if nextA > nextB then
        (let totB = c_Add C totB (p_Amount b)
         in conjunct_step C totA totB res endTime nextB (conjunct_loop C timeA nextB totA totB (a # as) bs))
      else
        (let totA = c_Add C totA (p_Amount a); totB = c_Add C totB (p_Amount b)
         in conjunct_step C totA totB res endTime nextA (conjunct_loop C nextA nextA totA totB as bs)))"
| "conjunct_loop C timeA timeB totA totB (a # as) [] endTime res =
     (let nextA = wrap64 (timeA + p_Length a); totA = c_Add C totA (p_Amount a)
      in conjunct_step C totA totB res endTime nextA (conjunct_loop C nextA timeB totA totB as []))"
| "conjunct_loop C timeA timeB totA totB [] (b # bs) endTime res =
     (let nextB = wrap64 (timeB + p_Length b); totB = c_Add C totB (p_Amount b)
      in conjunct_step C totA totB res endTime nextB (conjunct_loop C timeA nextB totA totB [] bs))"
| "conjunct_loop C timeA timeB totA totB [] [] endTime res = Some (endTime, [])"

definition ConjunctPeriods ::
  "'c SdkCoins \<Rightarrow> int \<Rightarrow> int \<Rightarrow> 'c Period list \<Rightarrow> 'c Period list \<Rightarrow> (int \<times> int \<times> 'c Period list) option" where
  "ConjunctPeriods C startA startB periodsA periodsB =
     (let startTime = Min64 startA startB
      in map_option (\<lambda>(endTime, periods). (startTime, endTime, periods))
           (conjunct_loop C startA startB (NewCoins C) (NewCoins C) periodsA periodsB startTime (NewCoins C)))"

text \<open>\<open>AlignSchedules\<close> changes the first period of each slice in place: the changed slices are part of the result.\<close>

definition stretch_first :: "int \<Rightarrow> 'c Period list \<Rightarrow> 'c Period list" where
  "stretch_first n ps = (case ps of [] \<Rightarrow> [] | p # ps \<Rightarrow> p\<lparr>p_Length := wrap64 (p_Length p + n)\<rparr> # ps)"

definition AlignSchedules ::
  "'c SdkCoins \<Rightarrow> int \<Rightarrow> int \<Rightarrow> 'c Period list \<Rightarrow> 'c Period list \<Rightarrow> int \<times> int \<times> 'c Period list \<times> 'c Period list" where
  "AlignSchedules C startA startB periodsA periodsB =
     (let startTime = Min64 startA startB;
          periodsA = stretch_first (wrap64 (startA - startTime)) periodsA;
          periodsB = stretch_first (wrap64 (startB - startTime)) periodsB;
          endA = wrap64 (startTime + TotalLength C periodsA);
          endB = wrap64 (startTime + TotalLength C periodsB)
      in (startTime, Max64 endA endB, periodsA, periodsB))"

section \<open>What the SDK promises\<close>

definition coins_arith :: "'c SdkCoins \<Rightarrow> 'c \<Rightarrow> 'c \<Rightarrow> bool" where
  "coins_arith C a b \<longleftrightarrow>
     c_IsValid C (c_Add C a b) \<and> (\<forall>d. AmountOf C (c_Add C a b) d = AmountOf C a d + AmountOf C b d) \<and>
     c_IsValid C (c_Min C a b) \<and> (\<forall>d. AmountOf C (c_Min C a b) d = min (AmountOf C a d) (AmountOf C b d)) \<and>
     (IsAllLTE C a b \<longleftrightarrow> (\<forall>d. AmountOf C a d \<le> AmountOf C b d)) \<and>
     ((\<forall>d. AmountOf C b d \<le> AmountOf C a d) \<longrightarrow>
        (\<exists>c. c_Sub C a b = Some c \<and> c_SafeSub C a b = (c, False) \<and> c_IsValid C c \<and>
           (\<forall>d. AmountOf C c d = AmountOf C a d - AmountOf C b d)))"

definition coins_list :: "'c SdkCoins \<Rightarrow> 'c \<Rightarrow> bool" where
  "coins_list C a \<longleftrightarrow>
     (\<forall>d. 0 \<le> AmountOf C a d) \<and> (c_IsZero C a \<longleftrightarrow> (\<forall>d. AmountOf C a d = 0)) \<and>
     distinct (map fst (CoinList C a)) \<and> (\<forall>x \<in> set (CoinList C a). 0 < snd x) \<and>
     (\<forall>d. AmountOf C a d = (case map_of (CoinList C a) d of None \<Rightarrow> 0 | Some n \<Rightarrow> n))"

definition coins_total :: "'c SdkCoins \<Rightarrow> 'c Period list \<Rightarrow> bool" where
  "coins_total C ps \<longleftrightarrow>
     ((\<forall>p \<in> set ps. c_IsValid C (p_Amount p)) \<longrightarrow>
        c_IsValid C (TotalAmount C ps) \<and> (\<forall>d. AmountOf C (TotalAmount C ps) d = (\<Sum>p\<leftarrow>ps. AmountOf C (p_Amount p) d))) \<and>
     ((\<Sum>p\<leftarrow>ps. \<bar>p_Length p\<bar>) < 2 ^ 63 \<longrightarrow> TotalLength C ps = (\<Sum>p\<leftarrow>ps. p_Length p))"

definition coins_laws :: "'c SdkCoins \<Rightarrow> bool" where
  "coins_laws C \<longleftrightarrow>
     c_IsValid C (NewCoins C) \<and> (\<forall>d. AmountOf C (NewCoins C) d = 0) \<and>
     (\<forall>a b. c_IsValid C a \<longrightarrow> c_IsValid C b \<longrightarrow> coins_arith C a b) \<and> (\<forall>a. c_IsValid C a \<longrightarrow> coins_list C a) \<and>
     (\<forall>d n. 0 \<le> n \<longrightarrow> c_IsValid C (OfCoin C (d, n)) \<and> (\<forall>d'. AmountOf C (OfCoin C (d, n)) d' = (if d' = d then n else 0))) \<and>
     (\<forall>ps. coins_total C ps)"

text \<open>Lists of denominations with positive amounts: an instance.\<close>

definition coin_amount :: "(string \<times> int) list \<Rightarrow> string \<Rightarrow> int" where
  "coin_amount xs d = (case map_of xs d of None \<Rightarrow> 0 | Some n \<Rightarrow> n)"

definition coin_build :: "(string \<Rightarrow> int) \<Rightarrow> string list \<Rightarrow> (string \<times> int) list" where
  "coin_build f ds = map (\<lambda>d. (d, f d)) (filter (\<lambda>d. f d \<noteq> 0) (remdups ds))"

definition coin_with :: "(int \<Rightarrow> int \<Rightarrow> int) \<Rightarrow> (string \<times> int) list \<Rightarrow> (string \<times> int) list \<Rightarrow> (string \<times> int) list" where
  "coin_with h a b = coin_build (\<lambda>d. h (coin_amount a d) (coin_amount b d)) (map fst a @ map fst b)"

definition coin_le :: "(string \<times> int) list \<Rightarrow> (string \<times> int) list \<Rightarrow> bool" where
  "coin_le a b \<longleftrightarrow> list_all (\<lambda>d. coin_amount a d \<le> coin_amount b d) (map fst a @ map fst b)"

definition list_coins :: "(string \<times> int) list SdkCoins" where
  "list_coins = \<lparr>NewCoins = [], c_Add = coin_with (+), c_Sub = (\<lambda>a b. if coin_le b a then Some (coin_with (-) a b) else None),
     c_SafeSub = (\<lambda>a b. (coin_with (-) a b, \<not> coin_le b a)), c_Min = coin_with min, IsAllLTE = coin_le,
     c_IsZero = (\<lambda>a. list_all (\<lambda>x. snd x = 0) a), c_IsValid = (\<lambda>a. distinct (map fst a) \<and> list_all (\<lambda>x. 0 < snd x) a),
     AmountOf = coin_amount, CoinList = (\<lambda>a. a), OfCoin = (\<lambda>(d, n). if n = 0 then [] else [(d, n)]),
     TotalLength = (\<lambda>ps. \<Sum>p\<leftarrow>ps. p_Length p), TotalAmount = (\<lambda>ps. foldr (\<lambda>p. coin_with (+) (p_Amount p)) ps [])\<rparr>"

section \<open>The reference: sum of the events up to a time\<close>

primrec steps :: "('c \<Rightarrow> int) \<Rightarrow> int \<Rightarrow> 'c Period list \<Rightarrow> int \<Rightarrow> int" where
  "steps f s [] t = 0"
| "steps f s (p # ps) t = (if s + p_Length p \<le> t then f (p_Amount p) else 0) + steps f (s + p_Length p) ps t"

definition total_length :: "'c Period list \<Rightarrow> int" where
  "total_length ps = (\<Sum>p\<leftarrow>ps. p_Length p)"

definition total_amount :: "('c \<Rightarrow> int) \<Rightarrow> 'c Period list \<Rightarrow> int" where
  "total_amount f ps = (\<Sum>p\<leftarrow>ps. f (p_Amount p))"

definition periods_ok :: "'c SdkCoins \<Rightarrow> 'c Period list \<Rightarrow> bool" where
  "periods_ok C ps \<longleftrightarrow> (\<forall>p \<in> set ps. 0 \<le> p_Length p \<and> c_IsValid C (p_Amount p))"

text \<open>A schedule in range: it starts at or after the epoch, has no negative length, and ends within \<open>int64\<close>.\<close>

definition sched_wf :: "'c SdkCoins \<Rightarrow> int \<Rightarrow> 'c Period list \<Rightarrow> bool" where
  "sched_wf C s ps \<longleftrightarrow> 0 \<le> s \<and> periods_ok C ps \<and> s + total_length ps < 2 ^ 63"

section \<open>Laws in usable form\<close>

lemma coin_amount_build: "(\<And>d. d \<notin> set ds \<Longrightarrow> f d = 0) \<Longrightarrow> coin_amount (coin_build f ds) d = f d"
proof -
  assume f: "\<And>d. d \<notin> set ds \<Longrightarrow> f d = 0"
  have "map_of (coin_build f ds) d = (if f d \<noteq> 0 \<and> d \<in> set ds then Some (f d) else None)"
    unfolding coin_build_def by (simp add: map_of_map_restrict restrict_map_def)
  then show "coin_amount (coin_build f ds) d = f d"
    using f [of d] by (auto simp: coin_amount_def)
qed

lemma coin_amount_absent: "d \<notin> set (map fst a) \<Longrightarrow> coin_amount a d = 0"
  by (simp add: coin_amount_def map_of_eq_None_iff [THEN iffD2] split: option.split)

lemma coin_amount_with: "h 0 0 = 0 \<Longrightarrow> coin_amount (coin_with h a b) d = h (coin_amount a d) (coin_amount b d)"
  unfolding coin_with_def by (subst coin_amount_build) (auto simp: coin_amount_absent)

lemma coin_valid_with:
  assumes "\<And>d. 0 \<le> h (coin_amount a d) (coin_amount b d)"
  shows "distinct (map fst (coin_with h a b))" "list_all (\<lambda>x. 0 < snd x) (coin_with h a b)"
  using assms by (auto simp: coin_with_def coin_build_def comp_def list_all_iff less_le)

lemma coin_amount_nonneg: "list_all (\<lambda>x. 0 < snd x) a \<Longrightarrow> 0 \<le> coin_amount a d"
  using map_of_SomeD [of a d] by (force simp: coin_amount_def list_all_iff split: option.split)

lemma coin_le_iff: "coin_le a b \<longleftrightarrow> (\<forall>d. coin_amount a d \<le> coin_amount b d)"
proof -
  have "coin_amount a d \<le> coin_amount b d" if "d \<notin> set (map fst a @ map fst b)" for d
    using that coin_amount_absent [of d a] coin_amount_absent [of d b] by simp
  then show ?thesis
    unfolding coin_le_def list_all_iff by blast
qed

lemma coin_zero_iff: "distinct (map fst a) \<Longrightarrow> list_all (\<lambda>x. snd x = 0) a \<longleftrightarrow> (\<forall>d. coin_amount a d = 0)"
  by (auto simp: list_all_iff coin_amount_def dest: map_of_SomeD split: option.splits)

lemma coin_totals:
  "\<forall>p \<in> set ps. list_all (\<lambda>x. 0 < snd x) (p_Amount p) \<Longrightarrow>
   distinct (map fst (foldr (\<lambda>p. coin_with (+) (p_Amount p)) ps [])) \<and>
   list_all (\<lambda>x. 0 < snd x) (foldr (\<lambda>p. coin_with (+) (p_Amount p)) ps []) \<and>
   coin_amount (foldr (\<lambda>p. coin_with (+) (p_Amount p)) ps []) d = (\<Sum>p\<leftarrow>ps. coin_amount (p_Amount p) d)"
proof (induction ps)
  case (Cons p ps)
  then show ?case
    using coin_amount_nonneg by (auto simp: coin_amount_with intro!: coin_valid_with)
qed (simp add: coin_amount_def)

lemma list_coins_simps [simp]:
  "NewCoins list_coins = []" "c_Add list_coins = coin_with (+)" "c_Min list_coins = coin_with min" "IsAllLTE list_coins = coin_le"
  "AmountOf list_coins = coin_amount" "CoinList list_coins = (\<lambda>a. a)" "c_IsZero list_coins a = list_all (\<lambda>x. snd x = 0) a"
  "c_IsValid list_coins a \<longleftrightarrow> distinct (map fst a) \<and> list_all (\<lambda>x. 0 < snd x) a"
  by (simp_all add: list_coins_def)

lemma list_coins_laws: "coins_laws list_coins"
proof -
  have valid: "c_IsValid list_coins (coin_with h a b)" if "\<And>d. 0 \<le> h (coin_amount a d) (coin_amount b d)" for h a b
    using coin_valid_with [of h, OF that] by simp
  have "coins_arith list_coins a b" if "c_IsValid list_coins a" "c_IsValid list_coins b" for a b
    using that coin_amount_nonneg [of a] coin_amount_nonneg [of b] unfolding coins_arith_def
    by (auto simp del: list_coins_simps(8) intro!: valid)
      (auto simp: coin_amount_with coin_le_iff list_coins_def intro!: coin_valid_with)
  moreover have "coins_list list_coins a" if "c_IsValid list_coins a" for a
    using that coin_zero_iff [of a] coin_amount_nonneg [of a] by (simp add: coins_list_def list_all_iff coin_amount_def)
  moreover have "coins_total list_coins ps" for ps
    using coin_totals [of ps] by (simp add: coins_total_def list_coins_def)
  ultimately show ?thesis
    by (auto simp: coins_laws_def list_coins_def coin_amount_def)
qed

lemma coins_lawsD:
  assumes "coins_laws C"
  shows "c_IsValid C (NewCoins C)" "AmountOf C (NewCoins C) d = 0" "c_IsValid C a \<Longrightarrow> 0 \<le> AmountOf C a d"
    "c_IsValid C a \<Longrightarrow> c_IsValid C b \<Longrightarrow> c_IsValid C (c_Add C a b)"
    "c_IsValid C a \<Longrightarrow> c_IsValid C b \<Longrightarrow> AmountOf C (c_Add C a b) d = AmountOf C a d + AmountOf C b d"
    "c_IsValid C a \<Longrightarrow> c_IsValid C b \<Longrightarrow> c_IsValid C (c_Min C a b)"
    "c_IsValid C a \<Longrightarrow> c_IsValid C b \<Longrightarrow> AmountOf C (c_Min C a b) d = min (AmountOf C a d) (AmountOf C b d)"
    "c_IsValid C a \<Longrightarrow> c_IsValid C b \<Longrightarrow> IsAllLTE C a b \<longleftrightarrow> (\<forall>d. AmountOf C a d \<le> AmountOf C b d)"
    "c_IsValid C a \<Longrightarrow> c_IsZero C a \<longleftrightarrow> (\<forall>d. AmountOf C a d = 0)"
proof -
  have arith: "c_IsValid C a \<Longrightarrow> c_IsValid C b \<Longrightarrow> coins_arith C a b" and list: "c_IsValid C a \<Longrightarrow> coins_list C a"
    using assms by (simp_all add: coins_laws_def)
  show "c_IsValid C (NewCoins C)" "AmountOf C (NewCoins C) d = 0"
    using assms by (simp_all add: coins_laws_def)
  show "c_IsValid C a \<Longrightarrow> 0 \<le> AmountOf C a d" "c_IsValid C a \<Longrightarrow> c_IsZero C a \<longleftrightarrow> (\<forall>d. AmountOf C a d = 0)"
    using list unfolding coins_list_def by blast+
  show "c_IsValid C a \<Longrightarrow> c_IsValid C b \<Longrightarrow> c_IsValid C (c_Add C a b)"
    "c_IsValid C a \<Longrightarrow> c_IsValid C b \<Longrightarrow> AmountOf C (c_Add C a b) d = AmountOf C a d + AmountOf C b d"
    "c_IsValid C a \<Longrightarrow> c_IsValid C b \<Longrightarrow> c_IsValid C (c_Min C a b)"
    "c_IsValid C a \<Longrightarrow> c_IsValid C b \<Longrightarrow> AmountOf C (c_Min C a b) d = min (AmountOf C a d) (AmountOf C b d)"
    "c_IsValid C a \<Longrightarrow> c_IsValid C b \<Longrightarrow> IsAllLTE C a b \<longleftrightarrow> (\<forall>d. AmountOf C a d \<le> AmountOf C b d)"
    using arith by (simp_all add: coins_arith_def)
qed

lemma coins_sub:
  assumes "coins_laws C" "c_IsValid C a" "c_IsValid C b" "\<And>d. AmountOf C b d \<le> AmountOf C a d"
  obtains c where "c_Sub C a b = Some c" "c_SafeSub C a b = (c, False)" "c_IsValid C c"
    "\<And>d. AmountOf C c d = AmountOf C a d - AmountOf C b d"
proof -
  have "coins_arith C a b"
    using assms(1-3) by (simp add: coins_laws_def)
  then show thesis
    using assms(4) that unfolding coins_arith_def by blast
qed

lemma coins_total_ok:
  assumes "coins_laws C" "periods_ok C ps"
  shows "c_IsValid C (TotalAmount C ps)" "AmountOf C (TotalAmount C ps) d = total_amount (\<lambda>c. AmountOf C c d) ps"
    "total_length ps < 2 ^ 63 \<Longrightarrow> TotalLength C ps = total_length ps"
proof -
  have t: "coins_total C ps"
    using assms(1) by (simp add: coins_laws_def)
  have v: "\<forall>p \<in> set ps. c_IsValid C (p_Amount p)" and len: "\<forall>p \<in> set ps. \<bar>p_Length p\<bar> = p_Length p"
    using assms(2) by (auto simp: periods_ok_def)
  show "c_IsValid C (TotalAmount C ps)" "AmountOf C (TotalAmount C ps) d = total_amount (\<lambda>c. AmountOf C c d) ps"
    using t v by (simp_all add: coins_total_def total_amount_def)
  have "(\<Sum>p\<leftarrow>ps. \<bar>p_Length p\<bar>) = total_length ps"
    unfolding total_length_def using len by (intro arg_cong [where f = sum_list] map_cong) auto
  then show "total_length ps < 2 ^ 63 \<Longrightarrow> TotalLength C ps = total_length ps"
    using t by (simp add: coins_total_def total_length_def)
qed

lemma wrap64_in_range [simp]: "0 \<le> z \<Longrightarrow> z < 2 ^ 63 \<Longrightarrow> wrap64 z = z"
  by (rule wrap64_id) simp_all

lemma total_simps [simp]:
  "total_length [] = 0" "total_length (p # ps) = p_Length p + total_length ps"
  "total_amount f [] = 0" "total_amount f (p # ps) = f (p_Amount p) + total_amount f ps"
  by (simp_all add: total_length_def total_amount_def)

lemma periods_ok_simps [simp]:
  "periods_ok C []" "periods_ok C (p # ps) \<longleftrightarrow> 0 \<le> p_Length p \<and> c_IsValid C (p_Amount p) \<and> periods_ok C ps"
  by (auto simp: periods_ok_def)

lemma total_length_nonneg: "periods_ok C ps \<Longrightarrow> 0 \<le> total_length ps"
  by (induction ps) auto

section \<open>Steps\<close>

lemma steps_before: "periods_ok C ps \<Longrightarrow> t < s \<Longrightarrow> steps f s ps t = 0"
  by (induction ps arbitrary: s) auto

lemma steps_first: "periods_ok C (p # ps) \<Longrightarrow> t < s + p_Length p \<Longrightarrow> steps f s (p # ps) t = 0"
  using steps_before [of C ps t "s + p_Length p" f] by simp

lemma steps_after: "periods_ok C ps \<Longrightarrow> s + total_length ps \<le> t \<Longrightarrow> steps f s ps t = total_amount f ps"
proof (induction ps arbitrary: s)
  case (Cons p ps)
  then show ?case
    using total_length_nonneg [of C ps] by (auto simp: algebra_simps)
qed simp

lemma steps_bounds:
  assumes "coins_laws C" "periods_ok C ps"
  shows "0 \<le> steps (\<lambda>c. AmountOf C c d) s ps t" "steps (\<lambda>c. AmountOf C c d) s ps t \<le> total_amount (\<lambda>c. AmountOf C c d) ps"
  using assms(2) by (induction ps arbitrary: s) (auto simp: coins_lawsD(3) [OF assms(1)] add_mono add_increasing)

lemma read_loop_steps:
  assumes C: "coins_laws C"
  shows "periods_ok C ps \<Longrightarrow> 0 \<le> s \<Longrightarrow> s + total_length ps < 2 ^ 63 \<Longrightarrow> c_IsValid C coins \<Longrightarrow>
    c_IsValid C (read_loop C t coins s ps) \<and>
    AmountOf C (read_loop C t coins s ps) d = AmountOf C coins d + steps (\<lambda>c. AmountOf C c d) s ps t"
proof (induction ps arbitrary: s coins)
  case (Cons p ps)
  have w: "wrap64 (s + p_Length p) = s + p_Length p"
    using Cons.prems total_length_nonneg [of C ps] by simp
  show ?case
  proof (cases "t < s + p_Length p")
    case True
    then show ?thesis
      using Cons.prems steps_first [of C p ps t s] by (simp add: w)
  next
    case False
    then show ?thesis
      using Cons.prems Cons.IH [of "s + p_Length p" "c_Add C coins (p_Amount p)"]
      by (simp add: w coins_lawsD(4,5) [OF C])
  qed
qed simp

lemma ReadSchedule_valid:
  "coins_laws C \<Longrightarrow> sched_wf C s ps \<Longrightarrow> c_IsValid C tot \<Longrightarrow> c_IsValid C (ReadSchedule C s e ps tot t)"
  by (simp add: ReadSchedule_def coins_lawsD(1) read_loop_steps sched_wf_def)

lemma ReadSchedule_steps:
  assumes C: "coins_laws C" and wf: "sched_wf C s ps" and e: "s + total_length ps \<le> e"
    and tot: "AmountOf C tot d = total_amount (\<lambda>c. AmountOf C c d) ps"
  shows "AmountOf C (ReadSchedule C s e ps tot t) d = (if t \<le> s then 0 else steps (\<lambda>c. AmountOf C c d) s ps t)"
  using assms read_loop_steps [OF C, of ps s "NewCoins C" t d] steps_after [of C ps s t]
  by (simp add: ReadSchedule_def sched_wf_def coins_lawsD(1,2) [OF C])

lemma count_loop_take:
  "periods_ok C ps \<Longrightarrow> 0 \<le> s \<Longrightarrow> s + total_length ps < 2 ^ 63 \<Longrightarrow>
   \<exists>m \<le> length ps. count_loop t n s ps = n + m \<and> (\<forall>t'. steps f s (take m ps) t' = steps f s ps (min t t')) \<and>
     s + total_length (take m ps) \<le> max s t"
proof (induction ps arbitrary: s n)
  case (Cons p ps)
  have w: "wrap64 (s + p_Length p) = s + p_Length p"
    using Cons.prems total_length_nonneg [of C ps] by simp
  show ?case
  proof (cases "t < s + p_Length p")
    case True
    then show ?thesis
      using Cons.prems steps_first [of C p ps _ s] by (intro exI [of _ 0]) (simp add: w)
  next
    case False
    from Cons.IH [of "s + p_Length p" "n + 1"] Cons.prems
    obtain m where "m \<le> length ps" "count_loop t (n + 1) (s + p_Length p) ps = n + 1 + m"
      "\<forall>t'. steps f (s + p_Length p) (take m ps) t' = steps f (s + p_Length p) ps (min t t')"
      "s + p_Length p + total_length (take m ps) \<le> max (s + p_Length p) t"
      by auto
    then show ?thesis
      using False by (intro exI [of _ "m + 1"]) (auto simp: w)
  qed
qed simp

section \<open>The union of two schedules\<close>

text \<open>What both combining loops keep: the schedules are in range and none has an event before the end time.\<close>

definition pending :: "'c SdkCoins \<Rightarrow> int \<Rightarrow> int \<Rightarrow> 'c Period list \<Rightarrow> bool" where
  "pending C endTime time ps \<longleftrightarrow>
     sched_wf C time ps \<and> (case ps of [] \<Rightarrow> True | p # _ \<Rightarrow> endTime \<le> time + p_Length p)"

lemma pending_simps:
  "pending C e s [] \<longleftrightarrow> 0 \<le> s \<and> s < 2 ^ 63"
  "pending C e s (p # ps) \<longleftrightarrow> 0 \<le> s \<and> e \<le> s + p_Length p \<and> 0 \<le> p_Length p \<and> c_IsValid C (p_Amount p) \<and>
     pending C (s + p_Length p) (s + p_Length p) ps"
  by (auto simp: pending_def sched_wf_def algebra_simps split: list.split)

lemma pending_mono: "pending C e' s ps \<Longrightarrow> e \<le> e' \<Longrightarrow> pending C e s ps"
  by (auto simp: pending_def split: list.splits)

lemma pending_bound: "pending C e s ps \<Longrightarrow> s < 2 ^ 63"
  using total_length_nonneg [of C ps] by (auto simp: pending_def sched_wf_def)

lemma pending_wrap: "pending C e s (p # ps) \<Longrightarrow> wrap64 (s + p_Length p) = s + p_Length p"
  using pending_bound [of C "s + p_Length p" "s + p_Length p" ps] by (simp add: pending_simps)

lemma pending_head: "pending C e s (p # ps) \<Longrightarrow> e' \<le> s + p_Length p \<Longrightarrow> pending C e' s (p # ps)"
  by (simp add: pending_simps)

lemma pending_steps: "pending C e s ps \<Longrightarrow> t < e \<Longrightarrow> steps f s ps t = 0"
  using steps_first [of C _ _ t s f] by (cases ps) (auto simp: pending_def sched_wf_def)

lemma pending_periods: "pending C e s ps \<Longrightarrow> periods_ok C ps"
  by (simp add: pending_def sched_wf_def)

text \<open>Putting one more event before a list of periods.\<close>

lemma emit_period:
  assumes "0 \<le> e" "e \<le> n" "n < 2 ^ 63" "c_IsValid C c" "periods_ok C ps"
  defines "p \<equiv> \<lparr>p_Length = wrap64 (n - e), p_Amount = c\<rparr>"
  shows "periods_ok C (p # ps)" "e + total_length (p # ps) = n + total_length ps"
    "steps f e (p # ps) t = (if n \<le> t then f c else 0) + steps f n ps t"
  using assms by simp_all

definition disjunct_post :: "'c SdkCoins \<Rightarrow> int \<Rightarrow> (string \<Rightarrow> int \<Rightarrow> int) \<Rightarrow> int \<times> 'c Period list \<Rightarrow> bool" where
  "disjunct_post C e f r \<longleftrightarrow> periods_ok C (snd r) \<and> fst r = e + total_length (snd r) \<and> fst r < 2 ^ 63 \<and>
     (\<forall>d t. steps (\<lambda>c. AmountOf C c d) e (snd r) t = f d t)"

lemma disjunct_post_emit:
  assumes "0 \<le> e" "e \<le> n" "n < 2 ^ 63" "c_IsValid C c" "disjunct_post C n g r"
    and "\<And>d t. f d t = (if n \<le> t then AmountOf C c d else 0) + g d t"
  shows "disjunct_post C e f (disjunct_emit e n c r)"
proof -
  obtain e' ps where r: "r = (e', ps)"
    by fastforce
  have ok: "periods_ok C ps" and e': "e' = n + total_length ps" "e' < 2 ^ 63"
    and st: "\<And>d t. steps (\<lambda>c. AmountOf C c d) n ps t = g d t"
    using assms(5) by (simp_all add: disjunct_post_def r)
  note emit = emit_period [OF assms(1-4) ok]
  show ?thesis
    using emit e' by (simp add: disjunct_post_def r disjunct_emit_def assms(6) st del: total_simps steps.simps)
qed

lemma disjunct_loop_post:
  "coins_laws C \<Longrightarrow> 0 \<le> e \<Longrightarrow> e < 2 ^ 63 \<Longrightarrow> pending C e sA as \<Longrightarrow> pending C e sB bs \<Longrightarrow>
   disjunct_post C e (\<lambda>d t. steps (\<lambda>c. AmountOf C c d) sA as t + steps (\<lambda>c. AmountOf C c d) sB bs t) (disjunct_loop C sA sB e as bs)"
proof (induction C sA sB e as bs rule: disjunct_loop.induct)
  case (1 C sA sB e a as b bs)
  note C = 1(4) and A = 1(7) and B = 1(8)
  let ?nA = "sA + p_Length a" and ?nB = "sB + p_Length b"
  note w = pending_wrap [OF A] pending_wrap [OF B]
  have n: "0 \<le> ?nA" "e \<le> ?nA" "?nA < 2 ^ 63" "0 \<le> ?nB" "e \<le> ?nB" "?nB < 2 ^ 63"
    and tails: "pending C ?nA ?nA as" "pending C ?nB ?nB bs" and valid: "c_IsValid C (p_Amount a)" "c_IsValid C (p_Amount b)"
    using A B pending_bound [of C ?nA ?nA as] pending_bound [of C ?nB ?nB bs] by (simp_all add: pending_simps)
  consider "?nA < ?nB" | "?nB < ?nA" | "?nA = ?nB"
    by linarith
  then show ?case
  proof cases
    case 1
    note IH = "1.IH"(1) [OF w(1) [symmetric] w(2) [symmetric] 1 C n(1,3) tails(1) pending_head [OF B order.strict_implies_order [OF 1]]]
    show ?thesis
      using 1 by (auto simp: w Let_def intro!: disjunct_post_emit [OF \<open>0 \<le> e\<close> n(2,3) valid(1) IH])
  next
    case 2
    then have "\<not> ?nA < ?nB"
      by simp
    note IH = "1.IH"(2) [OF w(1) [symmetric] w(2) [symmetric] this 2 C n(4,6) pending_head [OF A order.strict_implies_order [OF 2]] tails(2)]
    show ?thesis
      using 2 by (auto simp: w Let_def intro!: disjunct_post_emit [OF \<open>0 \<le> e\<close> n(5,6) valid(2) IH])
  next
    case 3
    then have "\<not> ?nA < ?nB" "\<not> ?nB < ?nA" "pending C ?nA ?nA bs"
      using tails(2) by simp_all
    note IH = "1.IH"(3) [OF w(1) [symmetric] w(2) [symmetric] this(1,2) C n(1,3) tails(1) this(3)]
    show ?thesis
      using 3 coins_lawsD(5) [OF C valid]
      by (auto simp: w Let_def intro!: disjunct_post_emit [OF \<open>0 \<le> e\<close> n(2,3) coins_lawsD(4) [OF C valid] IH, unfolded 3])
  qed
next
  case (2 C sA sB e a as)
  let ?nA = "sA + p_Length a"
  have n: "0 \<le> ?nA" "e \<le> ?nA" "?nA < 2 ^ 63" "pending C ?nA ?nA as" "c_IsValid C (p_Amount a)" "pending C ?nA sB []"
    using 2 pending_bound [of C ?nA ?nA as] by (simp_all add: pending_simps)
  show ?case
    using pending_wrap [OF 2(5)] n 2(2) by (auto simp: Let_def intro!: disjunct_post_emit [OF \<open>0 \<le> e\<close> n(2,3,5) 2(1)])
next
  case (3 C sA sB e b bs)
  let ?nB = "sB + p_Length b"
  have n: "0 \<le> ?nB" "e \<le> ?nB" "?nB < 2 ^ 63" "pending C ?nB ?nB bs" "c_IsValid C (p_Amount b)" "pending C ?nB sA []"
    using 3 pending_bound [of C ?nB ?nB bs] by (simp_all add: pending_simps)
  show ?case
    using pending_wrap [OF 3(6)] n 3(2) by (auto simp: Let_def intro!: disjunct_post_emit [OF \<open>0 \<le> e\<close> n(2,3,5) 3(1)])
next
  case 4
  then show ?case
    by (simp add: disjunct_post_def)
qed

lemma sched_wf_pending: "sched_wf C s ps \<Longrightarrow> e \<le> s \<Longrightarrow> pending C e s ps"
  by (auto simp: pending_def sched_wf_def split: list.split)

lemma DisjunctPeriods_steps:
  assumes C: "coins_laws C" and A: "sched_wf C sA as" and B: "sched_wf C sB bs" and r: "DisjunctPeriods C sA sB as bs = (s, e, ps)"
  shows "s = min sA sB" "sched_wf C s ps" "e = s + total_length ps"
    "steps (\<lambda>c. AmountOf C c d) s ps t = steps (\<lambda>c. AmountOf C c d) sA as t + steps (\<lambda>c. AmountOf C c d) sB bs t"
proof -
  have s: "s = min sA sB" and l: "disjunct_loop C sA sB s as bs = (e, ps)"
    using r by (auto simp: DisjunctPeriods_def Let_def Min64_def split: prod.splits)
  have "0 \<le> s" "s < 2 ^ 63"
    using A B total_length_nonneg [of C as] by (auto simp: s sched_wf_def)
  then have post: "disjunct_post C s (\<lambda>d t. steps (\<lambda>c. AmountOf C c d) sA as t + steps (\<lambda>c. AmountOf C c d) sB bs t) (e, ps)"
    using disjunct_loop_post [OF C, of s sA as sB bs] A B unfolding l by (simp add: s sched_wf_pending)
  show "s = min sA sB"
    by (rule s)
  show "sched_wf C s ps" "e = s + total_length ps"
    "steps (\<lambda>c. AmountOf C c d) s ps t = steps (\<lambda>c. AmountOf C c d) sA as t + steps (\<lambda>c. AmountOf C c d) sB bs t"
    using post \<open>0 \<le> s\<close> by (simp_all add: disjunct_post_def sched_wf_def)
qed

section \<open>The minimum of two schedules\<close>

definition min_growth :: "int \<Rightarrow> int \<Rightarrow> int \<Rightarrow> int \<Rightarrow> int" where
  "min_growth a b x y = min (a + x) (b + y) - min a b"

lemma conjunct_step_post:
  assumes C: "coins_laws C" and valid: "c_IsValid C totA" "c_IsValid C totB" "c_IsValid C res"
    and le: "\<And>d. AmountOf C res d \<le> min (AmountOf C totA d) (AmountOf C totB d)" and n: "0 \<le> e" "e \<le> n" "n < 2 ^ 63"
    and rest: "\<And>e' res'. \<lbrakk>0 \<le> e'; e' \<le> n; c_IsValid C res'; \<And>d. AmountOf C res' d = min (AmountOf C totA d) (AmountOf C totB d)\<rbrakk> \<Longrightarrow>
      \<exists>r. rest e' res' = Some r \<and> disjunct_post C e' h r"
    and f: "\<And>d t. f d t = (if n \<le> t then min (AmountOf C totA d) (AmountOf C totB d) - AmountOf C res d else 0) + h d t"
  shows "\<exists>r. conjunct_step C totA totB res e n rest = Some r \<and> disjunct_post C e f r"
proof -
  have mn: "c_IsValid C (c_Min C totA totB)" "\<And>d. AmountOf C (c_Min C totA totB) d = min (AmountOf C totA d) (AmountOf C totB d)"
    using coins_lawsD(6,7) [OF C valid(1,2)] by auto
  then have lte: "IsAllLTE C res (c_Min C totA totB)"
    using coins_lawsD(8) [OF C valid(3) mn(1)] le by simp
  obtain diff where diff: "c_Sub C (c_Min C totA totB) res = Some diff" "c_IsValid C diff"
    "\<And>d. AmountOf C diff d = min (AmountOf C totA d) (AmountOf C totB d) - AmountOf C res d"
    using coins_sub [OF C mn(1) valid(3)] le mn(2) by metis
  show ?thesis
  proof (cases "c_IsZero C diff")
    case True
    then have z: "AmountOf C res d = min (AmountOf C totA d) (AmountOf C totB d)" for d
      using coins_lawsD(9) [OF C diff(2)] diff(3) [of d] by simp
    have "f = h"
      by (auto simp: fun_eq_iff f z)
    then show ?thesis
      using rest [OF n(1,2) valid(3) z] True lte diff(1) by (simp add: conjunct_step_def)
  next
    case False
    have amount: "AmountOf C (c_Add C res diff) d = min (AmountOf C totA d) (AmountOf C totB d)" for d
      using coins_lawsD(5) [OF C valid(3) diff(2)] diff(3) by simp
    have "0 \<le> n"
      using n by simp
    from rest [OF this order_refl coins_lawsD(4) [OF C valid(3) diff(2)] amount]
    obtain r where r: "rest n (c_Add C res diff) = Some r" "disjunct_post C n h r"
      by blast
    have "conjunct_step C totA totB res e n rest = Some (disjunct_emit e n diff r)"
      using False lte diff(1) r(1) by (simp add: conjunct_step_def disjunct_emit_def case_prod_unfold)
    moreover have "disjunct_post C e f (disjunct_emit e n diff r)"
      using f diff(3) by (intro disjunct_post_emit [OF n diff(2) r(2)]) simp
    ultimately show ?thesis
      by blast
  qed
qed

definition min_steps :: "'c SdkCoins \<Rightarrow> int \<Rightarrow> int \<Rightarrow> 'c \<Rightarrow> 'c \<Rightarrow> 'c Period list \<Rightarrow> 'c Period list \<Rightarrow> string \<Rightarrow> int \<Rightarrow> int" where
  "min_steps C sA sB totA totB as bs d t = min_growth (AmountOf C totA d) (AmountOf C totB d)
     (steps (\<lambda>c. AmountOf C c d) sA as t) (steps (\<lambda>c. AmountOf C c d) sB bs t)"

text \<open>One round: events worth \<open>xA\<close> and \<open>xB\<close> of the two schedules take place at \<open>n\<close>.\<close>

lemma conjunct_consume:
  assumes C: "coins_laws C" and valid: "c_IsValid C totA'" "c_IsValid C totB'" "c_IsValid C res" and n: "0 \<le> e" "e \<le> n" "n < 2 ^ 63"
    and res: "\<And>d. AmountOf C res d = min (AmountOf C totA d) (AmountOf C totB d)"
    and x: "\<And>d. AmountOf C totA' d = AmountOf C totA d + xA d" "\<And>d. AmountOf C totB' d = AmountOf C totB d + xB d"
      "\<And>d. 0 \<le> xA d" "\<And>d. 0 \<le> xB d"
    and pend: "pending C n sA' as'" "pending C n sB' bs'"
    and st: "\<And>d t. steps (\<lambda>c. AmountOf C c d) sA as t = (if n \<le> t then xA d else 0) + steps (\<lambda>c. AmountOf C c d) sA' as' t"
      "\<And>d t. steps (\<lambda>c. AmountOf C c d) sB bs t = (if n \<le> t then xB d else 0) + steps (\<lambda>c. AmountOf C c d) sB' bs' t"
    and IH: "\<And>e' res'. \<lbrakk>0 \<le> e'; pending C e' sA' as'; pending C e' sB' bs'; e' < 2 ^ 63; c_IsValid C totA'; c_IsValid C totB';
        c_IsValid C res'; \<And>d. AmountOf C res' d = min (AmountOf C totA' d) (AmountOf C totB' d)\<rbrakk> \<Longrightarrow>
      \<exists>r. conjunct_loop C sA' sB' totA' totB' as' bs' e' res' = Some r \<and> disjunct_post C e' (min_steps C sA' sB' totA' totB' as' bs') r"
  shows "\<exists>r. conjunct_step C totA' totB' res e n (conjunct_loop C sA' sB' totA' totB' as' bs') = Some r \<and>
    disjunct_post C e (min_steps C sA sB totA totB as bs) r"
proof (rule conjunct_step_post [OF C valid _ n])
  show "AmountOf C res d \<le> min (AmountOf C totA' d) (AmountOf C totB' d)" for d
    using x(3) [of d] x(4) [of d] by (auto simp: res x(1,2))
  show "\<exists>r. conjunct_loop C sA' sB' totA' totB' as' bs' e' res' = Some r \<and> disjunct_post C e' (min_steps C sA' sB' totA' totB' as' bs') r"
    if "0 \<le> e'" "e' \<le> n" "c_IsValid C res'" "\<And>d. AmountOf C res' d = min (AmountOf C totA' d) (AmountOf C totB' d)" for e' res'
    using IH [OF that(1) pending_mono [OF pend(1) that(2)] pending_mono [OF pend(2) that(2)] _ valid(1,2) that(3,4)] that(2) n(3) by simp
  show "min_steps C sA sB totA totB as bs d t =
      (if n \<le> t then min (AmountOf C totA' d) (AmountOf C totB' d) - AmountOf C res d else 0) + min_steps C sA' sB' totA' totB' as' bs' d t"
    for d t
    using pending_steps [OF pend(1), of t] pending_steps [OF pend(2), of t]
    by (auto simp: min_steps_def min_growth_def st x(1,2) res ac_simps)
qed

lemma conjunct_loop_post:
  "coins_laws C \<Longrightarrow> 0 \<le> e \<Longrightarrow> pending C e sA as \<Longrightarrow> pending C e sB bs \<Longrightarrow> e < 2 ^ 63 \<Longrightarrow> c_IsValid C totA \<Longrightarrow> c_IsValid C totB \<Longrightarrow>
   c_IsValid C res \<Longrightarrow> (\<And>d. AmountOf C res d = min (AmountOf C totA d) (AmountOf C totB d)) \<Longrightarrow>
   \<exists>r. conjunct_loop C sA sB totA totB as bs e res = Some r \<and> disjunct_post C e (min_steps C sA sB totA totB as bs) r"
proof (induction C sA sB totA totB as bs e res rule: conjunct_loop.induct)
  case (1 C sA sB totA totB a as b bs e res)
  note C = 1(4) and A = 1(6) and B = 1(7) and valid = 1(9-11) and res = 1(12)
  let ?nA = "sA + p_Length a" and ?nB = "sB + p_Length b"
  note w = pending_wrap [OF A] pending_wrap [OF B]
  have n: "e \<le> ?nA" "?nA < 2 ^ 63" "e \<le> ?nB" "?nB < 2 ^ 63"
    and tails: "pending C ?nA ?nA as" "pending C ?nB ?nB bs" and va: "c_IsValid C (p_Amount a)" "c_IsValid C (p_Amount b)"
    using A B pending_bound [of C ?nA ?nA as] pending_bound [of C ?nB ?nB bs] by (simp_all add: pending_simps)
  note addA = coins_lawsD(4,5) [OF C valid(1) va(1)] and addB = coins_lawsD(4,5) [OF C valid(2) va(2)]
  note pos = coins_lawsD(3) [OF C va(1)] coins_lawsD(3) [OF C va(2)]
  consider "?nA < ?nB" | "?nB < ?nA" | "?nA = ?nB"
    by linarith
  then show ?case
  proof cases
    case 1
    note B' = pending_head [OF B order.strict_implies_order [OF 1]]
    note IH = "1.IH"(1) [OF w(1) [symmetric] w(2) [symmetric] 1 refl C]
    show ?thesis
      using 1 conjunct_consume [OF C addA(1) valid(2,3) \<open>0 \<le> e\<close> n(1,2) res addA(2) _ pos(1) _ tails(1) B', where xB = "\<lambda>_. 0"
          and as = "a # as" and sA = sA and bs = "b # bs" and sB = sB] IH by (simp add: w Let_def)
  next
    case 2
    then have not: "\<not> ?nA < ?nB"
      by simp
    note A' = pending_head [OF A order.strict_implies_order [OF 2]]
    note IH = "1.IH"(2) [OF w(1) [symmetric] w(2) [symmetric] not 2 refl C]
    show ?thesis
      using 2 conjunct_consume [OF C valid(1) addB(1) valid(3) \<open>0 \<le> e\<close> n(3,4) res _ addB(2) _ pos(2) A' tails(2), where xA = "\<lambda>_. 0"
          and as = "a # as" and sA = sA and bs = "b # bs" and sB = sB] IH by (simp add: w Let_def)
  next
    case 3
    then have not: "\<not> ?nA < ?nB" "\<not> ?nB < ?nA" and B': "pending C ?nA ?nA bs"
      using tails(2) by simp_all
    note IH = "1.IH"(3) [OF w(1) [symmetric] w(2) [symmetric] not refl refl C]
    show ?thesis
      using 3 conjunct_consume [OF C addA(1) addB(1) valid(3) \<open>0 \<le> e\<close> n(1,2) res addA(2) addB(2) pos tails(1) B', 
          where as = "a # as" and sA = sA and bs = "b # bs" and sB = sB] IH by (simp add: w Let_def)
  qed
next
  case (2 C sA sB totA totB a as e res)
  note C = 2(2) and A = 2(4) and valid = 2(7-9)
  let ?nA = "sA + p_Length a"
  have n: "e \<le> ?nA" "?nA < 2 ^ 63" "pending C ?nA ?nA as" "pending C ?nA sB []" and va: "c_IsValid C (p_Amount a)"
    using 2 pending_bound [of C ?nA ?nA as] by (simp_all add: pending_simps)
  note addA = coins_lawsD(4,5) [OF C valid(1) va]
  note IH = "2.IH" [OF pending_wrap [OF A, symmetric] refl C]
  show ?case
    using conjunct_consume [OF C addA(1) valid(2,3) \<open>0 \<le> e\<close> n(1,2) 2(10) addA(2) _ coins_lawsD(3) [OF C va] _ n(3,4), where xB = "\<lambda>_. 0"
          and as = "a # as" and sA = sA and bs = "[]" and sB = sB] IH by (simp add: pending_wrap [OF A] Let_def)
next
  case (3 C sA sB totA totB b bs e res)
  note C = 3(2) and B = 3(5) and valid = 3(7-9)
  let ?nB = "sB + p_Length b"
  have n: "e \<le> ?nB" "?nB < 2 ^ 63" "pending C ?nB sA []" "pending C ?nB ?nB bs" and va: "c_IsValid C (p_Amount b)"
    using 3 pending_bound [of C ?nB ?nB bs] by (simp_all add: pending_simps)
  note addB = coins_lawsD(4,5) [OF C valid(2) va]
  note IH = "3.IH" [OF pending_wrap [OF B, symmetric] refl C]
  show ?case
    using conjunct_consume [OF C valid(1) addB(1) valid(3) \<open>0 \<le> e\<close> n(1,2) 3(10) _ addB(2) _ coins_lawsD(3) [OF C va] n(3,4), where xA = "\<lambda>_. 0"
          and as = "[]" and sA = sA and bs = "b # bs" and sB = sB] IH by (simp add: pending_wrap [OF B] Let_def)
next
  case (4 C sA sB totA totB e res)
  then show ?case
    by (auto simp: disjunct_post_def min_steps_def min_growth_def)
qed

lemma ConjunctPeriods_steps:
  assumes C: "coins_laws C" and A: "sched_wf C sA as" and B: "sched_wf C sB bs"
  obtains e ps where "ConjunctPeriods C sA sB as bs = Some (min sA sB, e, ps)" "sched_wf C (min sA sB) ps"
    "e = min sA sB + total_length ps"
    "\<And>d t. steps (\<lambda>c. AmountOf C c d) (min sA sB) ps t =
      min (steps (\<lambda>c. AmountOf C c d) sA as t) (steps (\<lambda>c. AmountOf C c d) sB bs t)"
proof -
  let ?s = "min sA sB"
  have s: "0 \<le> ?s" "?s < 2 ^ 63" "Min64 sA sB = ?s"
    using A B total_length_nonneg [of C as] by (auto simp: sched_wf_def Min64_def)
  note z = coins_lawsD(1,2) [OF C]
  obtain e ps where l: "conjunct_loop C sA sB (NewCoins C) (NewCoins C) as bs ?s (NewCoins C) = Some (e, ps)"
    and post: "disjunct_post C ?s (min_steps C sA sB (NewCoins C) (NewCoins C) as bs) (e, ps)"
    using conjunct_loop_post [OF C s(1) sched_wf_pending [OF A] sched_wf_pending [OF B] s(2) z(1) z(1) z(1)] z(2) by auto
  show thesis
    using post s l z(2) by (intro that [of e ps])
      (simp_all add: ConjunctPeriods_def Let_def disjunct_post_def sched_wf_def min_steps_def min_growth_def)
qed

section \<open>Aligning and counting\<close>

lemma stretch_first_steps:
  assumes "sched_wf C s ps" "0 \<le> s'" "s' \<le> s"
  shows "ps \<noteq> [] \<Longrightarrow> sched_wf C s' (stretch_first (wrap64 (s - s')) ps)"
    "ps \<noteq> [] \<Longrightarrow> s' + total_length (stretch_first (wrap64 (s - s')) ps) = s + total_length ps"
    "steps f s' (stretch_first (wrap64 (s - s')) ps) t = steps f s ps t"
proof -
  have "s < 2 ^ 63"
    using assms total_length_nonneg [of C ps] by (simp add: sched_wf_def)
  then have w: "wrap64 (s - s') = s - s'"
    using assms by simp
  have "wrap64 (p_Length p + (s - s')) = p_Length p + (s - s')" if "ps = p # ps'" for p ps'
    using assms that total_length_nonneg [of C ps'] by (intro wrap64_in_range) (auto simp: sched_wf_def)
  then show "ps \<noteq> [] \<Longrightarrow> sched_wf C s' (stretch_first (wrap64 (s - s')) ps)"
    "ps \<noteq> [] \<Longrightarrow> s' + total_length (stretch_first (wrap64 (s - s')) ps) = s + total_length ps"
    "steps f s' (stretch_first (wrap64 (s - s')) ps) t = steps f s ps t"
    using assms by (auto simp: stretch_first_def w sched_wf_def neq_Nil_conv add.commute split: list.split)
qed

lemma ReadPastPeriodCount_take:
  assumes wf: "sched_wf C s ps" and e: "s + total_length ps \<le> e" and m: "m = ReadPastPeriodCount s e ps t"
  shows "m \<le> length ps" "sched_wf C s (take m ps)"
    "steps f s (take m ps) t' = (if t \<le> s then 0 else steps f s ps (min t t'))"
proof -
  have ps: "periods_ok C ps" "0 \<le> s" "s + total_length ps < 2 ^ 63"
    using wf by (simp_all add: sched_wf_def)
  have *: "m \<le> length ps \<and> steps f s (take m ps) t' = (if t \<le> s then 0 else steps f s ps (min t t'))"
  proof (cases "s < t \<and> t < e")
    case True
    then show ?thesis
      using count_loop_take [OF ps, of t 0 f] m by (auto simp: ReadPastPeriodCount_def)
  next
    case False
    then show ?thesis
      using m e steps_after [OF ps(1), of s _ f] by (auto simp: ReadPastPeriodCount_def min_def)
  qed
  then show "m \<le> length ps" "steps f s (take m ps) t' = (if t \<le> s then 0 else steps f s ps (min t t'))"
    by simp_all
  have "periods_ok C (take m ps)" "periods_ok C (drop m ps)"
    using ps(1) by (auto simp: periods_ok_def dest: in_set_takeD in_set_dropD)
  moreover have "total_length (take m ps) + total_length (drop m ps) = total_length ps"
    unfolding total_length_def by (metis append_take_drop_id map_append sum_list_append)
  ultimately show "sched_wf C s (take m ps)"
    using ps total_length_nonneg [of C "drop m ps"] by (simp add: sched_wf_def)
qed

text \<open>C38. Combining vesting schedules.  Read as step functions of time, in every denomination, the union that \<open>DisjunctPeriods\<close>
  computes is the sum of the two schedules and the schedule of \<open>ConjunctPeriods\<close> is their minimum; both start at the earlier
  start, end with their last event, stay within \<open>int64\<close>, and the panic of a negative subtraction is never reached.  Reading a
  schedule with \<open>ReadSchedule\<close> gives the step function, and nothing up to its start.\<close>

theorem combined_schedules_correct:
  assumes C: "coins_laws C" and wf: "sched_wf C sA as" "sched_wf C sB bs"
  shows "\<exists>e ps e' ps'. DisjunctPeriods C sA sB as bs = (min sA sB, e, ps) \<and> e = min sA sB + total_length ps \<and>
      ConjunctPeriods C sA sB as bs = Some (min sA sB, e', ps') \<and> e' = min sA sB + total_length ps' \<and>
      sched_wf C (min sA sB) ps \<and> sched_wf C (min sA sB) ps' \<and>
      (\<forall>d t. steps (\<lambda>c. AmountOf C c d) (min sA sB) ps t = steps (\<lambda>c. AmountOf C c d) sA as t + steps (\<lambda>c. AmountOf C c d) sB bs t) \<and>
      (\<forall>d t. steps (\<lambda>c. AmountOf C c d) (min sA sB) ps' t = min (steps (\<lambda>c. AmountOf C c d) sA as t) (steps (\<lambda>c. AmountOf C c d) sB bs t)) \<and>
      (\<forall>d t. AmountOf C (ReadSchedule C (min sA sB) e ps (TotalAmount C ps) t) d =
         (if t \<le> min sA sB then 0 else steps (\<lambda>c. AmountOf C c d) sA as t + steps (\<lambda>c. AmountOf C c d) sB bs t))"
proof -
  obtain s e ps where d: "DisjunctPeriods C sA sB as bs = (s, e, ps)"
    by (metis prod_cases3)
  note u = DisjunctPeriods_steps [OF C wf d]
  obtain e' ps' where c: "ConjunctPeriods C sA sB as bs = Some (min sA sB, e', ps')" "sched_wf C (min sA sB) ps'"
    "e' = min sA sB + total_length ps'" "\<And>d t. steps (\<lambda>c. AmountOf C c d) (min sA sB) ps' t =
      min (steps (\<lambda>c. AmountOf C c d) sA as t) (steps (\<lambda>c. AmountOf C c d) sB bs t)"
    using ConjunctPeriods_steps [OF C wf] by blast
  have "AmountOf C (TotalAmount C ps) d = total_amount (\<lambda>c. AmountOf C c d) ps" for d
    using coins_total_ok(2) [OF C] u(2) by (simp add: sched_wf_def)
  then have r: "AmountOf C (ReadSchedule C s e ps (TotalAmount C ps) t) d =
      (if t \<le> s then 0 else steps (\<lambda>c. AmountOf C c d) sA as t + steps (\<lambda>c. AmountOf C c d) sB bs t)" for d t
    using ReadSchedule_steps [OF C u(2)] u(3,4) by simp
  have "DisjunctPeriods C sA sB as bs = (min sA sB, e, ps)"
    by (simp add: d u(1))
  then show ?thesis
    using c u(2-4) r unfolding u(1) by blast
qed

theorem combined_schedules_correct_witness:
  "coins_laws list_coins \<and> sched_wf list_coins 100 [\<lparr>p_Length = 10, p_Amount = [(''ahpx'', 5)]\<rparr>] \<and>
   sched_wf list_coins 90 [\<lparr>p_Length = 10, p_Amount = [(''ahpx'', 3)]\<rparr>, \<lparr>p_Length = 20, p_Amount = [(''aevmos'', 4)]\<rparr>] \<and>
   (\<exists>e ps. DisjunctPeriods list_coins 100 90 [\<lparr>p_Length = 10, p_Amount = [(''ahpx'', 5)]\<rparr>]
      [\<lparr>p_Length = 10, p_Amount = [(''ahpx'', 3)]\<rparr>, \<lparr>p_Length = 20, p_Amount = [(''aevmos'', 4)]\<rparr>] = (90, e, ps))"
proof -
  have h: "sched_wf list_coins 100 [\<lparr>p_Length = 10, p_Amount = [(''ahpx'', 5)]\<rparr>]"
    "sched_wf list_coins 90 [\<lparr>p_Length = 10, p_Amount = [(''ahpx'', 3)]\<rparr>, \<lparr>p_Length = 20, p_Amount = [(''aevmos'', 4)]\<rparr>]"
    by (simp_all add: sched_wf_def list_coins_def)
  show ?thesis
    using h list_coins_laws combined_schedules_correct [OF list_coins_laws h] by auto
qed

end
