(* ===== verification/Vesting_Account.thy ===== *)
theory Vesting_Account
  imports Vesting_Schedule
begin

text \<open>
  The clawback vesting account (\<open>x/vesting/types/clawback_vesting_account.go\<close>): coins that vest by one schedule and unlock by
  another, both from the same start, and that the funder can claw back while they have not vested.  Times are Unix seconds.
  A subtraction of coins that would go negative panics in the SDK; the methods that subtract return None for it.

  \<open>account_ok\<close> is the invariant of an account with grants: both schedules are in range, end by the end time of the account and
  distribute exactly the original vesting.
\<close>

record ('b, 'c) ClawbackVestingAccount =
  BaseAccount :: 'b
  OriginalVesting :: 'c
  DelegatedFree :: 'c
  DelegatedVesting :: 'c
  EndTime :: int
  FunderAddress :: string
  va_StartTime :: int
  LockupPeriods :: "'c Period list"
  VestingPeriods :: "'c Period list"

definition NewClawbackVestingAccount ::
  "'c SdkCoins \<Rightarrow> 'b \<Rightarrow> string \<Rightarrow> 'c \<Rightarrow> int \<Rightarrow> 'c Period list \<Rightarrow> 'c Period list \<Rightarrow> ('b, 'c) ClawbackVestingAccount" where
  "NewClawbackVestingAccount C baseAcc funder originalVesting startTime lockupPeriods vestingPeriods =
     (let (_, endTime, lp, vp) = AlignSchedules C startTime startTime lockupPeriods vestingPeriods
      in \<lparr>BaseAccount = baseAcc, OriginalVesting = originalVesting, DelegatedFree = NewCoins C, DelegatedVesting = NewCoins C,
          EndTime = endTime, FunderAddress = funder, va_StartTime = startTime, LockupPeriods = lp, VestingPeriods = vp\<rparr>)"

definition GetUnlockedCoins :: "'c SdkCoins \<Rightarrow> ('b, 'c) ClawbackVestingAccount \<Rightarrow> int \<Rightarrow> 'c" where
  "GetUnlockedCoins C va blockTime =
     ReadSchedule C (va_StartTime va) (EndTime va) (LockupPeriods va) (OriginalVesting va) blockTime"

definition GetVestedCoins :: "'c SdkCoins \<Rightarrow> ('b, 'c) ClawbackVestingAccount \<Rightarrow> int \<Rightarrow> 'c" where
  "GetVestedCoins C va blockTime =
     ReadSchedule C (va_StartTime va) (EndTime va) (VestingPeriods va) (OriginalVesting va) blockTime"

definition GetLockedUpCoins :: "'c SdkCoins \<Rightarrow> ('b, 'c) ClawbackVestingAccount \<Rightarrow> int \<Rightarrow> 'c option" where
  "GetLockedUpCoins C va blockTime = c_Sub C (OriginalVesting va) (GetUnlockedCoins C va blockTime)"

definition GetVestingCoins :: "'c SdkCoins \<Rightarrow> ('b, 'c) ClawbackVestingAccount \<Rightarrow> int \<Rightarrow> 'c option" where
  "GetVestingCoins C va blockTime = c_Sub C (OriginalVesting va) (GetVestedCoins C va blockTime)"

definition GetUnlockedVestedCoins :: "'c SdkCoins \<Rightarrow> ('b, 'c) ClawbackVestingAccount \<Rightarrow> int \<Rightarrow> 'c" where
  "GetUnlockedVestedCoins C va blockTime =
     (let coins = c_Min C (GetUnlockedCoins C va blockTime) (GetVestedCoins C va blockTime)
      in if c_IsZero C coins then NewCoins C else coins)"

definition GetLockedUpVestedCoins :: "'c SdkCoins \<Rightarrow> ('b, 'c) ClawbackVestingAccount \<Rightarrow> int \<Rightarrow> 'c option" where
  "GetLockedUpVestedCoins C va blockTime = c_Sub C (GetVestedCoins C va blockTime) (GetUnlockedVestedCoins C va blockTime)"

definition LockedCoins :: "'c SdkCoins \<Rightarrow> ('b, 'c) ClawbackVestingAccount \<Rightarrow> int \<Rightarrow> 'c option" where
  "LockedCoins C va blockTime =
     (case GetLockedUpVestedCoins C va blockTime of
        None \<Rightarrow> None
      | Some lockedUpVested \<Rightarrow>
          let lockedUpVestedDelegatedCoins = c_Min C (DelegatedFree va) lockedUpVested;
              (res, isNeg) = c_SafeSub C (OriginalVesting va)
                               (c_Add C (GetUnlockedVestedCoins C va blockTime) lockedUpVestedDelegatedCoins)
          in Some (if isNeg then NewCoins C else res))"

primrec track_loop :: "'c SdkCoins \<Rightarrow> 'c \<Rightarrow> ('b, 'c) ClawbackVestingAccount \<Rightarrow> (string \<times> int) list \<Rightarrow>
    (string, ('b, 'c) ClawbackVestingAccount) result" where
  "track_loop C balance va [] = Inr va"
| "track_loop C balance va (coin # coins) =
     (let baseAmt = AmountOf C balance (fst coin) in
      if snd coin = 0 \<or> baseAmt < snd coin then Inl ''delegation attempt with zero coins or insufficient funds''
      else track_loop C balance (va\<lparr>DelegatedFree := c_Add C (DelegatedFree va) (OfCoin C coin)\<rparr>) coins)"

definition TrackDelegation :: "'c SdkCoins \<Rightarrow> ('b, 'c) ClawbackVestingAccount \<Rightarrow> 'c \<Rightarrow> 'c \<Rightarrow>
    (string, ('b, 'c) ClawbackVestingAccount) result" where
  "TrackDelegation C va balance amount = track_loop C balance va (CoinList C amount)"

definition GetPassedPeriodCount :: "('b, 'c) ClawbackVestingAccount \<Rightarrow> int \<Rightarrow> nat" where
  "GetPassedPeriodCount va blockTime = ReadPastPeriodCount (va_StartTime va) (EndTime va) (VestingPeriods va) blockTime"

definition ComputeClawback ::
  "'c SdkCoins \<Rightarrow> ('b, 'c) ClawbackVestingAccount \<Rightarrow> int \<Rightarrow> (('b, 'c) ClawbackVestingAccount \<times> 'c) option" where
  "ComputeClawback C va clawbackTime =
     (let totalVested = GetVestedCoins C va clawbackTime in
      case GetVestingCoins C va clawbackTime of
        None \<Rightarrow> None
      | Some totalUnvested \<Rightarrow>
          let passedPeriodID = GetPassedPeriodCount va clawbackTime;
              newVestingPeriods = take passedPeriodID (VestingPeriods va);
              newVestingEnd = wrap64 (va_StartTime va + TotalLength C newVestingPeriods);
              capPeriods = [\<lparr>p_Length = 0, p_Amount = totalVested\<rparr>]
          in
          case ConjunctPeriods C (va_StartTime va) (va_StartTime va) (LockupPeriods va) capPeriods of
            None \<Rightarrow> None
          | Some (_, newLockingEnd, newLockupPeriods) \<Rightarrow>
              Some (va\<lparr>OriginalVesting := totalVested, EndTime := Max64 newVestingEnd newLockingEnd,
                       LockupPeriods := newLockupPeriods, VestingPeriods := newVestingPeriods\<rparr>, totalUnvested))"

definition HasLockedCoins :: "'c SdkCoins \<Rightarrow> ('b, 'c) ClawbackVestingAccount \<Rightarrow> int \<Rightarrow> bool option" where
  "HasLockedCoins C va blockTime = map_option (\<lambda>c. \<not> c_IsZero C c) (GetLockedUpCoins C va blockTime)"

text \<open>\<open>Validate\<close> ends with the check of the embedded SDK account, \<open>baseValidate\<close>.\<close>

primrec sum_periods :: "'c SdkCoins \<Rightarrow> int \<Rightarrow> 'c \<Rightarrow> 'c Period list \<Rightarrow> int \<times> 'c" where
  "sum_periods C e coins [] = (e, coins)"
| "sum_periods C e coins (p # ps) = sum_periods C (wrap64 (e + p_Length p)) (c_Add C coins (p_Amount p)) ps"

definition va_Validate ::
  "'c SdkCoins \<Rightarrow> (('b, 'c) ClawbackVestingAccount \<Rightarrow> (string, unit) result) \<Rightarrow> ('b, 'c) ClawbackVestingAccount \<Rightarrow> (string, unit) result" where
  "va_Validate C baseValidate va =
     (if va_StartTime va \<ge> EndTime va then Inl ''vesting start-time must be before end-time''
      else
        let (lockupEnd, lockupCoins) = sum_periods C (va_StartTime va) (NewCoins C) (LockupPeriods va) in
        if lockupEnd > EndTime va then Inl ''lockup schedule extends beyond account end time''
        else if \<not> CoinEq C lockupCoins (OriginalVesting va)
        then Inl ''original vesting coins does not match the sum of all coins in lockup periods''
        else
          let (vestingEnd, vestingCoins) = sum_periods C (va_StartTime va) (NewCoins C) (VestingPeriods va) in
          if vestingEnd > EndTime va then Inl ''vesting schedule extends beyond account end time''
          else if \<not> CoinEq C vestingCoins (OriginalVesting va)
          then Inl ''original vesting coins does not match the sum of all coins in vesting periods''
          else baseValidate va)"

section \<open>The invariant of an account\<close>

definition account_ok :: "'c SdkCoins \<Rightarrow> ('b, 'c) ClawbackVestingAccount \<Rightarrow> bool" where
  "account_ok C va \<longleftrightarrow>
     sched_wf C (va_StartTime va) (LockupPeriods va) \<and> sched_wf C (va_StartTime va) (VestingPeriods va) \<and>
     va_StartTime va + total_length (LockupPeriods va) \<le> EndTime va \<and>
     va_StartTime va + total_length (VestingPeriods va) \<le> EndTime va \<and>
     c_IsValid C (OriginalVesting va) \<and>
     (\<forall>d. total_amount (\<lambda>c. AmountOf C c d) (LockupPeriods va) = AmountOf C (OriginalVesting va) d) \<and>
     (\<forall>d. total_amount (\<lambda>c. AmountOf C c d) (VestingPeriods va) = AmountOf C (OriginalVesting va) d)"

text \<open>Amounts vested and unlocked at a time.\<close>

definition vested_at :: "'c SdkCoins \<Rightarrow> ('b, 'c) ClawbackVestingAccount \<Rightarrow> string \<Rightarrow> int \<Rightarrow> int" where
  "vested_at C va d t = AmountOf C (GetVestedCoins C va t) d"

definition unlocked_at :: "'c SdkCoins \<Rightarrow> ('b, 'c) ClawbackVestingAccount \<Rightarrow> string \<Rightarrow> int \<Rightarrow> int" where
  "unlocked_at C va d t = AmountOf C (GetUnlockedCoins C va t) d"

lemma account_okD:
  assumes "account_ok C va"
  shows "sched_wf C (va_StartTime va) (LockupPeriods va)" "sched_wf C (va_StartTime va) (VestingPeriods va)"
    "va_StartTime va + total_length (LockupPeriods va) \<le> EndTime va" "va_StartTime va + total_length (VestingPeriods va) \<le> EndTime va"
    "c_IsValid C (OriginalVesting va)"
    "AmountOf C (OriginalVesting va) d = total_amount (\<lambda>c. AmountOf C c d) (LockupPeriods va)"
    "AmountOf C (OriginalVesting va) d = total_amount (\<lambda>c. AmountOf C c d) (VestingPeriods va)"
  using assms by (simp_all add: account_ok_def)

lemma account_at:
  assumes C: "coins_laws C" and ok: "account_ok C va"
  shows "c_IsValid C (GetVestedCoins C va t)" "c_IsValid C (GetUnlockedCoins C va t)"
    "vested_at C va d t = (if t \<le> va_StartTime va then 0 else steps (\<lambda>c. AmountOf C c d) (va_StartTime va) (VestingPeriods va) t)"
    "unlocked_at C va d t = (if t \<le> va_StartTime va then 0 else steps (\<lambda>c. AmountOf C c d) (va_StartTime va) (LockupPeriods va) t)"
    "0 \<le> vested_at C va d t" "vested_at C va d t \<le> AmountOf C (OriginalVesting va) d"
    "0 \<le> unlocked_at C va d t" "unlocked_at C va d t \<le> AmountOf C (OriginalVesting va) d"
proof -
  note D = account_okD [OF ok]
  show "c_IsValid C (GetVestedCoins C va t)" "c_IsValid C (GetUnlockedCoins C va t)"
    unfolding GetVestedCoins_def GetUnlockedCoins_def using C D by (simp_all add: ReadSchedule_valid)
  show v: "vested_at C va d t = (if t \<le> va_StartTime va then 0 else steps (\<lambda>c. AmountOf C c d) (va_StartTime va) (VestingPeriods va) t)"
    and u: "unlocked_at C va d t = (if t \<le> va_StartTime va then 0 else steps (\<lambda>c. AmountOf C c d) (va_StartTime va) (LockupPeriods va) t)"
    unfolding vested_at_def unlocked_at_def GetVestedCoins_def GetUnlockedCoins_def
    by (rule ReadSchedule_steps [OF C D(2,4,7)], rule ReadSchedule_steps [OF C D(1,3,6)])
  show "0 \<le> vested_at C va d t" "vested_at C va d t \<le> AmountOf C (OriginalVesting va) d"
    "0 \<le> unlocked_at C va d t" "unlocked_at C va d t \<le> AmountOf C (OriginalVesting va) d"
    using D steps_bounds [OF C, of "VestingPeriods va" d "va_StartTime va" t] steps_bounds [OF C, of "LockupPeriods va" d "va_StartTime va" t]
      coins_lawsD(3) [OF C D(5), of d] by (auto simp: v u sched_wf_def)
qed

lemma unlocked_vested_at:
  assumes C: "coins_laws C" and ok: "account_ok C va"
  shows "c_IsValid C (GetUnlockedVestedCoins C va t)"
    "AmountOf C (GetUnlockedVestedCoins C va t) d = min (unlocked_at C va d t) (vested_at C va d t)"
proof -
  let ?m = "c_Min C (GetUnlockedCoins C va t) (GetVestedCoins C va t)"
  note v = account_at(1,2) [OF C ok, where t = t]
  have m: "c_IsValid C ?m" "\<And>d. AmountOf C ?m d = min (unlocked_at C va d t) (vested_at C va d t)"
    using coins_lawsD(6,7) [OF C v(2,1)] by (simp_all add: unlocked_at_def vested_at_def)
  then show "c_IsValid C (GetUnlockedVestedCoins C va t)"
    "AmountOf C (GetUnlockedVestedCoins C va t) d = min (unlocked_at C va d t) (vested_at C va d t)"
    using coins_lawsD(1,2,9) [OF C] by (simp_all add: GetUnlockedVestedCoins_def Let_def)
qed

text \<open>Locked coins of a clawback vesting account.  Of the original vesting exactly the coins that are both vested and unlocked
  can be spent; of the vested coins that are still locked up, as many as were delegated no longer count as locked.  So the coins
  that have not vested are always locked, whatever has been delegated, no subtraction of the method panics and its
  safety check for a negative result never applies.\<close>

lemma LockedCoins_spec:
  assumes C: "coins_laws C" and ok: "account_ok C va" and df: "c_IsValid C (DelegatedFree va)"
  shows "\<exists>c. LockedCoins C va t = Some c \<and> c_IsValid C c \<and>
    (\<forall>d. AmountOf C c d = AmountOf C (OriginalVesting va) d - min (unlocked_at C va d t) (vested_at C va d t) -
        min (AmountOf C (DelegatedFree va) d) (vested_at C va d t - min (unlocked_at C va d t) (vested_at C va d t)) \<and>
      AmountOf C (OriginalVesting va) d - vested_at C va d t \<le> AmountOf C c d)"
proof -
  note uv = unlocked_vested_at [OF C ok, where t = t] and at = account_at [OF C ok, where t = t]
  let ?uv = "GetUnlockedVestedCoins C va t"
  obtain lv where lv: "GetLockedUpVestedCoins C va t = Some lv" "c_IsValid C lv"
    "\<And>d. AmountOf C lv d = vested_at C va d t - min (unlocked_at C va d t) (vested_at C va d t)"
    using coins_sub [OF C at(1) uv(1)] uv(2) by (metis GetLockedUpVestedCoins_def min.cobounded2 vested_at_def)
  let ?m = "c_Min C (DelegatedFree va) lv"
  note m = coins_lawsD(6,7) [OF C df lv(2)]
  note s = coins_lawsD(4,5) [OF C uv(1) m(1)]
  have "AmountOf C (c_Add C ?uv ?m) d \<le> AmountOf C (OriginalVesting va) d" for d
    using at(6) [of d] by (simp add: s(2) m(2) uv(2) lv(3))
  then obtain c where c: "c_SafeSub C (OriginalVesting va) (c_Add C ?uv ?m) = (c, False)" "c_IsValid C c"
    "\<And>d. AmountOf C c d = AmountOf C (OriginalVesting va) d - AmountOf C (c_Add C ?uv ?m) d"
    using coins_sub [OF C account_okD(5) [OF ok] s(1)] by metis
  have "LockedCoins C va t = Some c"
    by (simp add: LockedCoins_def lv(1) c(1) Let_def)
  then show ?thesis
    using c(2) by (auto simp: c(3) s(2) m(2) uv(2) lv(3))
qed

section \<open>Clawback\<close>

text \<open>The total of a schedule is its value at any time after its end.\<close>

lemma total_amount_late:
  assumes "sched_wf C s ps" "s + total_length ps \<le> t"
  shows "total_amount f ps = steps f s ps t"
  using steps_after [of C ps s t f] assms by (simp add: sched_wf_def)

lemma cap_lockup:
  assumes C: "coins_laws C" and wf: "sched_wf C s ls" and v: "c_IsValid C v"
    and le: "\<And>d. AmountOf C v d \<le> total_amount (\<lambda>c. AmountOf C c d) ls"
  obtains e ps where "ConjunctPeriods C s s ls [\<lparr>p_Length = 0, p_Amount = v\<rparr>] = Some (s, e, ps)" "sched_wf C s ps" "e = s + total_length ps"
    "\<And>d. total_amount (\<lambda>c. AmountOf C c d) ps = AmountOf C v d"
    "\<And>d t. s \<le> t \<Longrightarrow> steps (\<lambda>c. AmountOf C c d) s ps t = min (steps (\<lambda>c. AmountOf C c d) s ls t) (AmountOf C v d)"
proof -
  have cap: "sched_wf C s [\<lparr>p_Length = 0, p_Amount = v\<rparr>]"
    using wf v total_length_nonneg [of C ls] by (simp add: sched_wf_def)
  obtain e ps where ps: "ConjunctPeriods C s s ls [\<lparr>p_Length = 0, p_Amount = v\<rparr>] = Some (s, e, ps)" "sched_wf C s ps" "e = s + total_length ps"
    and st: "\<And>d t. steps (\<lambda>c. AmountOf C c d) s ps t =
      min (steps (\<lambda>c. AmountOf C c d) s ls t) (steps (\<lambda>c. AmountOf C c d) s [\<lparr>p_Length = 0, p_Amount = v\<rparr>] t)"
    using ConjunctPeriods_steps [OF C wf cap] by (metis min.idem)
  have st': "s \<le> t \<Longrightarrow> steps (\<lambda>c. AmountOf C c d) s ps t = min (steps (\<lambda>c. AmountOf C c d) s ls t) (AmountOf C v d)" for d t
    by (simp add: st)
  let ?t = "max (s + total_length ps) (s + total_length ls)"
  have "s \<le> ?t"
    using wf total_length_nonneg [of C ls] by (auto simp: sched_wf_def)
  then have "total_amount (\<lambda>c. AmountOf C c d) ps = AmountOf C v d" for d
    using total_amount_late [OF ps(2), of ?t] total_amount_late [OF wf, of ?t] st' [of ?t d] le [of d] by simp
  then show thesis
    using that ps st' by blast
qed

lemma ComputeClawback_spec:
  assumes C: "coins_laws C" and ok: "account_ok C va"
  shows "\<exists>va' coins. ComputeClawback C va t = Some (va', coins) \<and> account_ok C va' \<and> c_IsValid C coins \<and>
    BaseAccount va' = BaseAccount va \<and>
    (\<forall>d. AmountOf C coins d = AmountOf C (OriginalVesting va) d - vested_at C va d t \<and>
       AmountOf C (OriginalVesting va') d = vested_at C va d t) \<and>
    (\<forall>d t'. vested_at C va' d t' = vested_at C va d (min t t') \<and>
       unlocked_at C va' d t' = min (unlocked_at C va d t') (vested_at C va d t))"
proof -
  let ?s = "va_StartTime va" and ?v = "GetVestedCoins C va t" and ?m = "GetPassedPeriodCount va t"
  let ?vp = "take ?m (VestingPeriods va)"
  note D = account_okD [OF ok] and at = account_at [OF C ok]
  obtain coins where coins: "GetVestingCoins C va t = Some coins" "c_IsValid C coins"
    "\<And>d. AmountOf C coins d = AmountOf C (OriginalVesting va) d - vested_at C va d t"
    using coins_sub [OF C D(5) at(1)] at(6) by (metis GetVestingCoins_def vested_at_def)
  obtain e lp where lp: "ConjunctPeriods C ?s ?s (LockupPeriods va) [\<lparr>p_Length = 0, p_Amount = ?v\<rparr>] = Some (?s, e, lp)"
    "sched_wf C ?s lp" "e = ?s + total_length lp" "\<And>d. total_amount (\<lambda>c. AmountOf C c d) lp = AmountOf C ?v d"
    "\<And>d t'. ?s \<le> t' \<Longrightarrow> steps (\<lambda>c. AmountOf C c d) ?s lp t' = min (steps (\<lambda>c. AmountOf C c d) ?s (LockupPeriods va) t') (AmountOf C ?v d)"
    using cap_lockup [OF C D(1) at(1) [of t]] at(6) D(6) by (metis vested_at_def)
  note count = ReadPastPeriodCount_take [OF D(2,4) GetPassedPeriodCount_def [of va t]]
  have vp: "total_amount (\<lambda>c. AmountOf C c d) ?vp = AmountOf C ?v d" for d
    using total_amount_late [OF count(2), of "max t (?s + total_length ?vp)"] count(3) at(3) by (simp add: vested_at_def)
  have len: "TotalLength C ?vp = total_length ?vp" "wrap64 (?s + total_length ?vp) = ?s + total_length ?vp"
    using count(2) coins_total_ok(3) [OF C] total_length_nonneg [of C ?vp] by (auto simp: sched_wf_def)
  let ?va = "va\<lparr>OriginalVesting := ?v, EndTime := Max64 (?s + total_length ?vp) e, LockupPeriods := lp, VestingPeriods := ?vp\<rparr>"
  have r: "ComputeClawback C va t = Some (?va, coins)"
    by (simp add: ComputeClawback_def Let_def coins(1) lp(1) len)
  have ok': "account_ok C ?va"
    using lp count(2) vp at(1) by (auto simp: account_ok_def Max64_def)
  note at' = account_at [OF C ok']
  have "vested_at C ?va d t' = vested_at C va d (min t t')" "unlocked_at C ?va d t' = min (unlocked_at C va d t') (vested_at C va d t)" for d t'
    using at(7) [of d t'] at(5) [of d t] by (auto simp: at'(3,4) at(3,4) count(3) lp(5) vested_at_def [of C va, symmetric])
  then show ?thesis
    using r ok' coins(2,3) by (auto simp: vested_at_def)
qed

text \<open>C39. Clawback.  Computing a clawback never panics.  It takes exactly the coins that have not vested, and the account that is
  left satisfies the invariant with what had vested as its original vesting: its vesting schedule stops at the time of the clawback
  and its lockup schedule is the old one, capped at the vested amount.  Nothing that had been unlocked and vested is lost.\<close>

theorem clawback_correct:
  assumes C: "coins_laws C" and ok: "account_ok C va"
  shows "\<exists>va' coins. ComputeClawback C va t = Some (va', coins) \<and> account_ok C va' \<and> c_IsValid C coins \<and>
    BaseAccount va' = BaseAccount va \<and>
    (\<forall>d. AmountOf C coins d = AmountOf C (OriginalVesting va) d - vested_at C va d t \<and>
       AmountOf C (OriginalVesting va') d = vested_at C va d t) \<and>
    (\<forall>d t'. vested_at C va' d t' = vested_at C va d (min t t') \<and>
       unlocked_at C va' d t' = min (unlocked_at C va d t') (vested_at C va d t))"
  by (rule ComputeClawback_spec [OF C ok])

text \<open>What \<open>Validate\<close> checks gives the invariant, for periods in range.\<close>

lemma sum_periods_total:
  assumes C: "coins_laws C"
  shows "periods_ok C ps \<Longrightarrow> 0 \<le> s \<Longrightarrow> s + total_length ps < 2 ^ 63 \<Longrightarrow> c_IsValid C coins \<Longrightarrow> sum_periods C s coins ps = (e, r) \<Longrightarrow>
    e = s + total_length ps \<and> c_IsValid C r \<and> (\<forall>d. AmountOf C r d = AmountOf C coins d + total_amount (\<lambda>c. AmountOf C c d) ps)"
proof (induction ps arbitrary: s coins)
  case (Cons p ps)
  have "wrap64 (s + p_Length p) = s + p_Length p"
    using Cons.prems total_length_nonneg [of C ps] by simp
  then show ?case
    using Cons.IH [of "s + p_Length p" "c_Add C coins (p_Amount p)"] Cons.prems coins_lawsD(4,5) [OF C, of coins "p_Amount p"]
    by (auto simp: add.assoc)
qed simp

lemma CoinEq_iff:
  "coins_laws C \<Longrightarrow> c_IsValid C a \<Longrightarrow> c_IsValid C b \<Longrightarrow> CoinEq C a b \<longleftrightarrow> (\<forall>d. AmountOf C a d = AmountOf C b d)"
  by (auto simp: CoinEq_def coins_lawsD(8) order_antisym)

lemma Validate_account_ok:
  assumes C: "coins_laws C" and wf: "sched_wf C (va_StartTime va) (LockupPeriods va)" "sched_wf C (va_StartTime va) (VestingPeriods va)"
    and v: "c_IsValid C (OriginalVesting va)" and r: "va_Validate C baseValidate va = Inr ()"
  shows "account_ok C va"
proof -
  obtain le lc ve vc where l: "sum_periods C (va_StartTime va) (NewCoins C) (LockupPeriods va) = (le, lc)"
    "sum_periods C (va_StartTime va) (NewCoins C) (VestingPeriods va) = (ve, vc)"
    by fastforce
  have b: "periods_ok C (LockupPeriods va)" "0 \<le> va_StartTime va" "va_StartTime va + total_length (LockupPeriods va) < 2 ^ 63"
    "periods_ok C (VestingPeriods va)" "va_StartTime va + total_length (VestingPeriods va) < 2 ^ 63"
    using wf by (simp_all add: sched_wf_def)
  note s = sum_periods_total [OF C b(1-3) coins_lawsD(1) [OF C] l(1)] sum_periods_total [OF C b(4,2,5) coins_lawsD(1) [OF C] l(2)]
  show ?thesis
    using r s v wf by (auto simp: va_Validate_def l Let_def account_ok_def CoinEq_iff [OF C] coins_lawsD(2) [OF C] split: if_splits)
qed

text \<open>A delegation adds its amount to the delegated free coins, or panics on insufficient funds.\<close>

lemma track_loop_adds:
  assumes C: "coins_laws C"
  shows "\<forall>x \<in> set xs. 0 < snd x \<Longrightarrow> c_IsValid C (DelegatedFree va) \<Longrightarrow> track_loop C balance va xs = Inr va' \<Longrightarrow>
    c_IsValid C (DelegatedFree va') \<and> va' = va\<lparr>DelegatedFree := DelegatedFree va'\<rparr> \<and>
    (\<forall>d. AmountOf C (DelegatedFree va') d = AmountOf C (DelegatedFree va) d + (\<Sum>x\<leftarrow>xs. if fst x = d then snd x else 0))"
proof (induction xs arbitrary: va)
  case (Cons x xs)
  have x: "c_IsValid C (OfCoin C x)" "\<And>d. AmountOf C (OfCoin C x) d = (if d = fst x then snd x else 0)"
    using C Cons.prems(1) unfolding coins_laws_def by (cases x; force)+
  note add = coins_lawsD(4,5) [OF C Cons.prems(2) x(1)]
  show ?case
    using Cons.IH [of "va\<lparr>DelegatedFree := c_Add C (DelegatedFree va) (OfCoin C x)\<rparr>"] Cons.prems add
    by (auto simp: x(2) Let_def split: if_splits)
qed simp

section \<open>An account\<close>

definition sample_account :: "(unit, (string \<times> int) list) ClawbackVestingAccount" where
  "sample_account = \<lparr>BaseAccount = (), OriginalVesting = [(''ahpx'', 10)], DelegatedFree = [(''ahpx'', 3)], DelegatedVesting = [],
     EndTime = 150, FunderAddress = ''funder'', va_StartTime = 100, LockupPeriods = [\<lparr>p_Length = 50, p_Amount = [(''ahpx'', 10)]\<rparr>],
     VestingPeriods = [\<lparr>p_Length = 10, p_Amount = [(''ahpx'', 4)]\<rparr>, \<lparr>p_Length = 20, p_Amount = [(''ahpx'', 6)]\<rparr>]\<rparr>"

lemma sample_account_ok: "account_ok list_coins sample_account"
  by (auto simp: account_ok_def sample_account_def sched_wf_def coin_amount_def)

lemma sample_vested: "vested_at list_coins sample_account ''ahpx'' 115 = 4"
  by (simp add: account_at(3) [OF list_coins_laws sample_account_ok]) (simp add: sample_account_def coin_amount_def)

theorem clawback_correct_witness:
  "coins_laws list_coins \<and> account_ok list_coins sample_account \<and>
   (\<exists>va' coins. ComputeClawback list_coins sample_account 115 = Some (va', coins) \<and> AmountOf list_coins coins ''ahpx'' = 6)"
proof -
  have a: "AmountOf list_coins (OriginalVesting sample_account) ''ahpx'' = 10"
    by (simp add: sample_account_def coin_amount_def)
  obtain va' coins where "ComputeClawback list_coins sample_account 115 = Some (va', coins)"
    "AmountOf list_coins coins ''ahpx'' = AmountOf list_coins (OriginalVesting sample_account) ''ahpx'' - vested_at list_coins sample_account ''ahpx'' 115"
    using clawback_correct [OF list_coins_laws sample_account_ok, of 115] by blast
  then show ?thesis
    using list_coins_laws sample_account_ok a sample_vested by simp
qed

end
