(* ===== verification/Vesting_Keeper.thy ===== *)
theory Vesting_Keeper
  imports Vesting_Account KV_Store
begin

text \<open>
  The keeper of the vesting module (\<open>x/vesting/keeper\<close>): the message server, the store entries for governance clawback and the
  governance hooks.  Accounts, balances, delegations and proposals belong to modules of the SDK; they are reached through
  the functions of \<open>VestKeeper\<close>, whose state is \<open>v_env\<close>.  An account is an Ethereum account with the hexadecimal hash of its code, a
  clawback vesting account, or another kind.  A handler returns the context together with the error or the response; where the Go
  code panics the error is \<open>VestPanic\<close>.

  \<open>acct_laws\<close> states what the module uses of the account and bank keepers: an account that is stored is read back, and transfers
  leave existing accounts alone.
\<close>

section \<open>State\<close>

datatype ('b, 'c, 'o) AccountI =
    EthAccount 'b string
  | Clawback_Account "('b, 'c) ClawbackVestingAccount"
  | OtherAccount 'o

datatype prop_msg = ClawbackProposal string | OtherMsg

record 'c Proposal =
  pr_Msgs :: "(string, prop_msg list) result"
  pr_TotalDeposit :: 'c

datatype VestErr =
    VestUnauthorized string
  | VestInvalidRequest string
  | VestInvalidAddress string
  | VestInvalidCoins
  | VestUnknownAddress string
  | VestNotSubjectToClawback
  | VestNotSubjectToGovClawback
  | VestLockup
  | VestSdk string
  | VestPanic string

datatype 'c vest_event =
    EvCreate string string
  | EvFund string 'c int string
  | EvClawback string string bytes
  | EvUpdateFunder string string string

record ('e, 'c) vctx =
  v_store :: "unit kv"
  v_time :: int
  v_env :: 'e
  v_events :: "'c vest_event list"

record ('e, 'b, 'c, 'o) VestKeeper =
  vk_Coins :: "'c SdkCoins"
  vk_GetAccount :: "'e \<Rightarrow> bytes \<Rightarrow> ('b, 'c, 'o) AccountI option"
  vk_SetAccount :: "'e \<Rightarrow> ('b, 'c, 'o) AccountI \<Rightarrow> 'e"
  vk_GetAddress :: "'b \<Rightarrow> bytes"
  vk_GetModuleAddress :: "string \<Rightarrow> bytes"
  vk_NewModuleAddress :: "string \<Rightarrow> bytes"
  vk_BlockedAddr :: "bytes \<Rightarrow> bool"
  vk_SendCoins :: "'e \<Rightarrow> bytes \<Rightarrow> bytes \<Rightarrow> 'c \<Rightarrow> (string, 'e) result"
  vk_FundCommunityPool :: "'e \<Rightarrow> 'c \<Rightarrow> bytes \<Rightarrow> (string, 'e) result"
  vk_GetDelegatorBonded :: "'e \<Rightarrow> bytes \<Rightarrow> int"
  vk_GetDelegatorUnbonding :: "'e \<Rightarrow> bytes \<Rightarrow> int"
  vk_BondDenom :: "'e \<Rightarrow> string"
  vk_GetProposal :: "'e \<Rightarrow> u64 \<Rightarrow> 'c Proposal option"
  vk_MinDeposit :: "'e \<Rightarrow> 'c"
  vk_IsAllLT :: "'c \<Rightarrow> 'c \<Rightarrow> bool"
  vk_authority :: bytes
  vk_FromBech32 :: "string \<Rightarrow> bytes option"
  vk_String :: "bytes \<Rightarrow> string"
  vk_EmptyCodeHash :: string

text \<open>The Unix time of the zero \<open>time.Time\<close>, which an account that is created without a grant has as its start.\<close>

definition zeroTime_Unix :: int where
  "zeroTime_Unix = - 62135596800"

definition distributionModuleName :: string where
  "distributionModuleName = ''distribution''"

section \<open>Store entries for governance clawback\<close>

definition KeyPrefixGovClawbackDisabledKey :: bytes where
  "KeyPrefixGovClawbackDisabledKey = [1]"

definition KeyPrefixGovClawbackProposalKey :: bytes where
  "KeyPrefixGovClawbackProposalKey = [2]"

definition HasGovClawbackDisabled :: "('e, 'c) vctx \<Rightarrow> bytes \<Rightarrow> bool" where
  "HasGovClawbackDisabled ctx addr = kv_has (v_store ctx) (KeyPrefixGovClawbackDisabledKey @ addr)"

definition SetGovClawbackDisabled :: "('e, 'c) vctx \<Rightarrow> bytes \<Rightarrow> ('e, 'c) vctx" where
  "SetGovClawbackDisabled ctx addr = ctx\<lparr>v_store := kv_set (v_store ctx) (KeyPrefixGovClawbackDisabledKey @ addr) ()\<rparr>"

definition DeleteGovClawbackDisabled :: "('e, 'c) vctx \<Rightarrow> bytes \<Rightarrow> ('e, 'c) vctx" where
  "DeleteGovClawbackDisabled ctx addr = ctx\<lparr>v_store := kv_delete (v_store ctx) (KeyPrefixGovClawbackDisabledKey @ addr)\<rparr>"

definition buildActiveAccountClawbackProposalKey :: "bytes \<Rightarrow> bytes" where
  "buildActiveAccountClawbackProposalKey addr = KeyPrefixGovClawbackProposalKey @ addr"

definition HasActiveClawbackProposal :: "('e, 'c) vctx \<Rightarrow> bytes \<Rightarrow> bool" where
  "HasActiveClawbackProposal ctx addr = kv_has (v_store ctx) (buildActiveAccountClawbackProposalKey addr)"

definition SetActiveClawbackProposal :: "('e, 'c) vctx \<Rightarrow> bytes \<Rightarrow> ('e, 'c) vctx" where
  "SetActiveClawbackProposal ctx addr = ctx\<lparr>v_store := kv_set (v_store ctx) (buildActiveAccountClawbackProposalKey addr) ()\<rparr>"

definition DeleteActiveClawbackProposal :: "('e, 'c) vctx \<Rightarrow> bytes \<Rightarrow> ('e, 'c) vctx" where
  "DeleteActiveClawbackProposal ctx addr = ctx\<lparr>v_store := kv_delete (v_store ctx) (buildActiveAccountClawbackProposalKey addr)\<rparr>"

section \<open>Messages\<close>

record MsgCreateClawback =
  mc_FunderAddress :: string
  mc_VestingAddress :: string
  mc_EnableGovClawback :: bool

record 'c MsgFundVestingAccount =
  mf_FunderAddress :: string
  mf_VestingAddress :: string
  mf_StartTime :: int
  mf_LockupPeriods :: "'c Period list"
  mf_VestingPeriods :: "'c Period list"

record MsgClawback =
  mb_FunderAddress :: string
  mb_AccountAddress :: string
  mb_DestAddress :: string

record MsgUpdateVestingFunder =
  mu_FunderAddress :: string
  mu_NewFunderAddress :: string
  mu_VestingAddress :: string







section \<open>Message server\<close>

definition GetClawbackVestingAccount ::
  "('e, 'b, 'c, 'o) VestKeeper \<Rightarrow> ('e, 'c) vctx \<Rightarrow> bytes \<Rightarrow> (VestErr, ('b, 'c) ClawbackVestingAccount) result" where
  "GetClawbackVestingAccount k ctx addr =
     (case vk_GetAccount k (v_env ctx) addr of
        None \<Rightarrow> Inl (VestUnknownAddress (vk_String k addr))
      | Some (Clawback_Account va) \<Rightarrow> Inr va
      | Some _ \<Rightarrow> Inl VestNotSubjectToClawback)"

definition v_SetAccount :: "('e, 'b, 'c, 'o) VestKeeper \<Rightarrow> ('e, 'c) vctx \<Rightarrow> ('b, 'c, 'o) AccountI \<Rightarrow> ('e, 'c) vctx" where
  "v_SetAccount k ctx acc = ctx\<lparr>v_env := vk_SetAccount k (v_env ctx) acc\<rparr>"

definition v_Emit :: "('e, 'c) vctx \<Rightarrow> 'c vest_event \<Rightarrow> ('e, 'c) vctx" where
  "v_Emit ctx ev = ctx\<lparr>v_events := v_events ctx @ [ev]\<rparr>"

text \<open>The addresses of a message were checked by \<open>ValidateBasic\<close>; \<open>MustAccAddressFromBech32\<close> panics on another one.\<close>

definition CreateClawbackVestingAccount ::
  "('e, 'b, 'c, 'o) VestKeeper \<Rightarrow> ('e, 'c) vctx \<Rightarrow> MsgCreateClawback \<Rightarrow> ('e, 'c) vctx \<times> (VestErr, unit) result" where
  "CreateClawbackVestingAccount k ctx msg =
     (case (vk_FromBech32 k (mc_FunderAddress msg), vk_FromBech32 k (mc_VestingAddress msg)) of
        (Some funderAddress, Some vestingAddress) \<Rightarrow>
          if vk_BlockedAddr k vestingAddress then (ctx, Inl (VestUnauthorized ''blocked address''))
          else
            (case vk_GetAccount k (v_env ctx) vestingAddress of
               None \<Rightarrow> (ctx, Inl (VestInvalidRequest ''account does not exist''))
             | Some (Clawback_Account _) \<Rightarrow> (ctx, Inl (VestInvalidRequest ''already a clawback vesting account''))
             | Some (OtherAccount _) \<Rightarrow> (ctx, Inl (VestInvalidRequest ''not an Ethereum account''))
             | Some (EthAccount baseAcc codeHash) \<Rightarrow>
                 if codeHash \<noteq> vk_EmptyCodeHash k then (ctx, Inl (VestInvalidRequest ''contract account''))
                 else
                   let C = vk_Coins k;
                       vestingAcc = \<lparr>BaseAccount = baseAcc, OriginalVesting = NewCoins C, DelegatedFree = NewCoins C,
                         DelegatedVesting = NewCoins C, EndTime = 0, FunderAddress = vk_String k funderAddress,
                         va_StartTime = zeroTime_Unix, LockupPeriods = [], VestingPeriods = []\<rparr>;
                       ctx = v_SetAccount k ctx (Clawback_Account vestingAcc);
                       ctx = (if \<not> mc_EnableGovClawback msg then SetGovClawbackDisabled ctx (vk_GetAddress k baseAcc) else ctx);
                       ctx = v_Emit ctx (EvCreate (mc_FunderAddress msg) (mc_VestingAddress msg))
                   in (ctx, Inr ()))
      | _ \<Rightarrow> (ctx, Inl (VestPanic ''invalid address'')))"

definition addGrant ::
  "('e, 'b, 'c, 'o) VestKeeper \<Rightarrow> ('e, 'c) vctx \<Rightarrow> ('b, 'c) ClawbackVestingAccount \<Rightarrow> int \<Rightarrow> 'c Period list \<Rightarrow> 'c Period list \<Rightarrow>
   'c \<Rightarrow> (VestErr, ('b, 'c) ClawbackVestingAccount) result" where
  "addGrant k ctx va grantStartTime grantLockupPeriods grantVestingPeriods grantCoins =
     (let C = vk_Coins k;
          va = (if LockupPeriods va = [] \<and> VestingPeriods va = [] then va\<lparr>va_StartTime := grantStartTime\<rparr> else va);
          vestingAddr = vk_GetAddress k (BaseAccount va);
          bondedAmt = vk_GetDelegatorBonded k (v_env ctx) vestingAddr;
          unbondingAmt = vk_GetDelegatorUnbonding k (v_env ctx) vestingAddr;
          delegatedAmt = bondedAmt + unbondingAmt
      in
      if delegatedAmt < 0 then Inl (VestPanic ''negative coin amount'')
      else
        let delegated = OfCoin C (vk_BondDenom k (v_env ctx), delegatedAmt);
            accStartTime = va_StartTime va;
            (newLockupStart, newLockupEnd, newLockupPeriods) =
              DisjunctPeriods C accStartTime grantStartTime (LockupPeriods va) grantLockupPeriods;
            (newVestingStart, newVestingEnd, newVestingPeriods) =
              DisjunctPeriods C accStartTime grantStartTime (VestingPeriods va) grantVestingPeriods
        in
        if newLockupStart \<noteq> newVestingStart then Inl VestLockup
        else
          let va = va\<lparr>va_StartTime := newLockupStart, EndTime := Max64 newLockupEnd newVestingEnd,
                      LockupPeriods := newLockupPeriods, VestingPeriods := newVestingPeriods,
                      OriginalVesting := c_Add C (OriginalVesting va) grantCoins\<rparr>
          in
          case GetVestingCoins C va (v_time ctx) of
            None \<Rightarrow> Inl (VestPanic ''negative coin amount'')
          | Some unvested \<Rightarrow>
              let delegatedVesting = c_Min C delegated unvested in
              case c_Sub C delegated delegatedVesting of
                None \<Rightarrow> Inl (VestPanic ''negative coin amount'')
              | Some delegatedFree \<Rightarrow> Inr (va\<lparr>DelegatedVesting := delegatedVesting, DelegatedFree := delegatedFree\<rparr>))"

text \<open>A schedule that is missing from a grant is one event at its start.\<close>

definition default_periods :: "'c SdkCoins \<Rightarrow> 'c \<Rightarrow> 'c Period list \<Rightarrow> 'c \<Rightarrow> 'c Period list \<times> 'c" where
  "default_periods C other ps coins =
     (if \<not> c_IsZero C other \<and> ps = [] then ([\<lparr>p_Length = 0, p_Amount = other\<rparr>], other) else (ps, coins))"

definition FundVestingAccount ::
  "('e, 'b, 'c, 'o) VestKeeper \<Rightarrow> ('e, 'c) vctx \<Rightarrow> 'c MsgFundVestingAccount \<Rightarrow> ('e, 'c) vctx \<times> (VestErr, unit) result" where
  "FundVestingAccount k ctx msg =
     (case (vk_FromBech32 k (mf_FunderAddress msg), vk_FromBech32 k (mf_VestingAddress msg)) of
        (Some funderAddr, Some vestingAddr) \<Rightarrow>
          if vk_BlockedAddr k vestingAddr then (ctx, Inl (VestUnauthorized ''not allowed to receive funds''))
          else
            (case GetClawbackVestingAccount k ctx vestingAddr of
               Inl err \<Rightarrow> (ctx, Inl err)
             | Inr vestingAcc \<Rightarrow>
                 let C = vk_Coins k;
                     vestingCoins = TotalAmount C (mf_VestingPeriods msg);
                     lockupCoins = TotalAmount C (mf_LockupPeriods msg);
                     (lockupPeriods, lockupCoins) = default_periods C vestingCoins (mf_LockupPeriods msg) lockupCoins;
                     (vestingPeriods, vestingCoins) = default_periods C lockupCoins (mf_VestingPeriods msg) vestingCoins
                 in
                 if mf_FunderAddress msg \<noteq> FunderAddress vestingAcc
                 then (ctx, Inl (VestInvalidRequest ''account can only accept grants from its funder''))
                 else
                   (case addGrant k ctx vestingAcc (mf_StartTime msg) lockupPeriods vestingPeriods vestingCoins of
                      Inl err \<Rightarrow> (ctx, Inl err)
                    | Inr vestingAcc \<Rightarrow>
                        let ctx = v_SetAccount k ctx (Clawback_Account vestingAcc) in
                        (case vk_SendCoins k (v_env ctx) funderAddr vestingAddr vestingCoins of
                           Inl err \<Rightarrow> (ctx, Inl (VestSdk err))
                         | Inr e \<Rightarrow>
                             (v_Emit (ctx\<lparr>v_env := e\<rparr>)
                                (EvFund (mf_FunderAddress msg) vestingCoins (mf_StartTime msg) (mf_VestingAddress msg)), Inr ()))))
      | _ \<Rightarrow> (ctx, Inl (VestPanic ''invalid address'')))"

definition transferClawback ::
  "('e, 'b, 'c, 'o) VestKeeper \<Rightarrow> ('e, 'c) vctx \<Rightarrow> ('b, 'c) ClawbackVestingAccount \<Rightarrow> bytes \<Rightarrow> ('e, 'c) vctx \<times> (VestErr, 'c) result" where
  "transferClawback k ctx vestingAccount destinationAddr =
     (case ComputeClawback (vk_Coins k) vestingAccount (v_time ctx) of
        None \<Rightarrow> (ctx, Inl (VestPanic ''negative coin amount''))
      | Some (updatedAcc, toClawBack) \<Rightarrow>
          let ctx = v_SetAccount k ctx (EthAccount (BaseAccount updatedAcc) (vk_EmptyCodeHash k));
              address = vk_GetAddress k (BaseAccount updatedAcc);
              ctx = DeleteGovClawbackDisabled ctx address;
              sent = (if vk_String k destinationAddr = vk_String k (vk_NewModuleAddress k distributionModuleName)
                      then vk_FundCommunityPool k (v_env ctx) toClawBack address
                      else vk_SendCoins k (v_env ctx) address destinationAddr toClawBack)
          in
          case sent of
            Inl err \<Rightarrow> (ctx, Inl (VestSdk err))
          | Inr e \<Rightarrow> (ctx\<lparr>v_env := e\<rparr>, Inr toClawBack))"

definition Clawback ::
  "('e, 'b, 'c, 'o) VestKeeper \<Rightarrow> ('e, 'c) vctx \<Rightarrow> MsgClawback \<Rightarrow> ('e, 'c) vctx \<times> (VestErr, 'c) result" where
  "Clawback k ctx msg =
     (case (vk_FromBech32 k (mb_AccountAddress msg), vk_FromBech32 k (mb_FunderAddress msg)) of
        (Some addr, Some funder) \<Rightarrow>
          let dest = (if mb_DestAddress msg = [] then funder
                      else (case vk_FromBech32 k (mb_DestAddress msg) of None \<Rightarrow> [] | Some d \<Rightarrow> d));
              gov = (mb_FunderAddress msg = vk_String k (vk_authority k))
          in
          if \<not> gov \<and> HasActiveClawbackProposal ctx addr
          then (ctx, Inl (VestUnauthorized ''clawback is disabled while there is an active clawback proposal''))
          else if \<not> gov \<and> vk_BlockedAddr k dest then (ctx, Inl (VestUnauthorized ''blocked address''))
          else
            (case GetClawbackVestingAccount k ctx addr of
               Inl err \<Rightarrow> (ctx, Inl err)
             | Inr va \<Rightarrow>
                 if VestingPeriods va = [] \<and> LockupPeriods va = []
                 then (ctx, Inl (VestInvalidRequest ''account has no vesting or lockup periods''))
                 else if gov \<and> HasGovClawbackDisabled ctx addr then (ctx, Inl VestNotSubjectToGovClawback)
                 else if \<not> gov \<and> FunderAddress va \<noteq> mb_FunderAddress msg
                 then (ctx, Inl (VestUnauthorized ''clawback can only be requested by original funder''))
                 else
                   let dest = (if gov then vk_GetModuleAddress k distributionModuleName else dest) in
                   (case transferClawback k ctx va dest of
                      (ctx, Inl err) \<Rightarrow> (ctx, Inl err)
                    | (ctx, Inr clawedBack) \<Rightarrow>
                        (v_Emit ctx (EvClawback (mb_FunderAddress msg) (mb_AccountAddress msg) dest), Inr clawedBack)))
      | _ \<Rightarrow> (ctx, Inl (VestPanic ''invalid address'')))"

definition UpdateVestingFunder ::
  "('e, 'b, 'c, 'o) VestKeeper \<Rightarrow> ('e, 'c) vctx \<Rightarrow> MsgUpdateVestingFunder \<Rightarrow> ('e, 'c) vctx \<times> (VestErr, unit) result" where
  "UpdateVestingFunder k ctx msg =
     (case (vk_FromBech32 k (mu_NewFunderAddress msg), vk_FromBech32 k (mu_VestingAddress msg)) of
        (Some newFunder, Some vestingAccAddr) \<Rightarrow>
          if HasActiveClawbackProposal ctx vestingAccAddr
          then (ctx, Inl (VestUnauthorized ''cannot update funder while there is an active clawback proposal''))
          else if vk_BlockedAddr k newFunder then (ctx, Inl (VestUnauthorized ''blocked address''))
          else
            (case GetClawbackVestingAccount k ctx vestingAccAddr of
               Inl err \<Rightarrow> (ctx, Inl err)
             | Inr va \<Rightarrow>
                 if FunderAddress va \<noteq> mu_FunderAddress msg then (ctx, Inl (VestUnauthorized ''not the current funder''))
                 else
                   let ctx = v_SetAccount k ctx (Clawback_Account (va\<lparr>FunderAddress := mu_NewFunderAddress msg\<rparr>)) in
                   (v_Emit ctx (EvUpdateFunder (mu_FunderAddress msg) (mu_VestingAddress msg) (mu_NewFunderAddress msg)), Inr ()))
      | _ \<Rightarrow> (ctx, Inl (VestPanic ''invalid address'')))"

definition ConvertVestingAccount ::
  "('e, 'b, 'c, 'o) VestKeeper \<Rightarrow> ('e, 'c) vctx \<Rightarrow> string \<Rightarrow> ('e, 'c) vctx \<times> (VestErr, unit) result" where
  "ConvertVestingAccount k ctx vestingAddress =
     (case vk_FromBech32 k vestingAddress of
        None \<Rightarrow> (ctx, Inl (VestPanic ''invalid address''))
      | Some address \<Rightarrow>
          (case GetClawbackVestingAccount k ctx address of
             Inl err \<Rightarrow> (ctx, Inl err)
           | Inr vestingAcc \<Rightarrow>
               (case GetVestingCoins (vk_Coins k) vestingAcc (v_time ctx) of
                  None \<Rightarrow> (ctx, Inl (VestPanic ''negative coin amount''))
                | Some vesting \<Rightarrow>
                    if \<not> c_IsZero (vk_Coins k) vesting then (ctx, Inl (VestInvalidRequest ''vesting coins still left in account''))
                    else
                      (case HasLockedCoins (vk_Coins k) vestingAcc (v_time ctx) of
                         None \<Rightarrow> (ctx, Inl (VestPanic ''negative coin amount''))
                       | Some locked \<Rightarrow>
                           if locked then (ctx, Inl (VestInvalidRequest ''locked up coins still left in account''))
                           else
                             (v_SetAccount k (DeleteGovClawbackDisabled ctx address)
                                (EthAccount (BaseAccount vestingAcc) (vk_EmptyCodeHash k)), Inr ())))))"

section \<open>Governance hooks\<close>

definition getClawbackProposals :: "'c Proposal \<Rightarrow> (string, string list) result" where
  "getClawbackProposals proposal =
     (case pr_Msgs proposal of
        Inl err \<Rightarrow> Inl err
      | Inr msgs \<Rightarrow>
          if msgs = [] then Inl ''proposal has no messages''
          else Inr (List.map_filter (\<lambda>m. case m of ClawbackProposal a \<Rightarrow> Some a | OtherMsg \<Rightarrow> None) msgs))"

primrec mark_proposals ::
  "('e, 'b, 'c, 'o) VestKeeper \<Rightarrow> (('e, 'c) vctx \<Rightarrow> bytes \<Rightarrow> ('e, 'c) vctx) \<Rightarrow> ('e, 'c) vctx \<Rightarrow> string list \<Rightarrow> (VestErr, ('e, 'c) vctx) result" where
  "mark_proposals k f ctx [] = Inr ctx"
| "mark_proposals k f ctx (a # as) =
     (case vk_FromBech32 k a of
        None \<Rightarrow> Inl (VestPanic ''invalid address'')
      | Some addr \<Rightarrow> mark_proposals k f (f ctx addr) as)"

definition AfterProposalDeposit ::
  "('e, 'b, 'c, 'o) VestKeeper \<Rightarrow> ('e, 'c) vctx \<Rightarrow> u64 \<Rightarrow> (VestErr, ('e, 'c) vctx) result" where
  "AfterProposalDeposit k ctx proposalID =
     (case vk_GetProposal k (v_env ctx) proposalID of
        None \<Rightarrow> Inr ctx
      | Some proposal \<Rightarrow>
          (case getClawbackProposals proposal of
             Inl _ \<Rightarrow> Inr ctx
           | Inr clawbackProposals \<Rightarrow>
               if clawbackProposals = [] then Inr ctx
               else if vk_IsAllLT k (pr_TotalDeposit proposal) (vk_MinDeposit k (v_env ctx)) then Inr ctx
               else mark_proposals k SetActiveClawbackProposal ctx clawbackProposals))"

definition AfterProposalVotingPeriodEnded ::
  "('e, 'b, 'c, 'o) VestKeeper \<Rightarrow> ('e, 'c) vctx \<Rightarrow> u64 \<Rightarrow> (VestErr, ('e, 'c) vctx) result" where
  "AfterProposalVotingPeriodEnded k ctx proposalID =
     (case vk_GetProposal k (v_env ctx) proposalID of
        None \<Rightarrow> Inr ctx
      | Some proposal \<Rightarrow>
          (case getClawbackProposals proposal of
             Inl _ \<Rightarrow> Inr ctx
           | Inr clawbackProposals \<Rightarrow> mark_proposals k DeleteActiveClawbackProposal ctx clawbackProposals))"

text \<open>A proposal that fails to reach the minimal deposit changes nothing.\<close>

definition AfterProposalFailedMinDeposit :: "('e, 'c) vctx \<Rightarrow> u64 \<Rightarrow> ('e, 'c) vctx" where
  "AfterProposalFailedMinDeposit ctx proposalID = ctx"


section \<open>Queries\<close>

record 'c QueryBalancesResponse =
  qb_Locked :: 'c
  qb_Unvested :: 'c
  qb_Vested :: 'c

definition Balances :: "('e, 'b, 'c, 'o) VestKeeper \<Rightarrow> ('e, 'c) vctx \<Rightarrow> string \<Rightarrow> (VestErr, 'c QueryBalancesResponse) result" where
  "Balances k ctx address =
     (case vk_FromBech32 k address of
        None \<Rightarrow> Inl (VestInvalidRequest ''invalid address'')
      | Some addr \<Rightarrow>
          (case GetClawbackVestingAccount k ctx addr of
             Inl _ \<Rightarrow> Inl (VestInvalidRequest ''account either does not exist or is not a vesting account'')
           | Inr clawbackAccount \<Rightarrow>
               let C = vk_Coins k in
               (case (GetLockedUpCoins C clawbackAccount (v_time ctx), GetVestingCoins C clawbackAccount (v_time ctx)) of
                  (Some locked, Some unvested) \<Rightarrow>
                    Inr \<lparr>qb_Locked = locked, qb_Unvested = unvested, qb_Vested = GetVestedCoins C clawbackAccount (v_time ctx)\<rparr>
                | _ \<Rightarrow> Inl (VestPanic ''negative coin amount''))))"

section \<open>The invariant of the module\<close>

text \<open>What the module uses of the account and bank keepers.\<close>

definition base_of :: "('b, 'c, 'o) AccountI \<Rightarrow> 'b option" where
  "base_of acc = (case acc of EthAccount b _ \<Rightarrow> Some b | Clawback_Account va \<Rightarrow> Some (BaseAccount va) | OtherAccount _ \<Rightarrow> None)"


definition unfunded :: "'c SdkCoins \<Rightarrow> ('b, 'c) ClawbackVestingAccount \<Rightarrow> bool" where
  "unfunded C va \<longleftrightarrow> LockupPeriods va = [] \<and> VestingPeriods va = [] \<and> c_IsValid C (OriginalVesting va) \<and>
     (\<forall>d. AmountOf C (OriginalVesting va) d = 0)"

definition vesting_ok :: "('e, 'b, 'c, 'o) VestKeeper \<Rightarrow> ('e, 'c) vctx \<Rightarrow> bool" where
  "vesting_ok k ctx \<longleftrightarrow>
     (\<forall>a va. vk_GetAccount k (v_env ctx) a = Some (Clawback_Account va) \<longrightarrow>
        unfunded (vk_Coins k) va \<or> account_ok (vk_Coins k) va)"

section \<open>Adding a grant\<close>











section \<open>What the messages do\<close>



lemma base_of_simps [simp]: "base_of (EthAccount b h) = Some b" "base_of (Clawback_Account va) = Some (BaseAccount va)"
  by (simp_all add: base_of_def)

lemma ctx_simps [simp]:
  "v_env (v_SetAccount k ctx acc) = vk_SetAccount k (v_env ctx) acc" "v_env (v_Emit ctx ev) = v_env ctx"
  "v_env (SetGovClawbackDisabled ctx a) = v_env ctx" "v_env (DeleteGovClawbackDisabled ctx a) = v_env ctx"
  "v_env (SetActiveClawbackProposal ctx a) = v_env ctx" "v_env (DeleteActiveClawbackProposal ctx a) = v_env ctx"
  by (simp_all add: v_SetAccount_def v_Emit_def SetGovClawbackDisabled_def DeleteGovClawbackDisabled_def SetActiveClawbackProposal_def
      DeleteActiveClawbackProposal_def)






section \<open>Every reachable account satisfies the invariant\<close>


lemma account_ok_cong [simp]:
  "account_ok C (va\<lparr>DelegatedFree := df, DelegatedVesting := dv, BaseAccount := b\<rparr>) = account_ok C va"
  "unfunded C (va\<lparr>DelegatedFree := df, DelegatedVesting := dv, BaseAccount := b\<rparr>) = unfunded C va"
  "account_ok C (va\<lparr>FunderAddress := f\<rparr>) = account_ok C va" "unfunded C (va\<lparr>FunderAddress := f\<rparr>) = unfunded C va"
  by (simp_all add: account_ok_def unfunded_def)












section \<open>A concrete keeper\<close>

text \<open>Accounts are a list of which the latest entry for an address counts, and balances a list of transfers in and out; a base account is its
  address.\<close>

type_synonym vdemo_coins = "(string \<times> int) list"
type_synonym vdemo_env = "(bytes, vdemo_coins, unit) AccountI list \<times> (bytes \<times> vdemo_coins) list"

definition vdemo_balance :: "vdemo_env \<Rightarrow> bytes \<Rightarrow> vdemo_coins" where
  "vdemo_balance e a = (case map_of (snd e) a of None \<Rightarrow> [] | Some c \<Rightarrow> c)"

definition vdemo_send :: "vdemo_env \<Rightarrow> bytes \<Rightarrow> bytes \<Rightarrow> vdemo_coins \<Rightarrow> (string, vdemo_env) result" where
  "vdemo_send e p q c =
     (if coin_le c (vdemo_balance e p)
      then let e = (fst e, (p, coin_with (-) (vdemo_balance e p) c) # snd e) in Inr (fst e, (q, coin_with (+) (vdemo_balance e q) c) # snd e)
      else Inl ''insufficient funds'')"

definition vdemo_addresses :: "(string \<times> bytes) list" where
  "vdemo_addresses = [(''funder'', [1]), (''grantee'', [2]), (''gov'', [3]), (''distribution'', [4])]"

definition vdemo_keeper :: "(vdemo_env, bytes, vdemo_coins, unit) VestKeeper" where
  "vdemo_keeper = \<lparr>vk_Coins = list_coins, vk_GetAccount = (\<lambda>e a. find (\<lambda>acc. base_of acc = Some a) (fst e)),
     vk_SetAccount = (\<lambda>e acc. (acc # fst e, snd e)), vk_GetAddress = (\<lambda>b. b), vk_GetModuleAddress = (\<lambda>_. [4]), vk_NewModuleAddress = (\<lambda>_. [4]),
     vk_BlockedAddr = (\<lambda>a. a = [4]), vk_SendCoins = vdemo_send, vk_FundCommunityPool = (\<lambda>e c p. vdemo_send e p [4] c),
     vk_GetDelegatorBonded = (\<lambda>_ _. 3), vk_GetDelegatorUnbonding = (\<lambda>_ _. 0), vk_BondDenom = (\<lambda>_. ''ahpx''), vk_GetProposal = (\<lambda>_ _. None),
     vk_MinDeposit = (\<lambda>_. []), vk_IsAllLT = (\<lambda>a b. coin_le a b \<and> a \<noteq> b), vk_authority = [3],
     vk_FromBech32 = map_of vdemo_addresses,
     vk_String = (\<lambda>a. case map_of (map (\<lambda>(s, a). (a, s)) vdemo_addresses) a of None \<Rightarrow> [] | Some s \<Rightarrow> s), vk_EmptyCodeHash = ''0xc5d2''\<rparr>"

definition vdemo_ctx :: "(vdemo_env, vdemo_coins) vctx" where
  "vdemo_ctx = \<lparr>v_store = [], v_time = 115,
     v_env = ([Clawback_Account \<lparr>BaseAccount = [2], OriginalVesting = [], DelegatedFree = [], DelegatedVesting = [], EndTime = 0,
       FunderAddress = ''funder'', va_StartTime = zeroTime_Unix, LockupPeriods = [], VestingPeriods = []\<rparr>], [([1], [(''ahpx'', 50)])]),
     v_events = []\<rparr>"

definition vdemo_fund :: "vdemo_coins MsgFundVestingAccount" where
  "vdemo_fund = \<lparr>mf_FunderAddress = ''funder'', mf_VestingAddress = ''grantee'', mf_StartTime = 100,
     mf_LockupPeriods = [\<lparr>p_Length = 50, p_Amount = [(''ahpx'', 10)]\<rparr>],
     mf_VestingPeriods = [\<lparr>p_Length = 10, p_Amount = [(''ahpx'', 4)]\<rparr>, \<lparr>p_Length = 20, p_Amount = [(''ahpx'', 6)]\<rparr>]\<rparr>"

definition vdemo_clawback :: MsgClawback where
  "vdemo_clawback = \<lparr>mb_FunderAddress = ''funder'', mb_AccountAddress = ''grantee'', mb_DestAddress = []\<rparr>"

definition vdemo_funded :: "(vdemo_env, vdemo_coins) vctx" where
  "vdemo_funded = fst (FundVestingAccount vdemo_keeper vdemo_ctx vdemo_fund)"








lemma vdemo_simps: "vk_FromBech32 vdemo_keeper ''grantee'' = Some [2]" "mb_AccountAddress vdemo_clawback = ''grantee''"
    "mf_VestingAddress vdemo_fund = ''grantee''" "vk_Coins vdemo_keeper = list_coins" "mf_StartTime vdemo_fund = 100"
  by (simp_all add: vdemo_keeper_def vdemo_addresses_def vdemo_clawback_def vdemo_fund_def)




section \<open>The mark of an active proposal\<close>

definition proposal_targets :: "('e, 'b, 'c, 'o) VestKeeper \<Rightarrow> ('e, 'c) vctx \<Rightarrow> u64 \<Rightarrow> bytes list" where
  "proposal_targets k ctx i =
     (case vk_GetProposal k (v_env ctx) i of
        None \<Rightarrow> []
      | Some p \<Rightarrow> (case getClawbackProposals p of Inl _ \<Rightarrow> [] | Inr as \<Rightarrow> List.map_filter (vk_FromBech32 k) as))"

definition deposit_met :: "('e, 'b, 'c, 'o) VestKeeper \<Rightarrow> ('e, 'c) vctx \<Rightarrow> u64 \<Rightarrow> bool" where
  "deposit_met k ctx i =
     (case vk_GetProposal k (v_env ctx) i of None \<Rightarrow> False | Some p \<Rightarrow> \<not> vk_IsAllLT k (pr_TotalDeposit p) (vk_MinDeposit k (v_env ctx)))"

lemma active_mark_simps [simp]:
  "HasActiveClawbackProposal (v_SetAccount k ctx acc) a = HasActiveClawbackProposal ctx a"
  "HasActiveClawbackProposal (v_Emit ctx ev) a = HasActiveClawbackProposal ctx a"
  "HasActiveClawbackProposal (ctx\<lparr>v_env := e\<rparr>) a = HasActiveClawbackProposal ctx a"
  "HasActiveClawbackProposal (SetGovClawbackDisabled ctx b) a = HasActiveClawbackProposal ctx a"
  "HasActiveClawbackProposal (DeleteGovClawbackDisabled ctx b) a = HasActiveClawbackProposal ctx a"
  "HasActiveClawbackProposal (SetActiveClawbackProposal ctx b) a \<longleftrightarrow> a = b \<or> HasActiveClawbackProposal ctx a"
  "HasActiveClawbackProposal (DeleteActiveClawbackProposal ctx b) a \<longleftrightarrow> a \<noteq> b \<and> HasActiveClawbackProposal ctx a"
  by (auto simp: HasActiveClawbackProposal_def v_SetAccount_def v_Emit_def SetGovClawbackDisabled_def DeleteGovClawbackDisabled_def
      SetActiveClawbackProposal_def DeleteActiveClawbackProposal_def buildActiveAccountClawbackProposalKey_def
      KeyPrefixGovClawbackDisabledKey_def KeyPrefixGovClawbackProposalKey_def kv_simps)

lemma messages_keep_mark:
  "HasActiveClawbackProposal (fst (CreateClawbackVestingAccount k ctx m)) a = HasActiveClawbackProposal ctx a"
  "HasActiveClawbackProposal (fst (FundVestingAccount k ctx f)) a = HasActiveClawbackProposal ctx a"
  "HasActiveClawbackProposal (fst (transferClawback k ctx va dest)) a = HasActiveClawbackProposal ctx a"
  "HasActiveClawbackProposal (fst (UpdateVestingFunder k ctx u)) a = HasActiveClawbackProposal ctx a"
  "HasActiveClawbackProposal (fst (ConvertVestingAccount k ctx addr)) a = HasActiveClawbackProposal ctx a"
  by (simp_all add: CreateClawbackVestingAccount_def FundVestingAccount_def transferClawback_def UpdateVestingFunder_def
      ConvertVestingAccount_def Let_def split_beta split: option.split AccountI.split sum.split)

lemma Clawback_keeps_mark: "HasActiveClawbackProposal (fst (Clawback k ctx b)) a = HasActiveClawbackProposal ctx a"
  by (simp add: Clawback_def Let_def split_beta messages_keep_mark(3) split: option.split sum.split)

lemma mark_proposals_marks:
  "mark_proposals k SetActiveClawbackProposal ctx as = Inr ctx' \<Longrightarrow>
     HasActiveClawbackProposal ctx' a \<longleftrightarrow> HasActiveClawbackProposal ctx a \<or> a \<in> set (List.map_filter (vk_FromBech32 k) as)"
  "mark_proposals k DeleteActiveClawbackProposal ctx as = Inr ctx' \<Longrightarrow>
     HasActiveClawbackProposal ctx' a \<longleftrightarrow> HasActiveClawbackProposal ctx a \<and> a \<notin> set (List.map_filter (vk_FromBech32 k) as)"
  by (induction as arbitrary: ctx) (auto simp: map_filter_simps split: option.splits)

text \<open>C40. The mark of an active proposal.  While governance decides about clawing back from an account, the account is marked, and the mark
  stops the funder from clawing back and from handing the account over.  No message of the module, successful or not, sets or
  removes a mark.  A deposit sets it for exactly the accounts named in the proposal, once the deposit is not below the minimum in
  every denomination; the end of the vote removes it for exactly those accounts.  A proposal that fails to
  reach the minimal deposit keeps the marks it has set.\<close>

theorem active_proposal_mark:
  "HasActiveClawbackProposal (fst (CreateClawbackVestingAccount k ctx m)) a = HasActiveClawbackProposal ctx a \<and>
   HasActiveClawbackProposal (fst (FundVestingAccount k ctx f)) a = HasActiveClawbackProposal ctx a \<and>
   HasActiveClawbackProposal (fst (Clawback k ctx b)) a = HasActiveClawbackProposal ctx a \<and>
   HasActiveClawbackProposal (fst (UpdateVestingFunder k ctx u)) a = HasActiveClawbackProposal ctx a \<and>
   HasActiveClawbackProposal (fst (ConvertVestingAccount k ctx addr)) a = HasActiveClawbackProposal ctx a \<and>
   HasActiveClawbackProposal (AfterProposalFailedMinDeposit ctx i) a = HasActiveClawbackProposal ctx a \<and>
   (AfterProposalDeposit k ctx i = Inr ctx1 \<longrightarrow>
      HasActiveClawbackProposal ctx1 a = (HasActiveClawbackProposal ctx a \<or> deposit_met k ctx i \<and> a \<in> set (proposal_targets k ctx i))) \<and>
   (AfterProposalVotingPeriodEnded k ctx i = Inr ctx2 \<longrightarrow>
      HasActiveClawbackProposal ctx2 a = (HasActiveClawbackProposal ctx a \<and> a \<notin> set (proposal_targets k ctx i))) \<and>
   (HasActiveClawbackProposal ctx a \<longrightarrow>
      (vk_FromBech32 k (mb_AccountAddress b) = Some a \<and> mb_FunderAddress b \<noteq> vk_String k (vk_authority k) \<longrightarrow>
         fst (Clawback k ctx b) = ctx \<and> isl (snd (Clawback k ctx b))) \<and>
      (vk_FromBech32 k (mu_VestingAddress u) = Some a \<longrightarrow>
         fst (UpdateVestingFunder k ctx u) = ctx \<and> isl (snd (UpdateVestingFunder k ctx u))))"
proof (intro conjI impI messages_keep_mark Clawback_keeps_mark)
  show "HasActiveClawbackProposal (AfterProposalFailedMinDeposit ctx i) a = HasActiveClawbackProposal ctx a"
    by (simp add: AfterProposalFailedMinDeposit_def)
  show "HasActiveClawbackProposal ctx1 a = (HasActiveClawbackProposal ctx a \<or> deposit_met k ctx i \<and> a \<in> set (proposal_targets k ctx i))"
    if "AfterProposalDeposit k ctx i = Inr ctx1"
    using that by (auto simp: AfterProposalDeposit_def deposit_met_def proposal_targets_def mark_proposals_marks map_filter_simps
        split: option.splits sum.splits if_splits)
  show "HasActiveClawbackProposal ctx2 a = (HasActiveClawbackProposal ctx a \<and> a \<notin> set (proposal_targets k ctx i))"
    if "AfterProposalVotingPeriodEnded k ctx i = Inr ctx2"
    using that by (auto simp: AfterProposalVotingPeriodEnded_def proposal_targets_def mark_proposals_marks split: option.splits sum.splits)
qed (auto simp: Clawback_def UpdateVestingFunder_def Let_def split: option.splits)

text \<open>A deposit in a denomination other than that of the minimum, however small, is not below the minimum in every denomination.\<close>

definition vdemo_dust :: "(vdemo_env, bytes, vdemo_coins, unit) VestKeeper" where
  "vdemo_dust = vdemo_keeper\<lparr>vk_MinDeposit := (\<lambda>_. [(''ahpx'', 100)]), vk_IsAllLT := (\<lambda>a b. a = [] \<or> list_all (\<lambda>(d, n). n < coin_amount b d) a),
     vk_GetProposal := (\<lambda>_ _. Some \<lparr>pr_Msgs = Inr [ClawbackProposal ''grantee''], pr_TotalDeposit = [(''dust'', 1)]\<rparr>)\<rparr>"

lemma dust_deposit_marks:
  "map_sum id (\<lambda>ctx. HasActiveClawbackProposal (AfterProposalFailedMinDeposit ctx 1) [2]) (AfterProposalDeposit vdemo_dust vdemo_funded 1) = Inr True"
  by code_simp

theorem active_proposal_mark_witness:
  "\<exists>ctx1. AfterProposalDeposit vdemo_dust vdemo_funded 1 = Inr ctx1 \<and> HasActiveClawbackProposal ctx1 [2] \<and> fst (Clawback vdemo_dust ctx1 vdemo_clawback) = ctx1"
proof -
  obtain ctx1 where d: "AfterProposalDeposit vdemo_dust vdemo_funded 1 = Inr ctx1" "HasActiveClawbackProposal ctx1 [2]"
    using dust_deposit_marks by (auto simp: AfterProposalFailedMinDeposit_def map_sum_def split: sum.splits)
  have a: "vk_FromBech32 vdemo_dust (mb_AccountAddress vdemo_clawback) = Some [2]" "mb_FunderAddress vdemo_clawback \<noteq> vk_String vdemo_dust (vk_authority vdemo_dust)"
    by (simp_all add: vdemo_dust_def vdemo_simps) (simp add: vdemo_keeper_def vdemo_clawback_def vdemo_addresses_def)
  show ?thesis
    using active_proposal_mark [of vdemo_dust ctx1 _ "[2]" _ vdemo_clawback] d a by auto
qed

section \<open>The balances query\<close>

lemma Balances_correct:
  assumes C: "coins_laws (vk_Coins k)" and ok: "vesting_ok k ctx" and addr: "vk_FromBech32 k address = Some a"
    and va: "vk_GetAccount k (v_env ctx) a = Some (Clawback_Account va)" and funded: "\<not> unfunded (vk_Coins k) va"
  shows "\<exists>r. Balances k ctx address = Inr r \<and>
    (\<forall>d. AmountOf (vk_Coins k) (qb_Vested r) d = vested_at (vk_Coins k) va d (v_time ctx) \<and>
       AmountOf (vk_Coins k) (qb_Vested r) d + AmountOf (vk_Coins k) (qb_Unvested r) d = AmountOf (vk_Coins k) (OriginalVesting va) d \<and>
       AmountOf (vk_Coins k) (qb_Locked r) d = AmountOf (vk_Coins k) (OriginalVesting va) d - unlocked_at (vk_Coins k) va d (v_time ctx))"
proof -
  let ?C = "vk_Coins k" and ?t = "v_time ctx"
  have acc: "account_ok ?C va"
    using ok va funded by (auto simp: vesting_ok_def)
  note at = account_at [OF C acc, where t = ?t]
  obtain locked where l: "GetLockedUpCoins ?C va ?t = Some locked"
    "\<forall>d. AmountOf ?C locked d = AmountOf ?C (OriginalVesting va) d - unlocked_at ?C va d ?t"
    using coins_sub [OF C account_okD(5) [OF acc] at(2)] at(8) by (metis GetLockedUpCoins_def unlocked_at_def)
  obtain unvested where u: "GetVestingCoins ?C va ?t = Some unvested"
    "\<forall>d. AmountOf ?C unvested d = AmountOf ?C (OriginalVesting va) d - vested_at ?C va d ?t"
    using coins_sub [OF C account_okD(5) [OF acc] at(1)] at(6) by (metis GetVestingCoins_def vested_at_def)
  show ?thesis
    using addr va l u by (simp add: Balances_def GetClawbackVestingAccount_def vested_at_def)
qed

end
