(* ===== verification/Spec2Isabelle.thy ===== *)
theory Spec2Isabelle
  imports Scheduler_Precompile Streams_Precompile Oracle_Precompile Pax_Spot Fee_Market Tee_Attestor State_DB_Simulation Vesting_Keeper
begin

text \<open>
  Verification of the native modules and precompiles of the HyperPax chain, a Cosmos SDK application with an Ethereum virtual machine.

  \<^bold>\<open>The program\<close>

  A module is a keeper over a key-value store, called by messages, by the hooks of the blocks and by other modules.
  A precompile is a contract address of the virtual machine whose code is Go: it decodes call data and calls a keeper.
  The parts that are modelled, and how they call each other:

  \<^item> the scheduler (\<open>x/scheduler\<close>, \<open>precompiles/scheduler\<close>): jobs with a deposit, run by the end of the block they are due in;
  \<^item> payment streams (\<open>x/streams\<close>, \<open>precompiles/streams\<close>): a payer escrows a cap that accrues to a payee by the second;
  \<^item> the price oracle (\<open>x/paxoracle\<close>, \<open>precompiles/paxspot/oracle\<close>) and the stateless precompiles of the spot exchange
    (\<open>precompiles/paxspot/orob\<close>, \<open>clearing\<close>, \<open>pofq\<close>);
  \<^item> the fee market (\<open>x/feemarket\<close>): the base fee, which the scheduler reads to price its jobs, and the lane of agents;
  \<^item> the attestor (\<open>x/attestor\<close>, \<open>precompiles/teeattestor\<close>): root keys set by governance, and quotes checked against them;
  \<^item> the state database of the virtual machine (\<open>x/evm/statedb\<close>);
  \<^item> clawback vesting (\<open>x/vesting\<close>).

  \<^bold>\<open>Conventions\<close>

  A fixed-width Go integer is a word of that width, \<open>big.Int\<close> is \<open>int\<close>; \<open>int64\<close> times and indices that are only added and
  compared are \<open>int\<close> with \<open>wrap64\<close> around every sum.  Structs are records with the field names of the source, prefixed where two structs
  share one.  A handler takes the context and returns it with the error or the result; a Go panic is an error of its own.  The modules
  and libraries outside the repository (bank, token contracts, the interpreter, staking, governance, ABI decoding, signatures,
  decimal and coin arithmetic) are functions in a record or arguments; what is used of them is stated by a predicate, such as
  \<open>bank_laws\<close>, \<open>evm_keeps\<close>, \<open>dec_laws\<close>, \<open>coins_laws\<close>, \<open>acct_laws\<close>, and every theorem that assumes one has a witness in which
  it holds.  Definitions compute, and the witnesses evaluate them.

  \<^bold>\<open>The theories\<close>

  \<^item> \<open>HP_Prelude\<close>: machine types, big-endian keys, decimal strings, the division of \<open>math/big\<close>, \<open>int64\<close>.
  \<^item> \<open>KV_Store\<close>: the store of a module, sorted by key.  The locale \<open>kv_store\<close> is its interface; the locale \<open>record_index\<close> is
    the contract of a module that keeps records with a primary key and index entries, interpreted for jobs and streams.
  \<^item> \<open>Keepers\<close>: the bank and the other keepers that modules receive, with their laws.
  \<^item> \<open>Precompile_Common\<close>: \<open>RunSetup\<close> of \<open>precompiles/common\<close>; the locale \<open>precompile_entry\<close> gives a precompile its behaviour under
    \<open>STATICCALL\<close> and on unknown selectors, interpreted for scheduler, streams and oracle.
  \<^item> \<open>Scheduler\<close>, \<open>Scheduler_Precompile\<close>: \<open>Schedule\<close>, \<open>Cancel\<close>, \<open>Reschedule\<close>, \<open>dispatchJob\<close>, \<open>EndBlocker\<close>, genesis and the handlers.
    The module account covers the deposits of all jobs in every reachable state (\<open>sched_step\<close>); each operation does exactly
    what its checks promise; due jobs run once, in order; a failing job leaves nothing behind but its refund.
    \<open>EndBlocker_double_refund\<close> is the exception: a job that a contract cancels during the dispatch is refunded twice.
  \<^item> \<open>Streams\<close>, \<open>Streams_Precompile\<close>: \<open>Open\<close>, \<open>Settle\<close>, \<open>Close\<close>, \<open>UpdateRate\<close>, \<open>streamAccrued\<close>, genesis and the handlers.  The
    module account covers what every stream still owes (\<open>strm_step\<close>), a payee receives the same in total however often the stream is
    settled, and closing splits the cap exactly.
  \<^item> \<open>Proto_Wire\<close>: the hand-written protobuf codecs of \<open>x/paxoracle/types/msgs.go\<close> and \<open>x/attestor/types/msgs.go\<close>, byte by byte; where
    decoding inverts encoding, and the inputs on which it does not or does not end.
  \<^item> \<open>Weighted_Median\<close>, \<open>Pax_Oracle\<close>, \<open>Oracle_Precompile\<close>: the weighted median as used by the keeper and by the precompile (locale
    \<open>price_sort\<close>, so that the order of equal prices does not matter), submissions, parameters, messages and genesis.  The answer is the
    median of the fresh submissions in every reachable state (\<open>orc_step\<close>), and a minority cannot move it beyond the majority's prices.
  \<^item> \<open>Pax_Spot\<close>: batch clearing trades the most volume any uniform price can; relative prices and fill scores stay in range.
  \<^item> \<open>Fee_Market\<close>: the base fee moves by the EIP-1559 rule, never below its floor, and the begin of a block does not panic
    (\<open>fee_step\<close>); lane membership mirrors the registry events.
  \<^item> \<open>Attestor\<close>, \<open>Tee_Attestor\<close>: the roots of a family are those of the last update by governance (locale \<open>trust_store\<close>); the
    precompile accepts exactly envelopes signed by such a root, within the debug and age policy; the envelope parser accepts exactly the layout.
  \<^item> \<open>State_DB\<close>, \<open>State_DB_Refinement\<close>, \<open>State_DB_Simulation\<close>: cached objects, journal, snapshots, access list and \<open>Commit\<close>.  For every
    sequence of calls the database answers, and panics, like one that copies the whole state at a snapshot.
  \<^item> \<open>Vesting_Schedule\<close>, \<open>Vesting_Account\<close>, \<open>Vesting_Keeper\<close>: reading schedules, their union and minimum; the account with its
    vested, unlocked and locked coins and \<open>ComputeClawback\<close>; validation of the messages, the message server, the governance hooks and
    the query.  Combined schedules are the sum and the minimum of their parts at every time; funding adds exactly the grant;
    only the funder or governance claws back, and exactly what has not vested; every reachable account is well formed (\<open>vest_step\<close>).

  This theory holds what spans components: no static call to a precompile writes.

  \<^bold>\<open>Bounds and loops\<close>

  All loops are structural recursions or have a termination proof, but for the two decoders of \<open>Proto_Wire\<close>, which can run forever.
  They take fuel, one unit per field: the round trips hold from the number of fields plus one on, and the divergence theorem shows an
  input on which no amount of fuel gives a result.  Hypotheses that bound numbers (a start time below \<open>2^63\<close>, lengths below \<open>2^63\<close>) are
  named in the theorem, such as \<open>fund_in_range\<close>.

  \<^bold>\<open>Not modelled\<close>

  The interpreter is go-ethereum, and bank, staking, governance, IBC and the tree of the store are libraries; the code around them (\<open>x/evm/keeper\<close>,
  \<open>x/erc20\<close>, \<open>x/revenue\<close>, \<open>x/inflation\<close>, \<open>x/epochs\<close>, ante handlers, the precompiles that wrap SDK modules) is left out.  The
  servers, the command line and the configuration are input and output; protobuf and ABI bindings are generated.  In the modelled modules
  gas metering, logging, telemetry, amino codecs and store migrations are left out, and in the state database \<open>ForEachStorage\<close>.
\<close>

text \<open>C28. Under \<open>STATICCALL\<close> no method of the scheduler, streams or oracle precompile writes: the context of the module,
  and the state database the scheduler debits, are unchanged, whatever the call data and the ABI.\<close>

theorem static_calls_write_nothing:
  "fst (sched_Run sk p SubBalance sctx stateDB contract True) = (sctx, stateDB) \<and>
   fst (strm_Run tk p tctx contract True) = tctx \<and>
   fst (orc_Run ok p octx contract True) = octx"
  using sched_entry.static_call [of sk p SubBalance "(sctx, stateDB)" contract]
  by (simp add: strm_entry.static_call orc_entry.static_call)

end
